theory Spec2Isabelle
  imports Complex_Main "HOL-Library.Monad_Syntax"
begin

section \<open>JavaScript values as the server sees them\<close>

text \<open>
  A JavaScript string is a sequence of UTF-16 code units; a code unit is modelled by its
  number. \<open>js\<close> embeds an ASCII literal of the source.
\<close>

type_synonym jstring = "nat list"

definition js :: "string \<Rightarrow> jstring" where
  "js s = map of_char s"

text \<open>
  The values \<open>JSON.parse\<close> produces, and \<open>undefined\<close> for a property that is absent.
  Numbers are the finite ones; an object is the list of its own properties.
\<close>

datatype jsval =
    JUndefined
  | JNull
  | JBool bool
  | JNum rat
  | JStr jstring
  | JArr "jsval list"
  | JObj "(jstring \<times> jsval) list"

text \<open>
  Builtins of the JavaScript runtime that the server calls and does not define: the
  rendering of a number by \<open>String\<close>, and \<open>String.prototype.toLowerCase\<close>.
\<close>

record js_runtime =
  numToString :: "rat \<Rightarrow> jstring"
  toLowerCase :: "jstring \<Rightarrow> jstring"

fun truthy :: "jsval \<Rightarrow> bool" where
  "truthy JUndefined = False"
| "truthy JNull = False"
| "truthy (JBool b) = b"
| "truthy (JNum r) = (r \<noteq> 0)"
| "truthy (JStr s) = (s \<noteq> [])"
| "truthy (JArr xs) = True"
| "truthy (JObj kvs) = True"

text \<open>\<open>a || b\<close> and \<open>a ?? b\<close>.\<close>

definition js_or :: "jsval \<Rightarrow> jsval \<Rightarrow> jsval" where
  "js_or a b = (if truthy a then a else b)"

definition js_coalesce :: "jsval \<Rightarrow> jsval \<Rightarrow> jsval" where
  "js_coalesce a b = (if a = JUndefined \<or> a = JNull then b else a)"

text \<open>\<open>Array.prototype.join\<close> with separator \<open>sep\<close>.\<close>

fun join :: "jstring \<Rightarrow> jstring list \<Rightarrow> jstring" where
  "join sep [] = []"
| "join sep [x] = x"
| "join sep (x # y # ys) = x @ sep @ join sep (y # ys)"

text \<open>
  \<open>String(v)\<close>. \<open>None\<close> is the \<open>TypeError\<close> that the conversion raises for an object
  whose own property \<open>toString\<close> shadows the inherited method (a parsed JSON value is
  never callable). An array renders its elements joined by commas, \<open>null\<close> and
  \<open>undefined\<close> elements as the empty string.
\<close>

fun sequence_opt :: "'a option list \<Rightarrow> 'a list option" where
  "sequence_opt [] = Some []"
| "sequence_opt (None # xs) = None"
| "sequence_opt (Some x # xs) = (case sequence_opt xs of None \<Rightarrow> None | Some ys \<Rightarrow> Some (x # ys))"

fun ToString :: "js_runtime \<Rightarrow> jsval \<Rightarrow> jstring option" where
  "ToString rt JUndefined = Some (js ''undefined'')"
| "ToString rt JNull = Some (js ''null'')"
| "ToString rt (JBool b) = Some (if b then js ''true'' else js ''false'')"
| "ToString rt (JNum r) = Some (numToString rt r)"
| "ToString rt (JStr s) = Some s"
| "ToString rt (JArr xs) =
     map_option (join (js '',''))
       (sequence_opt (map (\<lambda>x. if x = JUndefined \<or> x = JNull then Some [] else ToString rt x) xs))"
| "ToString rt (JObj kvs) =
     (if js ''toString'' \<in> fst ` set kvs then None else Some (js ''[object Object]''))"

text \<open>
  Property access \<open>v.name\<close>: a \<open>TypeError\<close> (\<open>None\<close>) on \<open>null\<close> and \<open>undefined\<close>,
  the own property of an object, \<open>undefined\<close> otherwise. Only names that no prototype
  defines are read this way.
\<close>

fun get_prop :: "jsval \<Rightarrow> jstring \<Rightarrow> jsval option" where
  "get_prop JUndefined name = None"
| "get_prop JNull name = None"
| "get_prop (JObj kvs) name = (case map_of kvs name of None \<Rightarrow> Some JUndefined | Some v \<Rightarrow> Some v)"
| "get_prop v name = Some JUndefined"

text \<open>
  The code units that \<open>String.prototype.trim\<close> strips and that the white-space class
  of a regular expression matches: the white space and line terminators of ECMAScript.
\<close>

definition js_space :: "nat \<Rightarrow> bool" where
  "js_space c \<longleftrightarrow> c \<in> set [9, 10, 11, 12, 13, 32, 160, 5760, 8192, 8193, 8194, 8195, 8196,
     8197, 8198, 8199, 8200, 8201, 8202, 8232, 8233, 8239, 8287, 12288, 65279]"

definition trim :: "jstring \<Rightarrow> jstring" where
  "trim s = rev (dropWhile js_space (rev (dropWhile js_space s)))"

section \<open>Pricing engine\<close>

text \<open>The option catalogue \<open>PRICE_OPTIONS\<close>: per category, code, label and amount.\<close>

type_synonym price_table = "(jstring \<times> jstring \<times> int) list"

definition PRICE_OPTIONS_campType :: price_table where
  "PRICE_OPTIONS_campType =
     [(js ''iaido'', js ''Iaido seminar'', 149),
      (js ''jodo'', js ''Jodo seminar'', 149),
      (js ''both'', js ''Iaido + Jodo seminar'', 249)]"

definition PRICE_OPTIONS_mealPlan :: price_table where
  "PRICE_OPTIONS_mealPlan =
     [(js ''none'', js ''No meal'', 0),
      (js ''lunch'', js ''Lunch package'', 33),
      (js ''full'', js ''Full meal package'', 60)]"

definition PRICE_OPTIONS_accommodation :: price_table where
  "PRICE_OPTIONS_accommodation =
     [(js ''none'', js ''No accommodation'', 0),
      (js ''dojo'', js ''Dojo accommodation'', 73),
      (js ''guesthouse'', js ''Guesthouse'', 135)]"

text \<open>\<open>Object.prototype.hasOwnProperty.call(table, code)\<close>.\<close>

definition hasOwnProperty :: "price_table \<Rightarrow> jstring \<Rightarrow> bool" where
  "hasOwnProperty table code \<longleftrightarrow> code \<in> set (map fst table)"

definition toEnumValue :: "js_runtime \<Rightarrow> jsval \<Rightarrow> price_table \<Rightarrow> jstring \<Rightarrow> jstring option" where
  "toEnumValue rt v allowedValues fallbackValue =
     (case ToString rt (js_or v (JStr [])) of
        None \<Rightarrow> None
      | Some s \<Rightarrow>
          (let normalized = trim s
           in Some (if hasOwnProperty allowedValues normalized then normalized else fallbackValue)))"

record selection =
  sel_campType :: jsval
  sel_mealPlan :: jsval
  sel_accommodation :: jsval

text \<open>
  A line item spreads the catalogue entry of its code into the object; \<open>li_entry\<close> is
  that entry (label and amount), \<open>None\<close> when the table has no such own property.
\<close>

record line_item =
  li_key :: jstring
  li_code :: jstring
  li_entry :: "(jstring \<times> int) option"

definition mk_line_item :: "string \<Rightarrow> price_table \<Rightarrow> jstring \<Rightarrow> line_item" where
  "mk_line_item k table code = \<lparr>li_key = js k, li_code = code, li_entry = map_of table code\<rparr>"

text \<open>
  \<open>sum + item.amountHuf\<close>: an absent amount makes the sum \<open>NaN\<close>, written \<open>None\<close>.
\<close>

definition add_amount :: "int option \<Rightarrow> line_item \<Rightarrow> int option" where
  "add_amount acc item =
     (case (acc, li_entry item) of (Some s, Some (l, a)) \<Rightarrow> Some (s + a) | _ \<Rightarrow> None)"

record pricing =
  p_campType :: jstring
  p_mealPlan :: jstring
  p_accommodation :: jstring
  lineItems :: "line_item list"
  totalHuf :: "int option"
  currency :: jstring

definition calculatePricing :: "js_runtime \<Rightarrow> selection \<Rightarrow> pricing option" where
  "calculatePricing rt sel =
     (case toEnumValue rt (sel_campType sel) PRICE_OPTIONS_campType (js ''iaido'') of
        None \<Rightarrow> None
      | Some campType \<Rightarrow>
     (case toEnumValue rt (sel_mealPlan sel) PRICE_OPTIONS_mealPlan (js ''none'') of
        None \<Rightarrow> None
      | Some mealPlan \<Rightarrow>
     (case toEnumValue rt (sel_accommodation sel) PRICE_OPTIONS_accommodation (js ''none'') of
        None \<Rightarrow> None
      | Some accommodation \<Rightarrow>
          (let items =
             [mk_line_item ''campType'' PRICE_OPTIONS_campType campType,
              mk_line_item ''mealPlan'' PRICE_OPTIONS_mealPlan mealPlan,
              mk_line_item ''accommodation'' PRICE_OPTIONS_accommodation accommodation]
           in Some \<lparr>p_campType = campType, p_mealPlan = mealPlan,
                     p_accommodation = accommodation, lineItems = items,
                     totalHuf = foldl add_amount (Some 0) items,
                     currency = js ''EUR''\<rparr>))))"

section \<open>Validation layer\<close>

text \<open>The canonical shape that \<open>sanitizePayload\<close> returns.\<close>

record sanitized =
  fullName :: jstring
  email :: jstring
  phone :: jstring
  dateOfBirth :: jstring
  city :: jstring
  currentGradeIaido :: jstring
  currentGradeJodo :: jstring
  campType :: jstring
  mealPlan :: jstring
  accommodation :: jstring
  wantsExamIaido :: bool
  targetGradeIaido :: jstring
  wantsExamJodo :: bool
  targetGradeJodo :: jstring
  billingFullName :: jstring
  billingZip :: jstring
  billingCity :: jstring
  billingAddress :: jstring
  billingCountry :: jstring
  foodNotes :: jstring
  privacyConsent :: bool
  termsConsent :: bool

text \<open>\<open>String(v || d).trim()\<close> and \<open>String(v).trim()\<close>.\<close>

definition str_or_trim :: "js_runtime \<Rightarrow> jsval \<Rightarrow> string \<Rightarrow> jstring option" where
  "str_or_trim rt v d = map_option trim (ToString rt (js_or v (JStr (js d))))"

definition str_trim :: "js_runtime \<Rightarrow> jsval \<Rightarrow> jstring option" where
  "str_trim rt v = map_option trim (ToString rt v)"

definition sanitizePayload :: "js_runtime \<Rightarrow> jsval \<Rightarrow> sanitized option" where
  "sanitizePayload rt payload = do {
     pTargetGradeIaido \<leftarrow> get_prop payload (js ''targetGradeIaido'');
     pTargetGrade \<leftarrow> get_prop payload (js ''targetGrade'');
     pCurrentGradeIaido \<leftarrow> get_prop payload (js ''currentGradeIaido'');
     pCurrentGrade \<leftarrow> get_prop payload (js ''currentGrade'');
     pWantsExamIaido \<leftarrow> get_prop payload (js ''wantsExamIaido'');
     pWantsExam \<leftarrow> get_prop payload (js ''wantsExam'');
     pWantsExamJodo \<leftarrow> get_prop payload (js ''wantsExamJodo'');
     pCampType \<leftarrow> get_prop payload (js ''campType'');
     pMealPlan \<leftarrow> get_prop payload (js ''mealPlan'');
     pAccommodation \<leftarrow> get_prop payload (js ''accommodation'');
     pFullName \<leftarrow> get_prop payload (js ''fullName'');
     pEmail \<leftarrow> get_prop payload (js ''email'');
     pPhone \<leftarrow> get_prop payload (js ''phone'');
     pDateOfBirth \<leftarrow> get_prop payload (js ''dateOfBirth'');
     pCity \<leftarrow> get_prop payload (js ''city'');
     pCurrentGradeJodo \<leftarrow> get_prop payload (js ''currentGradeJodo'');
     pTargetGradeJodo \<leftarrow> get_prop payload (js ''targetGradeJodo'');
     pBillingFullName \<leftarrow> get_prop payload (js ''billingFullName'');
     pBillingZip \<leftarrow> get_prop payload (js ''billingZip'');
     pBillingCity \<leftarrow> get_prop payload (js ''billingCity'');
     pBillingAddress \<leftarrow> get_prop payload (js ''billingAddress'');
     pBillingCountry \<leftarrow> get_prop payload (js ''billingCountry'');
     pFoodNotes \<leftarrow> get_prop payload (js ''foodNotes'');
     pPrivacyConsent \<leftarrow> get_prop payload (js ''privacyConsent'');
     pTermsConsent \<leftarrow> get_prop payload (js ''termsConsent'');
     let fallbackTargetGradeIaido = js_coalesce pTargetGradeIaido (js_coalesce pTargetGrade (JStr []));
     let fallbackCurrentGradeIaido = js_coalesce pCurrentGradeIaido (js_coalesce pCurrentGrade (JStr []));
     let wantsExamIaido' = truthy (js_coalesce pWantsExamIaido pWantsExam);
     let wantsExamJodo' = truthy pWantsExamJodo;
     campType' \<leftarrow> toEnumValue rt pCampType PRICE_OPTIONS_campType (js ''iaido'');
     mealPlan' \<leftarrow> toEnumValue rt pMealPlan PRICE_OPTIONS_mealPlan (js ''none'');
     accommodation' \<leftarrow> toEnumValue rt pAccommodation PRICE_OPTIONS_accommodation (js ''none'');
     fullName' \<leftarrow> str_or_trim rt pFullName [];
     email' \<leftarrow> str_or_trim rt pEmail [];
     phone' \<leftarrow> str_or_trim rt pPhone [];
     dateOfBirth' \<leftarrow> str_or_trim rt pDateOfBirth [];
     city' \<leftarrow> str_or_trim rt pCity [];
     currentGradeIaido' \<leftarrow> str_trim rt fallbackCurrentGradeIaido;
     currentGradeJodo' \<leftarrow> str_or_trim rt pCurrentGradeJodo [];
     targetGradeIaido' \<leftarrow> (if wantsExamIaido' then str_trim rt fallbackTargetGradeIaido else Some []);
     targetGradeJodo' \<leftarrow> (if wantsExamJodo' then str_or_trim rt pTargetGradeJodo [] else Some []);
     billingFullName' \<leftarrow> str_or_trim rt pBillingFullName [];
     billingZip' \<leftarrow> str_or_trim rt pBillingZip [];
     billingCity' \<leftarrow> str_or_trim rt pBillingCity [];
     billingAddress' \<leftarrow> str_or_trim rt pBillingAddress [];
     billingCountry' \<leftarrow> str_or_trim rt pBillingCountry ''Hungary'';
     foodNotes' \<leftarrow> str_or_trim rt pFoodNotes [];
     Some \<lparr>fullName = fullName',
           email = toLowerCase rt email',
           phone = phone',
           dateOfBirth = dateOfBirth',
           city = city',
           currentGradeIaido = currentGradeIaido',
           currentGradeJodo = currentGradeJodo',
           campType = campType',
           mealPlan = mealPlan',
           accommodation = accommodation',
           wantsExamIaido = wantsExamIaido',
           targetGradeIaido = targetGradeIaido',
           wantsExamJodo = wantsExamJodo',
           targetGradeJodo = targetGradeJodo',
           billingFullName = billingFullName',
           billingZip = billingZip',
           billingCity = billingCity',
           billingAddress = billingAddress',
           billingCountry = billingCountry',
           foodNotes = foodNotes',
           privacyConsent = truthy pPrivacyConsent,
           termsConsent = truthy pTermsConsent\<rparr>
   }"

text \<open>The checks of \<open>validateRegistration\<close> on strings.\<close>

definition isNonEmptyString :: "jstring \<Rightarrow> bool" where
  "isNonEmptyString v \<longleftrightarrow> length (trim v) > 0"

text \<open>
  The email pattern: one or more code units that are neither white space nor \<open>@\<close>, then
  \<open>@\<close>, then the same twice around a full stop. The part before the first \<open>@\<close> is the
  local part; the rest needs a full stop that is neither its first nor its last unit.
\<close>

definition email_unit :: "nat \<Rightarrow> bool" where
  "email_unit c \<longleftrightarrow> \<not> js_space c \<and> c \<noteq> 64"

definition isValidEmail :: "jstring \<Rightarrow> bool" where
  "isValidEmail v \<longleftrightarrow>
     (case dropWhile (\<lambda>c. c \<noteq> 64) v of
        [] \<Rightarrow> False
      | c # d \<Rightarrow>
          takeWhile (\<lambda>c. c \<noteq> 64) v \<noteq> [] \<and>
          list_all email_unit (takeWhile (\<lambda>c. c \<noteq> 64) v) \<and>
          list_all email_unit d \<and>
          46 \<in> set (tl (butlast d)))"

text \<open>The phone pattern: 7 to 20 units among \<open>+ ( ) -\<close>, white space and digits, after trimming.\<close>

definition phone_unit :: "nat \<Rightarrow> bool" where
  "phone_unit c \<longleftrightarrow> c = 43 \<or> c = 40 \<or> c = 41 \<or> c = 45 \<or> js_space c \<or> (48 \<le> c \<and> c \<le> 57)"

definition isValidPhone :: "jstring \<Rightarrow> bool" where
  "isValidPhone v \<longleftrightarrow>
     list_all phone_unit (trim v) \<and> 7 \<le> length (trim v) \<and> length (trim v) \<le> 20"

definition isFourDigits :: "jstring \<Rightarrow> bool" where
  "isFourDigits v \<longleftrightarrow> length v = 4 \<and> list_all (\<lambda>c. 48 \<le> c \<and> c \<le> 57) v"

text \<open>\<open>if (c) errors.push(m)\<close>.\<close>

definition push_if :: "bool \<Rightarrow> string \<Rightarrow> jstring list" where
  "push_if c m = (if c then [js m] else [])"

definition validateRegistration :: "sanitized \<Rightarrow> jstring list" where
  "validateRegistration d =
     (let needsIaidoGrade =
            (campType d = js ''iaido'' \<or> campType d = js ''both'' \<or> wantsExamIaido d);
          needsJodoGrade =
            (campType d = js ''jodo'' \<or> campType d = js ''both'' \<or> wantsExamJodo d)
      in concat
        [push_if (\<not> isNonEmptyString (fullName d)) ''Full name is required.'',
         push_if (\<not> isValidEmail (email d)) ''A valid email address is required.'',
         push_if (\<not> isValidPhone (phone d)) ''A valid phone number is required.'',
         push_if (\<not> isNonEmptyString (city d)) ''City is required.'',
         push_if (needsIaidoGrade \<and> \<not> isNonEmptyString (currentGradeIaido d))
           ''Current Iaido grade is required for the selected option.'',
         push_if (needsJodoGrade \<and> \<not> isNonEmptyString (currentGradeJodo d))
           ''Current Jodo grade is required for the selected option.'',
         push_if (\<not> hasOwnProperty PRICE_OPTIONS_campType (campType d))
           ''Invalid seminar selection.'',
         push_if (\<not> hasOwnProperty PRICE_OPTIONS_mealPlan (mealPlan d))
           ''Invalid meal option.'',
         push_if (\<not> hasOwnProperty PRICE_OPTIONS_accommodation (accommodation d))
           ''Invalid accommodation option.'',
         push_if (wantsExamIaido d \<and> \<not> isNonEmptyString (targetGradeIaido d))
           ''Iaido target grade is required if Iaido exam is selected.'',
         push_if (wantsExamJodo d \<and> \<not> isNonEmptyString (targetGradeJodo d))
           ''Jodo target grade is required if Jodo exam is selected.'',
         push_if (wantsExamIaido d \<and> campType d = js ''jodo'')
           ''Iaido exam can only be selected with Iaido or Iaido + Jodo participation.'',
         push_if (wantsExamJodo d \<and> campType d = js ''iaido'')
           ''Jodo exam can only be selected with Jodo or Iaido + Jodo participation.'',
         push_if (\<not> isNonEmptyString (billingFullName d)) ''Billing full name is required.'',
         push_if (\<not> isFourDigits (billingZip d)) ''Billing ZIP code must be 4 digits.'',
         push_if (\<not> isNonEmptyString (billingCity d)) ''Billing city is required.'',
         push_if (\<not> isNonEmptyString (billingAddress d)) ''Billing address is required.'',
         push_if (\<not> isNonEmptyString (billingCountry d)) ''Billing country is required.'',
         push_if (length (foodNotes d) > 4000) ''Note cannot exceed 4000 characters.'',
         push_if (\<not> privacyConsent d) ''Privacy consent is required.'',
         push_if (\<not> termsConsent d) ''Accepting participation terms is required.''])"

subsection \<open>A sample request\<close>

text \<open>
  A registration for both disciplines with an Iaido exam, as a parsed request body, the
  value the sanitizer returns for it, and a runtime whose \<open>toLowerCase\<close> covers the
  letters A to Z.
\<close>

definition sample_runtime :: js_runtime where
  "sample_runtime =
     \<lparr>numToString = (\<lambda>r. []),
      toLowerCase = map (\<lambda>c. if 65 \<le> c \<and> c \<le> 90 then c + 32 else c)\<rparr>"

definition sample_payload :: jsval where
  "sample_payload = JObj
     [(js ''fullName'', JStr (js '' Kovacs Anna '')),
      (js ''email'', JStr (js ''Anna@Example.org'')),
      (js ''phone'', JStr (js ''+36 30 123 4567'')),
      (js ''city'', JStr (js ''Pecs'')),
      (js ''currentGradeIaido'', JStr (js ''4th dan'')),
      (js ''currentGradeJodo'', JStr (js ''1st kyu'')),
      (js ''campType'', JStr (js ''both'')),
      (js ''wantsExamIaido'', JBool True),
      (js ''targetGradeIaido'', JStr (js ''5th dan'')),
      (js ''wantsExamJodo'', JBool False),
      (js ''billingFullName'', JStr (js ''Kovacs Anna'')),
      (js ''billingZip'', JStr (js ''7621'')),
      (js ''billingCity'', JStr (js ''Pecs'')),
      (js ''billingAddress'', JStr (js ''Fo utca 1.'')),
      (js ''privacyConsent'', JBool True),
      (js ''termsConsent'', JBool True)]"

definition sample_sanitized :: sanitized where
  "sample_sanitized =
     \<lparr>fullName = js ''Kovacs Anna'', email = js ''anna@example.org'',
      phone = js ''+36 30 123 4567'', dateOfBirth = [], city = js ''Pecs'',
      currentGradeIaido = js ''4th dan'', currentGradeJodo = js ''1st kyu'',
      campType = js ''both'', mealPlan = js ''none'', accommodation = js ''none'',
      wantsExamIaido = True, targetGradeIaido = js ''5th dan'', wantsExamJodo = False,
      targetGradeJodo = [], billingFullName = js ''Kovacs Anna'', billingZip = js ''7621'',
      billingCity = js ''Pecs'', billingAddress = js ''Fo utca 1.'',
      billingCountry = js ''Hungary'', foodNotes = [], privacyConsent = True,
      termsConsent = True\<rparr>"

section \<open>Contention-retry wrapper\<close>

text \<open>
  A thrown error as the wrapper reads it: its \<open>code\<close> property when it has one, and its
  message.
\<close>

record js_error =
  err_code :: "jstring option"
  err_message :: jstring

definition SQLITE_RETRY_MAX_ATTEMPTS :: nat where
  "SQLITE_RETRY_MAX_ATTEMPTS = 5"

definition SQLITE_RETRY_BASE_DELAY_MS :: nat where
  "SQLITE_RETRY_BASE_DELAY_MS = 120"

text \<open>
  A pattern with the flag \<open>i\<close> and without the flag \<open>u\<close> compares code units after
  upper-casing them, where a unit beyond ASCII never becomes an ASCII one: the letters
  a to z match in either case and every other unit of these patterns matches itself.
\<close>

definition canonicalize :: "nat \<Rightarrow> nat" where
  "canonicalize c = (if 97 \<le> c \<and> c \<le> 122 then c - 32 else c)"

fun starts_with_ci :: "jstring \<Rightarrow> jstring \<Rightarrow> bool" where
  "starts_with_ci [] s = True"
| "starts_with_ci (p # ps) [] = False"
| "starts_with_ci (p # ps) (c # cs) \<longleftrightarrow> canonicalize p = canonicalize c \<and> starts_with_ci ps cs"

text \<open>\<open>/pat/i.test(s)\<close> for a pattern of literal characters: it matches anywhere in \<open>s\<close>.\<close>

fun regex_test_ci :: "jstring \<Rightarrow> jstring \<Rightarrow> bool" where
  "regex_test_ci pat [] = starts_with_ci pat []"
| "regex_test_ci pat (c # cs) \<longleftrightarrow> starts_with_ci pat (c # cs) \<or> regex_test_ci pat cs"

definition isSqliteBusyError :: "js_error \<Rightarrow> bool" where
  "isSqliteBusyError error \<longleftrightarrow>
     (let code = (case err_code error of None \<Rightarrow> [] | Some c \<Rightarrow> c);
          message = err_message error
      in code = js ''SQLITE_BUSY'' \<or>
         code = js ''SQLITE_LOCKED'' \<or>
         regex_test_ci (js ''database is locked'') message \<or>
         regex_test_ci (js ''database is busy'') message)"

definition retry_exhausted :: js_error where
  "retry_exhausted = \<lparr>err_code = None, err_message = js ''SQLite retry exhausted.''\<rparr>"

text \<open>
  The wrapped operation reads and writes the store: it takes the state and returns what
  it threw (\<open>Inl\<close>) or returned (\<open>Inr\<close>) with the state it left. The wrapper returns the
  outcome, the final state and the delays it slept, in milliseconds and in order.
\<close>

type_synonym ('s, 'a) operation = "'s \<Rightarrow> (js_error + 'a) \<times> 's"

function retry_loop ::
  "('s, 'a) operation \<Rightarrow> nat \<Rightarrow> 's \<Rightarrow> (js_error + 'a) \<times> 's \<times> nat list" where
  "retry_loop operation attempt s =
     (if attempt \<le> SQLITE_RETRY_MAX_ATTEMPTS then
        (case operation s of
           (Inr v, s') \<Rightarrow> (Inr v, s', [])
         | (Inl error, s') \<Rightarrow>
             (let shouldRetry = (isSqliteBusyError error \<and> attempt < SQLITE_RETRY_MAX_ATTEMPTS)
              in if \<not> shouldRetry then (Inl error, s', [])
                 else (let delay = SQLITE_RETRY_BASE_DELAY_MS * attempt;
                           (r, s'', delays) = retry_loop operation (attempt + 1) s'
                       in (r, s'', delay # delays))))
      else (Inl retry_exhausted, s, []))"
  by pat_completeness auto
termination
  by (relation "measure (\<lambda>(operation, attempt, s). SQLITE_RETRY_MAX_ATTEMPTS + 1 - attempt)") auto

definition runWithSqliteRetry ::
  "('s, 'a) operation \<Rightarrow> 's \<Rightarrow> (js_error + 'a) \<times> 's \<times> nat list" where
  "runWithSqliteRetry operation s = retry_loop operation 1 s"

text \<open>The state that the operation has left after \<open>j\<close> invocations.\<close>

definition state_after :: "('s, 'a) operation \<Rightarrow> 's \<Rightarrow> nat \<Rightarrow> 's" where
  "state_after operation s j = ((\<lambda>t. snd (operation t)) ^^ j) s"

text \<open>An operation that finds the database locked every time, and counts its invocations.\<close>

definition locked_error :: js_error where
  "locked_error = \<lparr>err_code = Some (js ''ERR_SQLITE_ERROR''), err_message = js ''database is locked''\<rparr>"

definition always_locked :: "(nat, unit) operation" where
  "always_locked n = (Inl locked_error, Suc n)"

text \<open>
  \<open>busy_at operation s j\<close>: invocation number \<open>j + 1\<close> of the operation, counted from
  state \<open>s\<close>, throws an error that the classifier calls retryable.
  \<open>deciding_attempt operation s k\<close>: the first \<open>k\<close> invocations throw retryable errors
  and invocation \<open>k + 1\<close> is either the last one allowed or does not.
\<close>

definition busy_at :: "('s, 'a) operation \<Rightarrow> 's \<Rightarrow> nat \<Rightarrow> bool" where
  "busy_at operation s j \<longleftrightarrow>
     (\<exists>e. fst (operation (state_after operation s j)) = Inl e \<and> isSqliteBusyError e)"

definition deciding_attempt :: "('s, 'a) operation \<Rightarrow> 's \<Rightarrow> nat \<Rightarrow> bool" where
  "deciding_attempt operation s k \<longleftrightarrow>
     k < SQLITE_RETRY_MAX_ATTEMPTS \<and> (\<forall>j<k. busy_at operation s j)
     \<and> (Suc k < SQLITE_RETRY_MAX_ATTEMPTS \<longrightarrow> \<not> busy_at operation s k)"

text \<open>An operation that finds the database busy twice and then returns its state.\<close>

definition busy_twice :: "(nat, nat) operation" where
  "busy_twice n =
     (if n < 2 then Inl \<lparr>err_code = None, err_message = js ''Database is BUSY''\<rparr>
      else Inr n, Suc n)"

section \<open>Registration store\<close>

text \<open>
  The \<open>registrations\<close> table of the SQLite database: its columns in order, each with
  its \<open>NOT NULL\<close> flag, and its rows in \<open>rowid\<close> order, a row mapping column names to
  the values stored in them. Numbers are exact.
\<close>

datatype sqlval = SNull | SNum rat | SText jstring

type_synonym row = "string \<rightharpoonup> sqlval"

record table =
  columns :: "(string \<times> bool) list"
  rows :: "row list"

definition has_column :: "table \<Rightarrow> string \<Rightarrow> bool" where
  "has_column t c \<longleftrightarrow> c \<in> set (map fst (columns t))"

text \<open>The value of column \<open>c\<close> in a row; a column without a value reads \<open>NULL\<close>.\<close>

definition col :: "row \<Rightarrow> string \<Rightarrow> sqlval" where
  "col r c = (case r c of None \<Rightarrow> SNull | Some v \<Rightarrow> v)"

text \<open>The error that \<open>node:sqlite\<close> throws when a statement fails.\<close>

definition sqlite_error :: "string \<Rightarrow> js_error" where
  "sqlite_error msg = \<lparr>err_code = Some (js ''ERR_SQLITE_ERROR''), err_message = js msg\<rparr>"

text \<open>
  \<open>UPDATE registrations SET \<dots> WHERE \<dots>\<close>: \<open>refs\<close> are the columns the statement
  names (it fails when the table lacks one), \<open>cond\<close> its \<open>WHERE\<close> clause and \<open>assign\<close>
  its \<open>SET\<close> clause. The result is the number of rows changed and the table.
\<close>

definition sql_update ::
  "string list \<Rightarrow> (row \<Rightarrow> bool) \<Rightarrow> (row \<Rightarrow> row) \<Rightarrow> table \<Rightarrow> js_error + nat \<times> table" where
  "sql_update refs cond assign t =
     (if list_all (has_column t) refs
      then Inr (length (filter cond (rows t)),
                t\<lparr>rows := map (\<lambda>r. if cond r then assign r else r) (rows t)\<rparr>)
      else Inl (sqlite_error ''no such column''))"

definition updateRegistrationStatus ::
  "table \<Rightarrow> jstring \<Rightarrow> jstring \<Rightarrow> js_error + nat \<times> table" where
  "updateRegistrationStatus db registrationId status =
     sql_update [''status'', ''id'']
       (\<lambda>r. col r ''id'' = SText registrationId)
       (\<lambda>r. r(''status'' \<mapsto> SText status))
       db"

definition anonymizeRegistration :: "table \<Rightarrow> jstring \<Rightarrow> js_error + nat \<times> table" where
  "anonymizeRegistration db registrationId =
     (let anonymizedEmail = js ''anonymized-'' @ registrationId @ js ''@example.invalid''
      in sql_update
           [''status'', ''full_name'', ''email'', ''phone'', ''date_of_birth'', ''city'',
            ''billing_full_name'', ''billing_zip'', ''billing_city'', ''billing_address'',
            ''billing_country'', ''food_notes'', ''id'']
           (\<lambda>r. col r ''id'' = SText registrationId)
           (\<lambda>r. r(''status'' \<mapsto> SText (js ''ANONYMIZED''),
                  ''full_name'' \<mapsto> SText (js ''ANONYMIZED''),
                  ''email'' \<mapsto> SText anonymizedEmail,
                  ''phone'' \<mapsto> SText [],
                  ''date_of_birth'' \<mapsto> SText [],
                  ''city'' \<mapsto> SText [],
                  ''billing_full_name'' \<mapsto> SText [],
                  ''billing_zip'' \<mapsto> SText [],
                  ''billing_city'' \<mapsto> SText [],
                  ''billing_address'' \<mapsto> SText [],
                  ''billing_country'' \<mapsto> SText [],
                  ''food_notes'' \<mapsto> SText []))
           db)"

text \<open>
  The \<open>INSERT\<close> statement of \<open>insertRegistration\<close> and of the legacy import names
  these 35 columns, in this order.
\<close>

definition insert_columns :: "string list" where
  "insert_columns =
     [''id'', ''created_at'', ''status'', ''amount_huf'', ''currency'',
      ''full_name'', ''email'', ''phone'', ''date_of_birth'', ''city'', ''current_grade'',
      ''current_grade_iaido'', ''current_grade_jodo'',
      ''camp_type'', ''meal_plan'', ''accommodation'',
      ''wants_exam'', ''target_grade'', ''wants_exam_iaido'', ''target_grade_iaido'',
      ''wants_exam_jodo'', ''target_grade_jodo'',
      ''billing_full_name'', ''billing_zip'', ''billing_city'', ''billing_address'',
      ''billing_country'',
      ''food_notes'', ''price_breakdown'', ''privacy_consent'', ''terms_consent'',
      ''privacy_policy_version'', ''terms_version'', ''privacy_consent_at'',
      ''terms_consent_at'']"

text \<open>\<open>db.prepare\<close> of the statement fails when the table lacks a column it names.\<close>

definition prepare_insert :: "table \<Rightarrow> bool" where
  "prepare_insert t \<longleftrightarrow> list_all (has_column t) insert_columns"

text \<open>
  The declared type of a column gives it an affinity. \<open>CREATE TABLE\<close> and the
  \<open>ALTER TABLE\<close> statements of \<open>ensureRegistrationColumns\<close> declare the amount and the
  flags \<open>INTEGER\<close> and every other column \<open>TEXT\<close>.
\<close>

datatype affinity = TextAffinity | IntegerAffinity

definition integer_columns :: "string list" where
  "integer_columns =
     [''amount_huf'', ''wants_exam'', ''wants_exam_iaido'', ''wants_exam_jodo'',
      ''privacy_consent'', ''terms_consent'']"

definition column_affinity :: "string \<Rightarrow> affinity" where
  "column_affinity c = (if c \<in> set integer_columns then IntegerAffinity else TextAffinity)"

text \<open>
  The two conversions of SQLite that an affinity applies: the text that stands for a
  floating-point number (\<open>5.0\<close> for the number 5), and the number that a text
  denotes when it is a well-formed numeric literal (\<open>None\<close> when it is not).
\<close>

record sqlite_lib =
  realToText :: "rat \<Rightarrow> jstring"
  textToNumeric :: "jstring \<Rightarrow> rat option"

text \<open>
  The value that a column of the given affinity stores for a bound value. \<open>node:sqlite\<close>
  binds every JavaScript number as a floating-point number: a \<open>TEXT\<close> column stores
  its text, an \<open>INTEGER\<close> column the number. An \<open>INTEGER\<close> column stores the number
  that a text denotes, and the text when it denotes none. \<open>NULL\<close> is stored as it is.
\<close>

fun store_as :: "sqlite_lib \<Rightarrow> affinity \<Rightarrow> sqlval \<Rightarrow> sqlval" where
  "store_as lib TextAffinity (SNum r) = SText (realToText lib r)"
| "store_as lib IntegerAffinity (SText s) =
     (case textToNumeric lib s of None \<Rightarrow> SText s | Some r \<Rightarrow> SNum r)"
| "store_as lib a v = v"

text \<open>
  Running the prepared statement with the 35 values bound to it: each value is converted
  by the affinity of its column, and the row is appended unless a \<open>NOT NULL\<close> column
  would hold \<open>NULL\<close> or the primary key \<open>id\<close>, as stored, is already taken.
\<close>

definition run_insert :: "sqlite_lib \<Rightarrow> table \<Rightarrow> sqlval list \<Rightarrow> js_error + table" where
  "run_insert lib t vs =
     (let stored = map2 (\<lambda>c v. store_as lib (column_affinity c) v) insert_columns vs;
          r = map_of (zip insert_columns stored)
      in if \<not> list_all (\<lambda>(c, notnull). \<not> notnull \<or> col r c \<noteq> SNull) (columns t)
         then Inl (sqlite_error ''NOT NULL constraint failed'')
         else if col r ''id'' \<noteq> SNull \<and> col r ''id'' \<in> set (map (\<lambda>x. col x ''id'') (rows t))
         then Inl (sqlite_error ''UNIQUE constraint failed: registrations.id'')
         else Inr (t\<lparr>rows := rows t @ [r]\<rparr>))"

text \<open>
  The record that the registration endpoint stores: the sanitized request and the fields
  the endpoint adds. \<open>amountHuf\<close> is the total of the pricing (\<open>None\<close> for \<open>NaN\<close>).
\<close>

record registration = sanitized +
  reg_id :: jstring
  createdAt :: jstring
  reg_status :: jstring
  amountHuf :: "int option"
  reg_currency :: jstring
  priceBreakdown :: pricing
  privacyPolicyVersion :: jstring
  termsVersion :: jstring
  privacyConsentAt :: jstring
  termsConsentAt :: jstring

definition sql_bool :: "bool \<Rightarrow> sqlval" where
  "sql_bool b = SNum (if b then 1 else 0)"

text \<open>A number bound to a parameter; \<open>NaN\<close> is stored as \<open>NULL\<close>.\<close>

definition sql_number :: "int option \<Rightarrow> sqlval" where
  "sql_number n = (case n of None \<Rightarrow> SNull | Some i \<Rightarrow> SNum (of_int i))"

text \<open>\<open>a || b\<close> on strings.\<close>

definition str_or :: "jstring \<Rightarrow> jstring \<Rightarrow> jstring" where
  "str_or a b = (if a \<noteq> [] then a else b)"

text \<open>
  \<open>insertRegistration\<close>; \<open>stringify\<close> is \<open>JSON.stringify\<close> on the price breakdown.
\<close>

definition insertRegistration ::
  "sqlite_lib \<Rightarrow> (pricing \<Rightarrow> jstring) \<Rightarrow> table \<Rightarrow> registration \<Rightarrow> js_error + table" where
  "insertRegistration lib stringify db registration =
     (let currentGradeIaido' = trim (str_or (currentGradeIaido registration) []);
          currentGradeJodo' = trim (str_or (currentGradeJodo registration) []);
          currentGradeLegacy = str_or currentGradeIaido' (str_or currentGradeJodo' (trim []));
          wantsExamCombined = (wantsExamIaido registration \<or> wantsExamJodo registration);
          targetGradeCombined =
            str_or (targetGradeIaido registration) (str_or (targetGradeJodo registration) [])
      in if \<not> prepare_insert db then Inl (sqlite_error ''no such column'')
         else run_insert lib db
           [SText (reg_id registration),
            SText (createdAt registration),
            SText (reg_status registration),
            sql_number (amountHuf registration),
            SText (reg_currency registration),
            SText (fullName registration),
            SText (email registration),
            SText (phone registration),
            SText (dateOfBirth registration),
            SText (city registration),
            SText currentGradeLegacy,
            SText currentGradeIaido',
            SText currentGradeJodo',
            SText (campType registration),
            SText (mealPlan registration),
            SText (accommodation registration),
            sql_bool wantsExamCombined,
            SText targetGradeCombined,
            sql_bool (wantsExamIaido registration),
            SText (targetGradeIaido registration),
            sql_bool (wantsExamJodo registration),
            SText (targetGradeJodo registration),
            SText (billingFullName registration),
            SText (billingZip registration),
            SText (billingCity registration),
            SText (billingAddress registration),
            SText (billingCountry registration),
            SText (foodNotes registration),
            SText (stringify (priceBreakdown registration)),
            sql_bool (privacyConsent registration),
            sql_bool (termsConsent registration),
            SText (str_or (privacyPolicyVersion registration) []),
            SText (str_or (termsVersion registration) []),
            SText (str_or (privacyConsentAt registration) []),
            SText (str_or (termsConsentAt registration) [])])"

text \<open>
  The operations of the system that write to the store: the registration endpoint
  inserts, the two admin endpoints mark a registration deleted and anonymize it. An
  operation that throws leaves the store as it was.
\<close>

datatype store_op =
    Register registration
  | MarkDeleted jstring
  | Anonymize jstring

fun apply_op ::
  "sqlite_lib \<Rightarrow> (pricing \<Rightarrow> jstring) \<Rightarrow> table \<Rightarrow> store_op \<Rightarrow> table" where
  "apply_op lib stringify db (Register registration) =
     (case insertRegistration lib stringify db registration of
        Inl e \<Rightarrow> db | Inr db' \<Rightarrow> db')"
| "apply_op lib stringify db (MarkDeleted registrationId) =
     (case updateRegistrationStatus db registrationId (js ''DELETED'') of
        Inl e \<Rightarrow> db | Inr (changedRows, db') \<Rightarrow> db')"
| "apply_op lib stringify db (Anonymize registrationId) =
     (case anonymizeRegistration db registrationId of
        Inl e \<Rightarrow> db | Inr (changedRows, db') \<Rightarrow> db')"

definition apply_ops ::
  "sqlite_lib \<Rightarrow> (pricing \<Rightarrow> jstring) \<Rightarrow> table \<Rightarrow> store_op list \<Rightarrow> table" where
  "apply_ops lib stringify db ops = foldl (apply_op lib stringify) db ops"

text \<open>The status of the row at position \<open>i\<close>.\<close>

definition status_at :: "table \<Rightarrow> nat \<Rightarrow> sqlval" where
  "status_at db i = col (rows db ! i) ''status''"

text \<open>A store with one registration that an administrator has marked deleted.\<close>

definition base_columns :: "(string \<times> bool) list" where
  "base_columns =
     [(''id'', False), (''created_at'', True), (''status'', True), (''amount_huf'', True),
      (''currency'', True), (''full_name'', True), (''email'', True), (''phone'', True),
      (''date_of_birth'', False), (''city'', True), (''current_grade'', True),
      (''camp_type'', True), (''meal_plan'', True), (''accommodation'', True),
      (''wants_exam'', True), (''target_grade'', False), (''billing_full_name'', True),
      (''billing_zip'', True), (''billing_city'', True), (''billing_address'', True),
      (''billing_country'', True), (''food_notes'', False), (''price_breakdown'', True),
      (''privacy_consent'', True), (''terms_consent'', True)]"

definition deleted_row :: row where
  "deleted_row =
     [''id'' \<mapsto> SText (js ''reg_1''),
      ''created_at'' \<mapsto> SText (js ''2026-03-01T10:00:00.000Z''),
      ''status'' \<mapsto> SText (js ''DELETED''),
      ''amount_huf'' \<mapsto> SNum 249,
      ''currency'' \<mapsto> SText (js ''EUR''),
      ''full_name'' \<mapsto> SText (js ''Kovacs Anna''),
      ''email'' \<mapsto> SText (js ''anna@example.org''),
      ''phone'' \<mapsto> SText (js ''+36 30 123 4567''),
      ''date_of_birth'' \<mapsto> SText [],
      ''city'' \<mapsto> SText (js ''Pecs''),
      ''current_grade'' \<mapsto> SText (js ''4th dan''),
      ''camp_type'' \<mapsto> SText (js ''both''),
      ''meal_plan'' \<mapsto> SText (js ''none''),
      ''accommodation'' \<mapsto> SText (js ''none''),
      ''wants_exam'' \<mapsto> SNum 1,
      ''target_grade'' \<mapsto> SText (js ''5th dan''),
      ''billing_full_name'' \<mapsto> SText (js ''Kovacs Anna''),
      ''billing_zip'' \<mapsto> SText (js ''7621''),
      ''billing_city'' \<mapsto> SText (js ''Pecs''),
      ''billing_address'' \<mapsto> SText (js ''Fo utca 1.''),
      ''billing_country'' \<mapsto> SText (js ''Hungary''),
      ''food_notes'' \<mapsto> SText (js ''vegetarian''),
      ''price_breakdown'' \<mapsto> SText (js ''{}''),
      ''privacy_consent'' \<mapsto> SNum 1,
      ''terms_consent'' \<mapsto> SNum 1]"

definition deleted_store :: table where
  "deleted_store = \<lparr>columns = base_columns, rows = [deleted_row]\<rparr>"

text \<open>
  The columns that hold personal data, which anonymization overwrites besides the
  status, and the columns whose values it keeps.
\<close>

definition personal_columns :: "string list" where
  "personal_columns =
     [''full_name'', ''email'', ''phone'', ''date_of_birth'', ''city'',
      ''billing_full_name'', ''billing_zip'', ''billing_city'', ''billing_address'',
      ''billing_country'', ''food_notes'']"

definition kept_columns :: "string list" where
  "kept_columns =
     [''id'', ''created_at'', ''camp_type'', ''meal_plan'', ''accommodation'',
      ''amount_huf'', ''currency'', ''price_breakdown'',
      ''current_grade'', ''current_grade_iaido'', ''current_grade_jodo'',
      ''wants_exam'', ''target_grade'', ''wants_exam_iaido'', ''target_grade_iaido'',
      ''wants_exam_jodo'', ''target_grade_jodo'',
      ''privacy_consent'', ''terms_consent'', ''privacy_policy_version'', ''terms_version'',
      ''privacy_consent_at'', ''terms_consent_at'']"

text \<open>
  The row \<open>deleted_row\<close> after anonymization, a stand-in for \<open>JSON.stringify\<close>, and
  one for the conversions of SQLite, which has them right at the number 5 and at texts
  that are no numeric literals.
\<close>

definition anonymized_row :: row where
  "anonymized_row = deleted_row
     (''status'' \<mapsto> SText (js ''ANONYMIZED''),
      ''full_name'' \<mapsto> SText (js ''ANONYMIZED''),
      ''email'' \<mapsto> SText (js ''anonymized-reg_1@example.invalid''),
      ''phone'' \<mapsto> SText [],
      ''date_of_birth'' \<mapsto> SText [],
      ''city'' \<mapsto> SText [],
      ''billing_full_name'' \<mapsto> SText [],
      ''billing_zip'' \<mapsto> SText [],
      ''billing_city'' \<mapsto> SText [],
      ''billing_address'' \<mapsto> SText [],
      ''billing_country'' \<mapsto> SText [],
      ''food_notes'' \<mapsto> SText [])"

definition sample_stringify :: "pricing \<Rightarrow> jstring" where
  "sample_stringify p = js ''{}''"

definition sample_sqlite :: sqlite_lib where
  "sample_sqlite =
     \<lparr>realToText = (\<lambda>r. if r = 5 then js ''5.0'' else js ''0.0''),
      textToNumeric = (\<lambda>s. None)\<rparr>"

subsection \<open>Schema migration\<close>

text \<open>
  \<open>ALTER TABLE registrations ADD COLUMN c \<dots> DEFAULT v\<close>: the column is appended and
  every stored row reads the default in it.
\<close>

definition add_column :: "string \<Rightarrow> bool \<Rightarrow> sqlval \<Rightarrow> table \<Rightarrow> table" where
  "add_column c notnull v t =
     \<lparr>columns = columns t @ [(c, notnull)], rows = map (\<lambda>r. r(c \<mapsto> v)) (rows t)\<rparr>"

text \<open>
  The columns that \<open>ensureRegistrationColumns\<close> adds when they are missing, in the
  order of its tests: name, \<open>NOT NULL\<close> flag and default.
\<close>

definition new_columns :: "(string \<times> bool \<times> sqlval) list" where
  "new_columns =
     [(''camp_type'', True, SText (js ''iaido'')),
      (''meal_plan'', True, SText (js ''none'')),
      (''accommodation'', True, SText (js ''none'')),
      (''price_breakdown'', True, SText (js ''{}'')),
      (''current_grade_iaido'', True, SText []),
      (''current_grade_jodo'', True, SText []),
      (''wants_exam_iaido'', True, SNum 0),
      (''target_grade_iaido'', False, SNull),
      (''wants_exam_jodo'', True, SNum 0),
      (''target_grade_jodo'', False, SNull),
      (''privacy_policy_version'', True, SText []),
      (''terms_version'', True, SText []),
      (''privacy_consent_at'', True, SText []),
      (''terms_consent_at'', True, SText [])]"

text \<open>
  \<open>if (!columnNames.has(c)) db.exec("ALTER TABLE \<dots>")\<close>, where \<open>columnNames\<close> is read
  once, before the first test.
\<close>

definition add_if_missing :: "string list \<Rightarrow> table \<Rightarrow> string \<times> bool \<times> sqlval \<Rightarrow> table" where
  "add_if_missing columnNames t spec =
     (case spec of (c, notnull, v) \<Rightarrow>
        if c \<notin> set columnNames then add_column c notnull v t else t)"

text \<open>\<open>COALESCE(x, d)\<close>.\<close>

definition coalesce :: "sqlval \<Rightarrow> sqlval \<Rightarrow> sqlval" where
  "coalesce x d = (if x = SNull then d else x)"

text \<open>
  The first backfill, the Iaido exam columns from the combined ones: its \<open>WHERE\<close>
  clause, its \<open>SET\<close> clause (both assignments read the row as it was) and the
  statement.
\<close>

definition exam_where :: "row \<Rightarrow> bool" where
  "exam_where r \<longleftrightarrow>
     col r ''wants_exam'' = SNum 1 \<and> col r ''wants_exam_iaido'' = SNum 0
     \<and> col r ''wants_exam_jodo'' = SNum 0"

definition exam_set :: "row \<Rightarrow> row" where
  "exam_set r =
     r(''wants_exam_iaido'' \<mapsto>
         (if col r ''wants_exam'' = SNum 1 then SNum 1 else col r ''wants_exam_iaido''),
       ''target_grade_iaido'' \<mapsto>
         (if col r ''wants_exam'' = SNum 1
             \<and> coalesce (col r ''target_grade_iaido'') (SText []) = SText []
          then coalesce (col r ''target_grade'') (SText [])
          else col r ''target_grade_iaido''))"

definition backfill_exam :: "table \<Rightarrow> js_error + nat \<times> table" where
  "backfill_exam t =
     sql_update
       [''wants_exam_iaido'', ''wants_exam'', ''target_grade_iaido'', ''target_grade'',
        ''wants_exam_jodo'']
       exam_where exam_set t"

text \<open>The second backfill, the current Iaido grade from the combined one.\<close>

definition grade_where :: "row \<Rightarrow> bool" where
  "grade_where r \<longleftrightarrow> coalesce (col r ''current_grade_iaido'') (SText []) = SText []"

definition grade_set :: "row \<Rightarrow> row" where
  "grade_set r =
     r(''current_grade_iaido'' \<mapsto>
         (if coalesce (col r ''current_grade_iaido'') (SText []) = SText []
          then coalesce (col r ''current_grade'') (SText [])
          else col r ''current_grade_iaido''))"

definition backfill_grade :: "table \<Rightarrow> js_error + nat \<times> table" where
  "backfill_grade t =
     sql_update [''current_grade_iaido'', ''current_grade''] grade_where grade_set t"

text \<open>
  The tests of \<open>ensureRegistrationColumns\<close> for missing columns, then the function:
  it returns the error it threw, if any, and the store as it
  left it: a statement that fails ends the function, and what ran before stays.
\<close>

definition add_phase :: "table \<Rightarrow> table" where
  "add_phase db =
     (let columnNames = map fst (columns db)
      in foldl (add_if_missing columnNames) db new_columns)"

definition ensureRegistrationColumns :: "table \<Rightarrow> js_error option \<times> table" where
  "ensureRegistrationColumns db =
     (let db1 = add_phase db
      in case backfill_exam db1 of
           Inl e \<Rightarrow> (Some e, db1)
         | Inr (n, db2) \<Rightarrow>
             (case backfill_grade db2 of
                Inl e \<Rightarrow> (Some e, db2)
              | Inr (m, db3) \<Rightarrow> (None, db3)))"

text \<open>\<open>x\<close> is a text that is not empty: what a backfill must not overwrite.\<close>

definition filled :: "sqlval \<Rightarrow> bool" where
  "filled x \<longleftrightarrow> coalesce x (SText []) \<noteq> SText []"

text \<open>
  A store of the first schema with one registration, to which a later version has
  added the column for the current Iaido grade.
\<close>

definition legacy_store :: table where
  "legacy_store =
     \<lparr>columns = base_columns @ [(''current_grade_iaido'', True)],
      rows = [deleted_row(''current_grade_iaido'' \<mapsto> SText (js ''3rd dan''))]\<rparr>"

section \<open>Admin session manager\<close>

text \<open>
  What the session code takes from its surroundings: the configured secret and admin
  name, and the library functions it calls. \<open>hmac key data\<close> is the HMAC-SHA256 of
  \<open>data\<close> under \<open>key\<close> as base64url text; \<open>encode_payload\<close> is \<open>JSON.stringify\<close>
  followed by base64url encoding; \<open>decode_payload\<close> is base64url decoding followed by
  \<open>JSON.parse\<close>, \<open>None\<close> when parsing throws.
\<close>

record session_env =
  ADMIN_SESSION_SECRET :: jstring
  ADMIN_USERNAME :: jstring
  hmac :: "jstring \<Rightarrow> jstring \<Rightarrow> jstring"
  encode_payload :: "jsval \<Rightarrow> jstring"
  decode_payload :: "jstring \<Rightarrow> jsval option"

definition ADMIN_SESSION_TTL_SECONDS :: int where
  "ADMIN_SESSION_TTL_SECONDS = 60 * 60 * 12"

text \<open>\<open>s.split(c)\<close> for a separator of one code unit.\<close>

fun split :: "nat \<Rightarrow> jstring \<Rightarrow> jstring list" where
  "split c [] = [[]]"
| "split c (x # xs) =
     (if x = c then [] # split c xs
      else (case split c xs of [] \<Rightarrow> [[x]] | y # ys \<Rightarrow> (x # y) # ys))"

definition signSessionPayload :: "session_env \<Rightarrow> jstring \<Rightarrow> jstring" where
  "signSessionPayload env encodedPayload = hmac env (ADMIN_SESSION_SECRET env) encodedPayload"

text \<open>\<open>now\<close> is \<open>Math.floor(Date.now() / 1000)\<close>.\<close>

definition buildAdminSessionToken :: "session_env \<Rightarrow> int \<Rightarrow> jstring" where
  "buildAdminSessionToken env now =
     (let payload = JObj [(js ''username'', JStr (ADMIN_USERNAME env)),
                          (js ''exp'', JNum (of_int (now + ADMIN_SESSION_TTL_SECONDS)))];
          encodedPayload = encode_payload env payload;
          signature = signSessionPayload env encodedPayload
      in encodedPayload @ js ''.'' @ signature)"

text \<open>
  The two strings are compared as the bytes of their UTF-8 encodings, of equal length
  first. The expected signature is base64url text, so the bytes are equal exactly when
  the strings are.
\<close>

definition safeEqualStrings :: "jstring \<Rightarrow> jstring \<Rightarrow> bool" where
  "safeEqualStrings left right \<longleftrightarrow> length left = length right \<and> left = right"

text \<open>
  The payload checks inside \<open>try\<close>: a thrown error (\<open>None\<close>) is caught and gives
  \<open>false\<close>.
\<close>

definition check_payload :: "session_env \<Rightarrow> int \<Rightarrow> jstring \<Rightarrow> bool option" where
  "check_payload env now encodedPayload = do {
     payload \<leftarrow> decode_payload env encodedPayload;
     username \<leftarrow> get_prop payload (js ''username'');
     if username \<noteq> JStr (ADMIN_USERNAME env) then Some False
     else do {
       exp \<leftarrow> get_prop payload (js ''exp'');
       (case exp of
          JNum e \<Rightarrow> if e < of_int now then Some False else Some True
        | _ \<Rightarrow> Some False)
     }
   }"

definition verifyAdminSessionToken :: "session_env \<Rightarrow> int \<Rightarrow> jsval \<Rightarrow> bool" where
  "verifyAdminSessionToken env now token =
     (case token of
        JStr t \<Rightarrow>
          if 46 \<notin> set t then False
          else (case split 46 t of
                  encodedPayload # signature # rest \<Rightarrow>
                    if encodedPayload = [] \<or> signature = [] \<or> length rest > 0 then False
                    else if \<not> safeEqualStrings signature (signSessionPayload env encodedPayload)
                    then False
                    else (case check_payload env now encodedPayload of
                            None \<Rightarrow> False
                          | Some b \<Rightarrow> b)
                | _ \<Rightarrow> False)
      | _ \<Rightarrow> False)"

text \<open>
  A stand-in environment for evaluation: the digest is the key followed by the data,
  the codec knows one payload.
\<close>

definition sample_session_env :: session_env where
  "sample_session_env =
     \<lparr>ADMIN_SESSION_SECRET = js ''key-one'',
      ADMIN_USERNAME = js ''admin'',
      hmac = (\<lambda>key data. key @ data),
      encode_payload = (\<lambda>v. js ''payload''),
      decode_payload = (\<lambda>s. if s = js ''payload''
         then Some (JObj [(js ''username'', JStr (js ''admin'')), (js ''exp'', JNum 43200)])
         else None)\<rparr>"

section \<open>CSV export\<close>

text \<open>
  The test \<open>/[",\n\r]/\<close> of \<open>escapeCsvValue\<close>: a double quote, a comma, a line feed
  or a carriage return.
\<close>

definition csv_special :: "nat \<Rightarrow> bool" where
  "csv_special c \<longleftrightarrow> c = 34 \<or> c = 44 \<or> c = 10 \<or> c = 13"

text \<open>\<open>stringValue.replace(/"/g, '""')\<close>.\<close>

definition double_quotes :: "jstring \<Rightarrow> jstring" where
  "double_quotes s = concat (map (\<lambda>c. if c = 34 then [34, 34] else [c]) s)"

text \<open>\<open>escapeCsvValue\<close> on the string that \<open>String(value ?? '')\<close> gives, and on a value.\<close>

definition csv_escape :: "jstring \<Rightarrow> jstring" where
  "csv_escape stringValue =
     (if list_ex csv_special stringValue then [34] @ double_quotes stringValue @ [34]
      else stringValue)"

definition cell_text :: "js_runtime \<Rightarrow> jsval \<Rightarrow> jstring option" where
  "cell_text rt v = ToString rt (js_coalesce v (JStr []))"

definition escapeCsvValue :: "js_runtime \<Rightarrow> jsval \<Rightarrow> jstring option" where
  "escapeCsvValue rt v = map_option csv_escape (cell_text rt v)"

definition csv_headers :: "jstring list" where
  "csv_headers = map js
     [''id'', ''created_at'', ''status'', ''full_name'', ''email'', ''phone'', ''city'',
      ''current_grade_iaido'', ''current_grade_jodo'', ''camp_type'', ''meal_plan'',
      ''accommodation'', ''wants_exam_iaido'', ''target_grade_iaido'', ''wants_exam_jodo'',
      ''target_grade_jodo'', ''camp_price_eur'', ''meal_price_eur'',
      ''accommodation_price_eur'', ''amount_eur'', ''currency'', ''billing_full_name'',
      ''billing_zip'', ''billing_city'', ''billing_address'', ''billing_country'',
      ''food_notes'', ''privacy_consent'', ''terms_consent'', ''privacy_policy_version'',
      ''terms_version'', ''privacy_consent_at'', ''terms_consent_at'']"

text \<open>\<open>v?.name\<close>, and \<open>v.name\<close> where \<open>v\<close> is known to be an object.\<close>

definition optional_prop :: "jsval \<Rightarrow> jstring \<Rightarrow> jsval" where
  "optional_prop v name = (case get_prop v name of None \<Rightarrow> JUndefined | Some x \<Rightarrow> x)"

text \<open>
  \<open>lineItems.find((item) => item.key === key)\<close>: \<open>undefined\<close> when no item matches,
  a \<open>TypeError\<close> (\<open>None\<close>) when an item before the match is \<open>null\<close>.
\<close>

fun find_item :: "jstring \<Rightarrow> jsval list \<Rightarrow> jsval option" where
  "find_item key [] = Some JUndefined"
| "find_item key (item # items) =
     (case get_prop item (js ''key'') of
        None \<Rightarrow> None
      | Some k \<Rightarrow> if k = JStr key then Some item else find_item key items)"

definition price_of :: "string \<Rightarrow> jsval list \<Rightarrow> jsval option" where
  "price_of key lineItems' =
     map_option (\<lambda>item. js_coalesce (optional_prop item (js ''amountHuf'')) (JStr []))
       (find_item (js key) lineItems')"

definition bool_text :: "jsval \<Rightarrow> jsval" where
  "bool_text v = JStr (if truthy v then js ''true'' else js ''false'')"

text \<open>The array \<open>row\<close> that \<open>buildCsvExport\<close> builds for one registration.\<close>

definition csv_row_values :: "jsval \<Rightarrow> jsval list option" where
  "csv_row_values registration = do {
     priceBreakdown \<leftarrow> get_prop registration (js ''priceBreakdown'');
     let lineItems' =
       (case optional_prop priceBreakdown (js ''lineItems'') of JArr items \<Rightarrow> items | _ \<Rightarrow> []);
     campPrice \<leftarrow> price_of ''campType'' lineItems';
     mealPrice \<leftarrow> price_of ''mealPlan'' lineItems';
     accommodationPrice \<leftarrow> price_of ''accommodation'' lineItems';
     let field = (\<lambda>name. optional_prop registration (js name));
     Some [field ''id'', field ''createdAt'', field ''status'', field ''fullName'',
           field ''email'', field ''phone'', field ''city'', field ''currentGradeIaido'',
           field ''currentGradeJodo'', field ''campType'', field ''mealPlan'',
           field ''accommodation'', bool_text (field ''wantsExamIaido''),
           field ''targetGradeIaido'', bool_text (field ''wantsExamJodo''),
           field ''targetGradeJodo'', campPrice, mealPrice, accommodationPrice,
           field ''amountHuf'', field ''currency'', field ''billingFullName'',
           field ''billingZip'', field ''billingCity'', field ''billingAddress'',
           field ''billingCountry'', field ''foodNotes'', bool_text (field ''privacyConsent''),
           bool_text (field ''termsConsent''), field ''privacyPolicyVersion'',
           field ''termsVersion'', field ''privacyConsentAt'', field ''termsConsentAt'']
   }"

text \<open>The texts of the cells of a row, before and after escaping.\<close>

definition csv_row_texts :: "js_runtime \<Rightarrow> jsval \<Rightarrow> jstring list option" where
  "csv_row_texts rt registration = do {
     row \<leftarrow> csv_row_values registration;
     sequence_opt (map (cell_text rt) row)
   }"

definition csv_line :: "js_runtime \<Rightarrow> jsval \<Rightarrow> jstring option" where
  "csv_line rt registration = do {
     row \<leftarrow> csv_row_values registration;
     cells \<leftarrow> sequence_opt (map (escapeCsvValue rt) row);
     Some (join (js '','') cells)
   }"

definition buildCsvExport :: "js_runtime \<Rightarrow> jsval list \<Rightarrow> jstring option" where
  "buildCsvExport rt registrations = do {
     lines \<leftarrow> sequence_opt (map (csv_line rt) registrations);
     let csvRows = join (js '','') (map csv_escape csv_headers) # lines;
     Some ([65279] @ join [10] csvRows @ [10])
   }"

subsection \<open>Reading CSV\<close>

text \<open>
  A reader of comma-separated values in the standard format (RFC 4180), for the
  round trip: fields are separated by commas and records end with a line feed or with
  carriage return and line feed; a field in double quotes runs to the closing quote and
  may hold commas and line breaks, a doubled quote inside standing for one quote. The
  reader keeps the field it is in (reversed), the fields of the record and the records
  it has read (both newest first).
\<close>

datatype csv_state = FieldStart | Unquoted | Quoted | QuoteSeen

fun read_csv ::
  "csv_state \<Rightarrow> jstring \<Rightarrow> jstring list \<Rightarrow> jstring list list \<Rightarrow> jstring \<Rightarrow> jstring list list option"
  where
  "read_csv Quoted cur fs recs [] = None"
| "read_csv FieldStart cur [] recs [] = Some (rev recs)"
| "read_csv st cur fs recs [] = Some (rev (rev (rev cur # fs) # recs))"
| "read_csv Quoted cur fs recs (c # cs) =
     (if c = 34 then read_csv QuoteSeen cur fs recs cs
      else read_csv Quoted (c # cur) fs recs cs)"
| "read_csv QuoteSeen cur fs recs (c # cs) =
     (if c = 34 then read_csv Quoted (c # cur) fs recs cs
      else if c = 44 then read_csv FieldStart [] (rev cur # fs) recs cs
      else if c = 10 then read_csv FieldStart [] [] (rev (rev cur # fs) # recs) cs
      else if c = 13 then
        (case cs of
           d # ds \<Rightarrow> if d = 10 then read_csv FieldStart [] [] (rev (rev cur # fs) # recs) ds
                     else None
         | [] \<Rightarrow> None)
      else None)"
| "read_csv st cur fs recs (c # cs) =
     (if c = 34 then (if st = FieldStart then read_csv Quoted [] fs recs cs else None)
      else if c = 44 then read_csv FieldStart [] (rev cur # fs) recs cs
      else if c = 10 then read_csv FieldStart [] [] (rev (rev cur # fs) # recs) cs
      else if c = 13 then
        (case cs of
           d # ds \<Rightarrow> if d = 10 then read_csv FieldStart [] [] (rev (rev cur # fs) # recs) ds
                     else None
         | [] \<Rightarrow> None)
      else read_csv Unquoted (c # cur) fs recs cs)"

definition parse_csv :: "jstring \<Rightarrow> jstring list list option" where
  "parse_csv s = read_csv FieldStart [] [] [] s"

text \<open>
  A listed registration whose name holds a comma and whose note holds a quote and a
  line break, and the texts of its 33 cells.
\<close>

definition sample_listed :: jsval where
  "sample_listed = JObj
     [(js ''id'', JStr (js ''reg_1'')),
      (js ''status'', JStr (js ''PAID'')),
      (js ''fullName'', JStr (js ''Smith, John'')),
      (js ''foodNotes'', JStr (js ''no '' @ [34] @ js ''nuts'' @ [34, 10] @ js ''please'')),
      (js ''wantsExamIaido'', JBool True),
      (js ''priceBreakdown'', JObj [(js ''lineItems'',
         JArr [JObj [(js ''key'', JStr (js ''campType'')), (js ''amountHuf'', JStr (js ''149''))]])])]"

definition sample_cells :: "jstring list" where
  "sample_cells =
     [js ''reg_1'', [], js ''PAID'', js ''Smith, John'', [], [], [], [], [], [], [], [],
      js ''true'', [], js ''false'', [], js ''149'', [], [], [], [], [], [], [], [], [],
      js ''no '' @ [34] @ js ''nuts'' @ [34, 10] @ js ''please'',
      js ''false'', js ''false'', [], [], [], []]"

subsection \<open>Legacy import\<close>

text \<open>
  What the import takes from its surroundings: the identifiers and timestamps that
  \<open>randomUUID\<close> and \<open>new Date().toISOString()\<close> give for the item at a position, the
  number that \<open>Number\<close> reads from a string (\<open>None\<close> for \<open>NaN\<close>), and \<open>JSON.stringify\<close>
  on a price breakdown.
\<close>

record import_env =
  randomUUID :: "nat \<Rightarrow> jstring"
  nowISO :: "nat \<Rightarrow> jstring"
  stringToNumber :: "jstring \<Rightarrow> rat option"
  json_stringify :: "pricing \<Rightarrow> jstring"

text \<open>
  The legacy file: missing, or present with what reading and parsing it gives (\<open>None\<close>
  when either throws).
\<close>

datatype legacy_file = Missing | Present "jsval option"

text \<open>
  \<open>Number(v)\<close>: the outer \<open>None\<close> is a \<open>TypeError\<close>, the inner one \<open>NaN\<close>. An array or
  object is converted through its string.
\<close>

fun toNumber :: "import_env \<Rightarrow> js_runtime \<Rightarrow> jsval \<Rightarrow> rat option option" where
  "toNumber env rt JUndefined = Some None"
| "toNumber env rt JNull = Some (Some 0)"
| "toNumber env rt (JBool b) = Some (Some (if b then 1 else 0))"
| "toNumber env rt (JNum r) = Some (Some r)"
| "toNumber env rt (JStr s) = Some (stringToNumber env s)"
| "toNumber env rt v = map_option (stringToNumber env) (ToString rt v)"

text \<open>
  A value bound to a statement parameter by \<open>node:sqlite\<close>: \<open>null\<close> is bound as
  \<open>NULL\<close>, a number as a floating-point number and a string as a text; any other value
  throws (\<open>None\<close>). What the column then stores for it is up to its affinity
  (\<open>store_as\<close>): an id, creation time, status or currency that the legacy file gives
  as a number is stored as the text of that number.
\<close>

fun bind_value :: "jsval \<Rightarrow> sqlval option" where
  "bind_value JNull = Some SNull"
| "bind_value (JNum r) = Some (SNum r)"
| "bind_value (JStr s) = Some (SText s)"
| "bind_value v = None"

text \<open>\<open>String(a || '')\<close> and \<open>String(a || b || '')\<close> on properties of the item.\<close>

definition str_of :: "js_runtime \<Rightarrow> jsval \<Rightarrow> string \<Rightarrow> jstring option" where
  "str_of rt a d = ToString rt (js_or a (JStr (js d)))"

definition str_of2 :: "js_runtime \<Rightarrow> jsval \<Rightarrow> jsval \<Rightarrow> jstring option" where
  "str_of2 rt a b = ToString rt (js_or (js_or a b) (JStr []))"

text \<open>
  The 35 values that the import binds for the legacy item at position \<open>i\<close>; \<open>None\<close>
  when computing or binding one of them throws.
\<close>

definition legacy_values ::
  "import_env \<Rightarrow> js_runtime \<Rightarrow> nat \<Rightarrow> jsval \<Rightarrow> sqlval list option" where
  "legacy_values env rt i item = do {
     iCampType \<leftarrow> get_prop item (js ''campType'');
     let get = (\<lambda>name. optional_prop item (js name));
     pricing \<leftarrow> calculatePricing rt
       \<lparr>sel_campType = js_or iCampType (JStr (js ''iaido'')),
        sel_mealPlan = js_or (get ''mealPlan'') (JStr (js ''none'')),
        sel_accommodation = js_or (get ''accommodation'') (JStr (js ''none''))\<rparr>;
     let wantsExamIaido' = truthy (js_coalesce (get ''wantsExamIaido'') (get ''wantsExam''));
     let wantsExamJodo' = truthy (get ''wantsExamJodo'');
     currentGradeIaido' \<leftarrow> str_of2 rt (get ''currentGradeIaido'') (get ''currentGrade'');
     currentGradeJodo' \<leftarrow> str_of rt (get ''currentGradeJodo'') [];
     let currentGradeLegacy = str_or currentGradeIaido' currentGradeJodo';
     targetGradeIaido' \<leftarrow>
       (if wantsExamIaido' then str_of2 rt (get ''targetGradeIaido'') (get ''targetGrade'')
        else Some []);
     targetGradeJodo' \<leftarrow>
       (if wantsExamJodo' then str_of rt (get ''targetGradeJodo'') [] else Some []);
     let wantsExamCombined = (wantsExamIaido' \<or> wantsExamJodo');
     let targetGradeCombined = str_or targetGradeIaido' targetGradeJodo';
     vId \<leftarrow> bind_value (js_or (get ''id'') (JStr (js ''reg_'' @ randomUUID env i)));
     vCreatedAt \<leftarrow> bind_value (js_or (get ''createdAt'') (JStr (nowISO env i)));
     vStatus \<leftarrow> bind_value (js_or (get ''status'') (JStr (js ''PENDING_PAYMENT'')));
     amount \<leftarrow>
       (if truthy (get ''amountHuf'') then toNumber env rt (get ''amountHuf'')
        else Some (map_option of_int (totalHuf pricing)));
     vCurrency \<leftarrow> bind_value (js_or (get ''currency'') (JStr (currency pricing)));
     fullName' \<leftarrow> str_of rt (get ''fullName'') [];
     email' \<leftarrow> str_of rt (get ''email'') [];
     phone' \<leftarrow> str_of rt (get ''phone'') [];
     dateOfBirth' \<leftarrow> str_of rt (get ''dateOfBirth'') [];
     city' \<leftarrow> str_of rt (get ''city'') [];
     billingFullName' \<leftarrow> str_of rt (get ''billingFullName'') [];
     billingZip' \<leftarrow> str_of rt (get ''billingZip'') [];
     billingCity' \<leftarrow> str_of rt (get ''billingCity'') [];
     billingAddress' \<leftarrow> str_of rt (get ''billingAddress'') [];
     billingCountry' \<leftarrow> str_of rt (get ''billingCountry'') ''Hungary'';
     foodNotes' \<leftarrow> str_of rt (get ''foodNotes'') [];
     privacyPolicyVersion' \<leftarrow> str_of rt (get ''privacyPolicyVersion'') [];
     termsVersion' \<leftarrow> str_of rt (get ''termsVersion'') [];
     privacyConsentAt' \<leftarrow> str_of rt (get ''privacyConsentAt'') [];
     termsConsentAt' \<leftarrow> str_of rt (get ''termsConsentAt'') [];
     Some [vId, vCreatedAt, vStatus,
           (case amount of None \<Rightarrow> SNull | Some r \<Rightarrow> SNum r),
           vCurrency,
           SText fullName', SText email', SText phone', SText dateOfBirth', SText city',
           SText currentGradeLegacy, SText currentGradeIaido', SText currentGradeJodo',
           SText (p_campType pricing), SText (p_mealPlan pricing),
           SText (p_accommodation pricing),
           sql_bool wantsExamCombined, SText targetGradeCombined,
           sql_bool wantsExamIaido', SText targetGradeIaido',
           sql_bool wantsExamJodo', SText targetGradeJodo',
           SText billingFullName', SText billingZip', SText billingCity',
           SText billingAddress', SText billingCountry',
           SText foodNotes', SText (json_stringify env pricing),
           sql_bool (truthy (get ''privacyConsent'')),
           sql_bool (truthy (get ''termsConsent'')),
           SText privacyPolicyVersion', SText termsVersion',
           SText privacyConsentAt', SText termsConsentAt']
   }"

text \<open>
  The loop of the import, inside \<open>try\<close>: the items are inserted in order, from position
  \<open>i\<close> on; \<open>None\<close> when an item throws.
\<close>

fun insert_all ::
  "sqlite_lib \<Rightarrow> import_env \<Rightarrow> js_runtime \<Rightarrow> table \<Rightarrow> nat \<Rightarrow> jsval list \<Rightarrow> table option"
  where
  "insert_all lib env rt db i [] = Some db"
| "insert_all lib env rt db i (item # items) =
     (case legacy_values env rt i item of
        None \<Rightarrow> None
      | Some vs \<Rightarrow>
          (case run_insert lib db vs of
             Inl e \<Rightarrow> None
           | Inr db' \<Rightarrow> insert_all lib env rt db' (Suc i) items))"

definition migration_failed :: js_error where
  "migration_failed = \<lparr>err_code = None, err_message = js ''Legacy JSON migration failed.''\<rparr>"

text \<open>
  \<open>migrateLegacyJsonIfNeeded\<close> returns the error it threw, if any, and the store as it
  left it. \<open>BEGIN\<close> opens a transaction on the store as it is; \<open>COMMIT\<close> keeps what the
  loop has inserted and \<open>ROLLBACK\<close> returns to the store as it was at \<open>BEGIN\<close>.
\<close>

definition migrateLegacyJsonIfNeeded ::
  "sqlite_lib \<Rightarrow> import_env \<Rightarrow> js_runtime \<Rightarrow> legacy_file \<Rightarrow> table
     \<Rightarrow> js_error option \<times> table" where
  "migrateLegacyJsonIfNeeded lib env rt legacyFile db =
     (case legacyFile of
        Missing \<Rightarrow> (None, db)
      | Present parsed \<Rightarrow>
          (let totalInDb = length (rows db)
           in if totalInDb > 0 then (None, db)
              else (let legacy = (case parsed of Some (JArr items) \<Rightarrow> items | _ \<Rightarrow> [])
                    in if length legacy = 0 then (None, db)
                       else if \<not> prepare_insert db
                       then (Some (sqlite_error ''no such column''), db)
                       else (let atBegin = db
                             in case insert_all lib env rt db 0 legacy of
                                  Some db' \<Rightarrow> (None, db')
                                | None \<Rightarrow> (Some migration_failed, atBegin)))))"

text \<open>The legacy item at position \<open>i\<close> makes the loop throw when the store is \<open>db\<close>.\<close>

definition row_fails ::
  "sqlite_lib \<Rightarrow> import_env \<Rightarrow> js_runtime \<Rightarrow> table \<Rightarrow> nat \<Rightarrow> jsval \<Rightarrow> bool" where
  "row_fails lib env rt db i item \<longleftrightarrow>
     (case legacy_values env rt i item of
        None \<Rightarrow> True
      | Some vs \<Rightarrow> (case run_insert lib db vs of Inl e \<Rightarrow> True | Inr db' \<Rightarrow> False))"

text \<open>
  An empty store with the current schema, stand-ins for the surroundings of the import,
  a legacy item, and two legacy items whose ids are the number 5 and the text \<open>5.0\<close>:
  the \<open>TEXT\<close> column \<open>id\<close> stores the same text for both.
\<close>

definition empty_store :: table where
  "empty_store =
     \<lparr>columns = base_columns @ map (\<lambda>(c, notnull, v). (c, notnull)) new_columns, rows = []\<rparr>"

definition sample_import_env :: import_env where
  "sample_import_env =
     \<lparr>randomUUID = (\<lambda>i. js ''00000000-0000-4000-8000-000000000000''),
      nowISO = (\<lambda>i. js ''2026-03-01T10:00:00.000Z''),
      stringToNumber = (\<lambda>s. None),
      json_stringify = (\<lambda>p. js ''{}'')\<rparr>"

definition legacy_item :: jsval where
  "legacy_item = JObj
     [(js ''id'', JStr (js ''reg_7'')),
      (js ''fullName'', JStr (js ''Kovacs Anna'')),
      (js ''currentGrade'', JStr (js ''4th dan'')),
      (js ''wantsExam'', JBool True),
      (js ''targetGrade'', JStr (js ''5th dan''))]"

definition number_id_item :: jsval where
  "number_id_item = JObj [(js ''id'', JNum 5)]"

definition text_id_item :: jsval where
  "text_id_item = JObj [(js ''id'', JStr (js ''5.0''))]"

section \<open>Properties of the pricing engine\<close>

lemma toEnumValue_JStr:
  "toEnumValue rt (JStr a) t f = Some (if hasOwnProperty t (trim a) then trim a else f)"
  by (simp add: toEnumValue_def js_or_def)

lemma hasOwnProperty_map_of:
  "hasOwnProperty t c \<Longrightarrow> \<exists>l a. map_of t c = Some (l, a)"
  unfolding hasOwnProperty_def
  by (induction t) auto

lemma fallback_campType: "hasOwnProperty PRICE_OPTIONS_campType (js ''iaido'')"
  by (simp add: hasOwnProperty_def PRICE_OPTIONS_campType_def)

lemma fallback_mealPlan: "hasOwnProperty PRICE_OPTIONS_mealPlan (js ''none'')"
  by (simp add: hasOwnProperty_def PRICE_OPTIONS_mealPlan_def)

lemma fallback_accommodation: "hasOwnProperty PRICE_OPTIONS_accommodation (js ''none'')"
  by (simp add: hasOwnProperty_def PRICE_OPTIONS_accommodation_def)

lemma toEnumValue_allowed:
  "hasOwnProperty t f \<Longrightarrow> toEnumValue rt v t f = Some c \<Longrightarrow> hasOwnProperty t c"
  by (auto simp: toEnumValue_def Let_def split: option.splits if_splits)

text \<open>
  C4. For every triple of option strings \<open>x\<close>, \<open>y\<close>, \<open>z\<close> the pricing function returns
  a breakdown (it does not raise): each code is the trimmed input when the catalogue has
  it and the default of its category otherwise (\<open>iaido\<close>, \<open>none\<close>, \<open>none\<close>); the three
  line items carry the catalogue entries of the resolved codes; the total is the sum of
  the three amounts. The result is the same under every runtime \<open>rt'\<close>: nothing but the
  three strings decides it.
\<close>

theorem calculatePricing_total:
  "\<exists>p l1 a1 l2 a2 l3 a3.
     calculatePricing rt \<lparr>sel_campType = JStr x, sel_mealPlan = JStr y, sel_accommodation = JStr z\<rparr> = Some p
     \<and> calculatePricing rt' \<lparr>sel_campType = JStr x, sel_mealPlan = JStr y, sel_accommodation = JStr z\<rparr> = Some p
     \<and> p_campType p = (if hasOwnProperty PRICE_OPTIONS_campType (trim x) then trim x else js ''iaido'')
     \<and> p_mealPlan p = (if hasOwnProperty PRICE_OPTIONS_mealPlan (trim y) then trim y else js ''none'')
     \<and> p_accommodation p =
         (if hasOwnProperty PRICE_OPTIONS_accommodation (trim z) then trim z else js ''none'')
     \<and> map li_key (lineItems p) = [js ''campType'', js ''mealPlan'', js ''accommodation'']
     \<and> map li_code (lineItems p) = [p_campType p, p_mealPlan p, p_accommodation p]
     \<and> map li_entry (lineItems p) = [Some (l1, a1), Some (l2, a2), Some (l3, a3)]
     \<and> map_of PRICE_OPTIONS_campType (p_campType p) = Some (l1, a1)
     \<and> map_of PRICE_OPTIONS_mealPlan (p_mealPlan p) = Some (l2, a2)
     \<and> map_of PRICE_OPTIONS_accommodation (p_accommodation p) = Some (l3, a3)
     \<and> totalHuf p = Some (a1 + a2 + a3)"
proof -
  define c where
    "c = (if hasOwnProperty PRICE_OPTIONS_campType (trim x) then trim x else js ''iaido'')"
  define m where
    "m = (if hasOwnProperty PRICE_OPTIONS_mealPlan (trim y) then trim y else js ''none'')"
  define a where
    "a = (if hasOwnProperty PRICE_OPTIONS_accommodation (trim z) then trim z else js ''none'')"
  have "hasOwnProperty PRICE_OPTIONS_campType c"
    using fallback_campType by (simp add: c_def)
  then obtain l1 a1 where e1: "map_of PRICE_OPTIONS_campType c = Some (l1, a1)"
    using hasOwnProperty_map_of by blast
  have "hasOwnProperty PRICE_OPTIONS_mealPlan m"
    using fallback_mealPlan by (simp add: m_def)
  then obtain l2 a2 where e2: "map_of PRICE_OPTIONS_mealPlan m = Some (l2, a2)"
    using hasOwnProperty_map_of by blast
  have "hasOwnProperty PRICE_OPTIONS_accommodation a"
    using fallback_accommodation by (simp add: a_def)
  then obtain l3 a3 where e3: "map_of PRICE_OPTIONS_accommodation a = Some (l3, a3)"
    using hasOwnProperty_map_of by blast
  show ?thesis
    using e1 e2 e3
    by (simp add: calculatePricing_def toEnumValue_JStr mk_line_item_def add_amount_def
        c_def [symmetric] m_def [symmetric] a_def [symmetric])
qed

section \<open>Properties of the validation layer\<close>

lemma js_eq_iff [simp]: "js a = js b \<longleftrightarrow> a = b"
proof -
  have "inj js" unfolding js_def by (simp add: inj_on_def)
  then show ?thesis by (simp add: inj_eq)
qed

lemma rev_dropWhile_rev_prefix:
  "t = rev (dropWhile P (rev t)) @ rev (takeWhile P (rev t))"
  by (metis rev_append rev_rev_ident takeWhile_dropWhile_id)

lemma trim_hd: "trim s \<noteq> [] \<Longrightarrow> \<not> js_space (hd (trim s))"
proof -
  assume ne: "trim s \<noteq> []"
  define t where "t = dropWhile js_space s"
  have eq: "t = trim s @ rev (takeWhile js_space (rev t))"
    unfolding trim_def t_def by (rule rev_dropWhile_rev_prefix)
  then have "hd (trim s) = hd t" using ne by (metis hd_append2)
  moreover have "t \<noteq> []" using eq ne by auto
  then have "\<not> js_space (hd t)" unfolding t_def by (rule hd_dropWhile)
  ultimately show ?thesis by simp
qed

lemma trim_last: "trim s \<noteq> [] \<Longrightarrow> \<not> js_space (last (trim s))"
proof -
  assume ne: "trim s \<noteq> []"
  define u where "u = dropWhile js_space (rev (dropWhile js_space s))"
  have "trim s = rev u" by (simp add: trim_def u_def)
  then have "u \<noteq> []" and "last (trim s) = hd u" using ne by (auto simp: last_rev)
  moreover have "\<not> js_space (hd u)" using \<open>u \<noteq> []\<close> unfolding u_def by (rule hd_dropWhile)
  ultimately show ?thesis by simp
qed

lemma trim_fixed:
  "s \<noteq> [] \<Longrightarrow> \<not> js_space (hd s) \<Longrightarrow> \<not> js_space (last s) \<Longrightarrow> trim s = s"
proof -
  assume a: "s \<noteq> []" "\<not> js_space (hd s)" "\<not> js_space (last s)"
  have 1: "dropWhile js_space s = s" using a by (cases s) auto
  have "rev s \<noteq> []" "\<not> js_space (hd (rev s))" using a by (auto simp: hd_rev)
  then have 2: "dropWhile js_space (rev s) = rev s" by (cases "rev s") auto
  show ?thesis by (simp add: trim_def 1 2)
qed

lemma trim_idem: "trim (trim s) = trim s"
proof (cases "trim s = []")
  case True
  have "trim [] = []" by (simp add: trim_def)
  with True show ?thesis by simp
next
  case False
  then show ?thesis using trim_hd trim_last trim_fixed by blast
qed

lemma isNonEmptyString_trim: "isNonEmptyString (trim s) \<longleftrightarrow> trim s \<noteq> []"
  by (simp add: isNonEmptyString_def trim_idem)

lemma validate_rule_exam_iaido_camp:
  "js ''Iaido exam can only be selected with Iaido or Iaido + Jodo participation.'' \<in> set (validateRegistration d)
   \<longleftrightarrow> wantsExamIaido d \<and> campType d = js ''jodo''"
  by (simp add: validateRegistration_def push_if_def Let_def)


lemma sanitize_enum:
  assumes "sanitizePayload rt p = Some d"
  shows "\<exists>v. toEnumValue rt v PRICE_OPTIONS_campType (js ''iaido'') = Some (campType d)"
    and "\<exists>v. toEnumValue rt v PRICE_OPTIONS_mealPlan (js ''none'') = Some (mealPlan d)"
    and "\<exists>v. toEnumValue rt v PRICE_OPTIONS_accommodation (js ''none'') = Some (accommodation d)"
  using assms
  by (auto simp: sanitizePayload_def Let_def bind_eq_Some_conv)


lemma hasOwn_campType: "hasOwnProperty PRICE_OPTIONS_campType c \<longleftrightarrow> c \<in> set [js ''iaido'', js ''jodo'', js ''both'']"
  by (auto simp: hasOwnProperty_def PRICE_OPTIONS_campType_def)

lemma hasOwn_mealPlan: "hasOwnProperty PRICE_OPTIONS_mealPlan c \<longleftrightarrow> c \<in> set [js ''none'', js ''lunch'', js ''full'']"
  by (auto simp: hasOwnProperty_def PRICE_OPTIONS_mealPlan_def)

lemma hasOwn_accommodation: "hasOwnProperty PRICE_OPTIONS_accommodation c \<longleftrightarrow> c \<in> set [js ''none'', js ''dojo'', js ''guesthouse'']"
  by (auto simp: hasOwnProperty_def PRICE_OPTIONS_accommodation_def)

lemma validate_invalid_msgs:
  "js ''Invalid seminar selection.'' \<in> set (validateRegistration d) \<longleftrightarrow> \<not> hasOwnProperty PRICE_OPTIONS_campType (campType d)"
  "js ''Invalid meal option.'' \<in> set (validateRegistration d) \<longleftrightarrow> \<not> hasOwnProperty PRICE_OPTIONS_mealPlan (mealPlan d)"
  "js ''Invalid accommodation option.'' \<in> set (validateRegistration d) \<longleftrightarrow> \<not> hasOwnProperty PRICE_OPTIONS_accommodation (accommodation d)"
  by (simp_all add: validateRegistration_def push_if_def Let_def)

text \<open>
  C10. Whatever the raw payload, when the sanitizer returns (it raises only a
  \<open>TypeError\<close>, on a \<open>null\<close> payload or on a value that \<open>String\<close> cannot
  convert), the camp type, meal plan and accommodation of its output are codes of the
  catalogue, so the validator never reports \<open>Invalid seminar selection.\<close>,
  \<open>Invalid meal option.\<close> or \<open>Invalid accommodation option.\<close> on it.
\<close>

theorem sanitizePayload_enum_valid:
  assumes "sanitizePayload rt p = Some d"
  shows "campType d \<in> set [js ''iaido'', js ''jodo'', js ''both'']
       \<and> mealPlan d \<in> set [js ''none'', js ''lunch'', js ''full'']
       \<and> accommodation d \<in> set [js ''none'', js ''dojo'', js ''guesthouse'']
       \<and> js ''Invalid seminar selection.'' \<notin> set (validateRegistration d)
       \<and> js ''Invalid meal option.'' \<notin> set (validateRegistration d)
       \<and> js ''Invalid accommodation option.'' \<notin> set (validateRegistration d)"
proof -
  have c: "hasOwnProperty PRICE_OPTIONS_campType (campType d)"
    using sanitize_enum(1) [OF assms] toEnumValue_allowed [OF fallback_campType] by blast
  have m: "hasOwnProperty PRICE_OPTIONS_mealPlan (mealPlan d)"
    using sanitize_enum(2) [OF assms] toEnumValue_allowed [OF fallback_mealPlan] by blast
  have a: "hasOwnProperty PRICE_OPTIONS_accommodation (accommodation d)"
    using sanitize_enum(3) [OF assms] toEnumValue_allowed [OF fallback_accommodation] by blast
  show ?thesis
    using c m a validate_invalid_msgs [of d]
    unfolding hasOwn_campType hasOwn_mealPlan hasOwn_accommodation by simp
qed

theorem sanitizePayload_enum_valid_witness:
  "sanitizePayload \<lparr>numToString = (\<lambda>r. []), toLowerCase = (\<lambda>s. s)\<rparr>
      (JObj [(js ''campType'', JStr (js ''karate'')), (js ''mealPlan'', JStr (js '' full '')),
             (js ''accommodation'', JNum 3)])
    = Some \<lparr>fullName = [], email = [], phone = [], dateOfBirth = [], city = [],
         currentGradeIaido = [], currentGradeJodo = [], campType = js ''iaido'',
         mealPlan = js ''full'', accommodation = js ''none'', wantsExamIaido = False,
         targetGradeIaido = [], wantsExamJodo = False, targetGradeJodo = [],
         billingFullName = [], billingZip = [], billingCity = [], billingAddress = [],
         billingCountry = js ''Hungary'', foodNotes = [], privacyConsent = False,
         termsConsent = False\<rparr>
   \<and> js ''Invalid seminar selection.'' \<notin> set (validateRegistration
        \<lparr>fullName = [], email = [], phone = [], dateOfBirth = [], city = [],
         currentGradeIaido = [], currentGradeJodo = [], campType = js ''iaido'',
         mealPlan = js ''full'', accommodation = js ''none'', wantsExamIaido = False,
         targetGradeIaido = [], wantsExamJodo = False, targetGradeJodo = [],
         billingFullName = [], billingZip = [], billingCity = [], billingAddress = [],
         billingCountry = js ''Hungary'', foodNotes = [], privacyConsent = False,
         termsConsent = False\<rparr>)"
proof -
  have h: "sanitizePayload \<lparr>numToString = (\<lambda>r. []), toLowerCase = (\<lambda>s. s)\<rparr>
      (JObj [(js ''campType'', JStr (js ''karate'')), (js ''mealPlan'', JStr (js '' full '')),
             (js ''accommodation'', JNum 3)])
    = Some \<lparr>fullName = [], email = [], phone = [], dateOfBirth = [], city = [],
         currentGradeIaido = [], currentGradeJodo = [], campType = js ''iaido'',
         mealPlan = js ''full'', accommodation = js ''none'', wantsExamIaido = False,
         targetGradeIaido = [], wantsExamJodo = False, targetGradeJodo = [],
         billingFullName = [], billingZip = [], billingCity = [], billingAddress = [],
         billingCountry = js ''Hungary'', foodNotes = [], privacyConsent = False,
         termsConsent = False\<rparr>"
    by (simp add: sanitizePayload_def toEnumValue_def str_or_trim_def str_trim_def js_or_def
        js_coalesce_def trim_def js_space_def hasOwnProperty_def PRICE_OPTIONS_campType_def
        PRICE_OPTIONS_mealPlan_def PRICE_OPTIONS_accommodation_def js_def)
  show ?thesis
    using h sanitizePayload_enum_valid [OF h] by blast
qed

lemma str_or_trim_trimmed: "str_or_trim rt v d = Some x \<Longrightarrow> trim x = x"
  by (auto simp: str_or_trim_def trim_idem)

lemma str_trim_trimmed: "str_trim rt v = Some x \<Longrightarrow> trim x = x"
  by (auto simp: str_trim_def trim_idem)

lemma trim_Nil: "trim [] = []"
  by (simp add: trim_def)

lemma if_trimmed:
  "(if b then str_trim rt v else Some []) = Some x \<Longrightarrow> trim x = x"
  "(if b then str_or_trim rt v d else Some []) = Some x \<Longrightarrow> trim x = x"
  by (auto simp: trim_Nil dest: str_or_trim_trimmed str_trim_trimmed split: if_splits)

lemma sanitize_trimmed:
  assumes "sanitizePayload rt p = Some d"
  shows "trim (currentGradeIaido d) = currentGradeIaido d
       \<and> trim (currentGradeJodo d) = currentGradeJodo d
       \<and> trim (targetGradeIaido d) = targetGradeIaido d
       \<and> trim (targetGradeJodo d) = targetGradeJodo d"
  using assms unfolding sanitizePayload_def Let_def bind_eq_Some_conv
  apply (elim exE conjE)
  apply (drule sym [of "Some _" "Some d"])
  apply (simp only: option.inject)
  apply (simp add: str_or_trim_trimmed str_trim_trimmed if_trimmed)
  done

lemma isNonEmptyString_trimmed: "trim s = s \<Longrightarrow> isNonEmptyString s \<longleftrightarrow> s \<noteq> []"
  by (simp add: isNonEmptyString_def)

lemma validate_grade_exam_msgs:
  "js ''Iaido exam can only be selected with Iaido or Iaido + Jodo participation.''
     \<in> set (validateRegistration d) \<longleftrightarrow> wantsExamIaido d \<and> campType d = js ''jodo''"
  "js ''Jodo exam can only be selected with Jodo or Iaido + Jodo participation.''
     \<in> set (validateRegistration d) \<longleftrightarrow> wantsExamJodo d \<and> campType d = js ''iaido''"
  "js ''Iaido target grade is required if Iaido exam is selected.''
     \<in> set (validateRegistration d) \<longleftrightarrow>
     wantsExamIaido d \<and> \<not> isNonEmptyString (targetGradeIaido d)"
  "js ''Jodo target grade is required if Jodo exam is selected.''
     \<in> set (validateRegistration d) \<longleftrightarrow>
     wantsExamJodo d \<and> \<not> isNonEmptyString (targetGradeJodo d)"
  "js ''Current Iaido grade is required for the selected option.''
     \<in> set (validateRegistration d) \<longleftrightarrow>
     (campType d = js ''iaido'' \<or> campType d = js ''both'' \<or> wantsExamIaido d)
     \<and> \<not> isNonEmptyString (currentGradeIaido d)"
  "js ''Current Jodo grade is required for the selected option.''
     \<in> set (validateRegistration d) \<longleftrightarrow>
     (campType d = js ''jodo'' \<or> campType d = js ''both'' \<or> wantsExamJodo d)
     \<and> \<not> isNonEmptyString (currentGradeJodo d)"
  by (simp_all add: validateRegistration_def push_if_def Let_def)

lemma sample_sanitize: "sanitizePayload sample_runtime sample_payload = Some sample_sanitized"
  by (simp add: sample_runtime_def sample_payload_def sample_sanitized_def
      sanitizePayload_def toEnumValue_def str_or_trim_def str_trim_def js_or_def
      js_coalesce_def trim_def js_space_def hasOwnProperty_def PRICE_OPTIONS_campType_def
      PRICE_OPTIONS_mealPlan_def PRICE_OPTIONS_accommodation_def js_def)

lemma sample_valid: "validateRegistration sample_sanitized = []"
  by (simp add: sample_sanitized_def validateRegistration_def push_if_def
      isNonEmptyString_def isValidEmail_def isValidPhone_def isFourDigits_def email_unit_def
      phone_unit_def trim_def js_space_def hasOwnProperty_def PRICE_OPTIONS_campType_def
      PRICE_OPTIONS_mealPlan_def PRICE_OPTIONS_accommodation_def js_def)

text \<open>
  C6. On every output \<open>d\<close> of the sanitizer the validator enforces the cross-field
  grade and exam rules, each with a message of its own that is in the error list exactly
  when the rule is violated, whatever else is wrong with the registration: an exam in a
  discipline that the camp type excludes (Iaido exam with camp type \<open>jodo\<close>, Jodo exam
  with camp type \<open>iaido\<close>), an exam without a target grade in that discipline, and a
  discipline in which the registrant takes part (its camp type, \<open>both\<close>, or its exam)
  without a current grade. The error list is empty only when all six rules hold.
\<close>

theorem validateRegistration_grade_exam_rules:
  assumes "sanitizePayload rt p = Some d"
  shows
    "(js ''Iaido exam can only be selected with Iaido or Iaido + Jodo participation.''
        \<in> set (validateRegistration d) \<longleftrightarrow> wantsExamIaido d \<and> campType d = js ''jodo'')
   \<and> (js ''Jodo exam can only be selected with Jodo or Iaido + Jodo participation.''
        \<in> set (validateRegistration d) \<longleftrightarrow> wantsExamJodo d \<and> campType d = js ''iaido'')
   \<and> (js ''Iaido target grade is required if Iaido exam is selected.''
        \<in> set (validateRegistration d) \<longleftrightarrow> wantsExamIaido d \<and> targetGradeIaido d = [])
   \<and> (js ''Jodo target grade is required if Jodo exam is selected.''
        \<in> set (validateRegistration d) \<longleftrightarrow> wantsExamJodo d \<and> targetGradeJodo d = [])
   \<and> (js ''Current Iaido grade is required for the selected option.''
        \<in> set (validateRegistration d) \<longleftrightarrow>
        (campType d = js ''iaido'' \<or> campType d = js ''both'' \<or> wantsExamIaido d)
        \<and> currentGradeIaido d = [])
   \<and> (js ''Current Jodo grade is required for the selected option.''
        \<in> set (validateRegistration d) \<longleftrightarrow>
        (campType d = js ''jodo'' \<or> campType d = js ''both'' \<or> wantsExamJodo d)
        \<and> currentGradeJodo d = [])
   \<and> (validateRegistration d = [] \<longrightarrow>
        \<not> (wantsExamIaido d \<and> campType d = js ''jodo'')
      \<and> \<not> (wantsExamJodo d \<and> campType d = js ''iaido'')
      \<and> \<not> (wantsExamIaido d \<and> targetGradeIaido d = [])
      \<and> \<not> (wantsExamJodo d \<and> targetGradeJodo d = [])
      \<and> \<not> ((campType d = js ''iaido'' \<or> campType d = js ''both'' \<or> wantsExamIaido d)
             \<and> currentGradeIaido d = [])
      \<and> \<not> ((campType d = js ''jodo'' \<or> campType d = js ''both'' \<or> wantsExamJodo d)
             \<and> currentGradeJodo d = []))"
proof -
  have t: "trim (currentGradeIaido d) = currentGradeIaido d"
    "trim (currentGradeJodo d) = currentGradeJodo d"
    "trim (targetGradeIaido d) = targetGradeIaido d"
    "trim (targetGradeJodo d) = targetGradeJodo d"
    using sanitize_trimmed [OF assms] by simp_all
  note ne = isNonEmptyString_trimmed [OF t(1)] isNonEmptyString_trimmed [OF t(2)]
    isNonEmptyString_trimmed [OF t(3)] isNonEmptyString_trimmed [OF t(4)]
  note r = validate_grade_exam_msgs [of d, unfolded ne]
  have z: "x \<notin> set (validateRegistration d)" if "validateRegistration d = []" for x
    using that by simp
  have n: "\<not> (wantsExamIaido d \<and> campType d = js ''jodo'')
      \<and> \<not> (wantsExamJodo d \<and> campType d = js ''iaido'')
      \<and> \<not> (wantsExamIaido d \<and> targetGradeIaido d = [])
      \<and> \<not> (wantsExamJodo d \<and> targetGradeJodo d = [])
      \<and> \<not> ((campType d = js ''iaido'' \<or> campType d = js ''both'' \<or> wantsExamIaido d)
             \<and> currentGradeIaido d = [])
      \<and> \<not> ((campType d = js ''jodo'' \<or> campType d = js ''both'' \<or> wantsExamJodo d)
             \<and> currentGradeJodo d = [])"
    if e: "validateRegistration d = []"
    using r z [OF e] by blast
  show ?thesis
    using r n by (intro conjI impI) simp_all
qed

theorem validateRegistration_grade_exam_rules_witness:
  "sanitizePayload sample_runtime sample_payload = Some sample_sanitized
   \<and> validateRegistration sample_sanitized = []
   \<and> \<not> (wantsExamIaido sample_sanitized \<and> targetGradeIaido sample_sanitized = [])
   \<and> js ''Iaido target grade is required if Iaido exam is selected.''
        \<notin> set (validateRegistration sample_sanitized)"
  using sample_sanitize sample_valid
    validateRegistration_grade_exam_rules [OF sample_sanitize]
  by blast

section \<open>Properties of the contention-retry wrapper\<close>

declare retry_loop.simps [simp del]

lemma starts_with_ci_iff:
  "starts_with_ci pat s \<longleftrightarrow> (\<exists>mid post. s = mid @ post \<and> map canonicalize mid = map canonicalize pat)"
proof (induction pat s rule: starts_with_ci.induct)
  case (1 s)
  then show ?case by simp
next
  case (2 p ps)
  then show ?case by auto
next
  case (3 p ps c cs)
  show ?case
  proof
    assume "starts_with_ci (p # ps) (c # cs)"
    then obtain mid post where "cs = mid @ post" "map canonicalize mid = map canonicalize ps"
      and "canonicalize p = canonicalize c"
      using 3 by auto
    then have "c # cs = (c # mid) @ post \<and> map canonicalize (c # mid) = map canonicalize (p # ps)"
      by simp
    then show "\<exists>mid post. c # cs = mid @ post \<and> map canonicalize mid = map canonicalize (p # ps)"
      by blast
  next
    assume "\<exists>mid post. c # cs = mid @ post \<and> map canonicalize mid = map canonicalize (p # ps)"
    then obtain mid post where m: "c # cs = mid @ post" "map canonicalize mid = map canonicalize (p # ps)"
      by blast
    then obtain m' where "mid = c # m'" by (cases mid) auto
    with m show "starts_with_ci (p # ps) (c # cs)" using 3 by auto
  qed
qed

lemma regex_test_ci_iff:
  "regex_test_ci pat s \<longleftrightarrow>
     (\<exists>pre mid post. s = pre @ mid @ post \<and> map canonicalize mid = map canonicalize pat)"
proof (induction s)
  case Nil
  then show ?case by (auto simp: starts_with_ci_iff)
next
  case (Cons c cs)
  show ?case
  proof
    assume "regex_test_ci pat (c # cs)"
    then consider "starts_with_ci pat (c # cs)" | "regex_test_ci pat cs" by auto
    then show "\<exists>pre mid post. c # cs = pre @ mid @ post \<and> map canonicalize mid = map canonicalize pat"
    proof cases
      case 1
      then show ?thesis unfolding starts_with_ci_iff by (metis append_Nil)
    next
      case 2
      then obtain pre mid post where "cs = pre @ mid @ post" "map canonicalize mid = map canonicalize pat"
        using Cons by blast
      then have "c # cs = (c # pre) @ mid @ post" by simp
      then show ?thesis using \<open>map canonicalize mid = map canonicalize pat\<close> by blast
    qed
  next
    assume "\<exists>pre mid post. c # cs = pre @ mid @ post \<and> map canonicalize mid = map canonicalize pat"
    then obtain pre mid post where m: "c # cs = pre @ mid @ post" "map canonicalize mid = map canonicalize pat"
      by blast
    show "regex_test_ci pat (c # cs)"
    proof (cases pre)
      case Nil
      then have "starts_with_ci pat (c # cs)" using m unfolding starts_with_ci_iff by auto
      then show ?thesis by simp
    next
      case (Cons a pre')
      then have "cs = pre' @ mid @ post" using m by simp
      then have "regex_test_ci pat cs" using m(2) Cons.IH by blast
      then show ?thesis by simp
    qed
  qed
qed

lemma state_after_0 [simp]: "state_after operation s 0 = s"
  by (simp add: state_after_def)

lemma state_after_Suc: "state_after operation s (Suc j) = state_after operation (snd (operation s)) j"
  by (induction j) (simp_all add: state_after_def)

lemma retry_loop_last:
  "retry_loop operation 5 s = (fst (operation s), snd (operation s), [])"
  by (simp add: retry_loop.simps [of _ 5] SQLITE_RETRY_MAX_ATTEMPTS_def split: prod.splits sum.splits)

lemma retry_loop_stop:
  "a < 5 \<Longrightarrow> \<not> busy_at operation s 0 \<Longrightarrow>
   retry_loop operation a s = (fst (operation s), snd (operation s), [])"
  by (auto simp: retry_loop.simps [of _ a] busy_at_def SQLITE_RETRY_MAX_ATTEMPTS_def split: prod.splits sum.splits)

lemma retry_loop_again:
  "a < 5 \<Longrightarrow> busy_at operation s 0 \<Longrightarrow>
   retry_loop operation a s =
     (case retry_loop operation (a + 1) (snd (operation s)) of
        (r, s'', delays) \<Rightarrow> (r, s'', 120 * a # delays))"
  by (auto simp: retry_loop.simps [of _ a] busy_at_def SQLITE_RETRY_MAX_ATTEMPTS_def
      SQLITE_RETRY_BASE_DELAY_MS_def split: prod.splits sum.splits)

lemma retry_loop_outcome:
  "a \<le> 5 \<Longrightarrow>
   \<exists>k. a + k \<le> 5 \<and> (\<forall>j<k. busy_at operation s j) \<and> (a + k < 5 \<longrightarrow> \<not> busy_at operation s k)
     \<and> retry_loop operation a s =
         (fst (operation (state_after operation s k)),
          snd (operation (state_after operation s k)),
          map (\<lambda>i. 120 * i) [a..<a + k])"
proof (induction "5 - a" arbitrary: a s)
  case 0
  then have "a = 5" by simp
  then show ?case using retry_loop_last [of operation s] by (intro exI [of _ 0]) simp
next
  case (Suc n)
  then have a: "a < 5" by simp
  show ?case
  proof (cases "busy_at operation s 0")
    case False
    then show ?thesis using retry_loop_stop [OF a False] a by (intro exI [of _ 0]) simp
  next
    case True
    let ?s = "snd (operation s)"
    have "n = 5 - (a + 1)" "a + 1 \<le> 5" using Suc by simp_all
    from Suc(1) [OF this] obtain k where k: "a + 1 + k \<le> 5" "\<forall>j<k. busy_at operation ?s j"
      "a + 1 + k < 5 \<longrightarrow> \<not> busy_at operation ?s k"
      "retry_loop operation (a + 1) ?s =
         (fst (operation (state_after operation ?s k)),
          snd (operation (state_after operation ?s k)),
          map (\<lambda>i. 120 * i) [a + 1..<a + 1 + k])"
      by blast
    have b: "busy_at operation s (Suc j) = busy_at operation ?s j" for j
      by (simp add: busy_at_def state_after_Suc)
    have 1: "\<forall>j<Suc k. busy_at operation s j"
      using True k(2) b by (auto simp: less_Suc_eq_0_disj)
    have 2: "a + Suc k < 5 \<longrightarrow> \<not> busy_at operation s (Suc k)"
      using k(3) b by simp
    have 3: "[a..<a + Suc k] = a # [a + 1..<a + 1 + k]"
      by (simp add: upt_conv_Cons)
    have 4: "retry_loop operation a s =
         (fst (operation (state_after operation s (Suc k))),
          snd (operation (state_after operation s (Suc k))),
          map (\<lambda>i. 120 * i) [a..<a + Suc k])"
      unfolding retry_loop_again [OF a True] k(4) 3 by (simp add: state_after_Suc)
    show ?thesis
      using k(1) 1 2 4 by (intro exI [of _ "Suc k"]) simp
  qed
qed


lemma js_Nil_iff [simp]: "js a = [] \<longleftrightarrow> a = []" "[] = js a \<longleftrightarrow> a = []"
  by (auto simp: js_def)

lemma deciding_attempt_unique:
  assumes "deciding_attempt operation s k" and "deciding_attempt operation s k'"
  shows "k = k'"
proof (rule ccontr)
  assume "k \<noteq> k'"
  then consider "k < k'" | "k' < k" by linarith
  then show False
  proof cases
    case 1
    then have "busy_at operation s k" "k < 4"
      using assms(2) by (simp_all add: deciding_attempt_def SQLITE_RETRY_MAX_ATTEMPTS_def)
    then show False using assms(1) by (simp add: deciding_attempt_def SQLITE_RETRY_MAX_ATTEMPTS_def)
  next
    case 2
    then have "busy_at operation s k'" "k' < 4"
      using assms(1) by (simp_all add: deciding_attempt_def SQLITE_RETRY_MAX_ATTEMPTS_def)
    then show False using assms(2) by (simp add: deciding_attempt_def SQLITE_RETRY_MAX_ATTEMPTS_def)
  qed
qed

lemma busy_twice_deciding: "deciding_attempt busy_twice 0 2"
  by (simp add: deciding_attempt_def SQLITE_RETRY_MAX_ATTEMPTS_def busy_at_def state_after_def busy_twice_def
      isSqliteBusyError_def js_def canonicalize_def less_Suc_eq eval_nat_numeral)

text \<open>
  C2, as the code has it. The classifier calls an error retryable exactly when its code
  is \<open>SQLITE_BUSY\<close> or \<open>SQLITE_LOCKED\<close> or its message contains, in any letter case,
  \<open>database is locked\<close> or \<open>database is busy\<close>. Every run has one deciding attempt:
  attempt \<open>k + 1\<close>, where the \<open>k < 5\<close> attempts before it threw retryable errors and
  it is the fifth or throws none. The wrapper has then slept \<open>120 * 1, \<dots>, 120 * k\<close>
  milliseconds, one delay after each failed attempt, and its outcome is the outcome of
  the deciding attempt, with no delay after it: a result, an error that is not
  retryable (for \<open>k = 0\<close> at once, with no delay and no second attempt), or, on the
  fifth attempt, the retryable error itself.
\<close>

theorem runWithSqliteRetry_policy:
  "(isSqliteBusyError error \<longleftrightarrow>
      err_code error = Some (js ''SQLITE_BUSY'') \<or>
      err_code error = Some (js ''SQLITE_LOCKED'') \<or>
      (\<exists>pre mid post. err_message error = pre @ mid @ post
         \<and> map canonicalize mid = map canonicalize (js ''database is locked'')) \<or>
      (\<exists>pre mid post. err_message error = pre @ mid @ post
         \<and> map canonicalize mid = map canonicalize (js ''database is busy'')))
   \<and> (\<exists>k. deciding_attempt operation s k)
   \<and> (\<forall>k. deciding_attempt operation s k \<longrightarrow>
         runWithSqliteRetry operation s =
           (fst (operation (state_after operation s k)),
            snd (operation (state_after operation s k)),
            map (\<lambda>i. SQLITE_RETRY_BASE_DELAY_MS * i) [1..<Suc k]))"
proof -
  have "(1::nat) \<le> 5" by simp
  from retry_loop_outcome [OF this, of operation s]
  obtain k where k: "1 + k \<le> 5 \<and> (\<forall>j<k. busy_at operation s j)
     \<and> (1 + k < 5 \<longrightarrow> \<not> busy_at operation s k)
     \<and> retry_loop operation 1 s =
         (fst (operation (state_after operation s k)),
          snd (operation (state_after operation s k)),
          map (\<lambda>i. 120 * i) [1..<1 + k])" ..
  then have d: "deciding_attempt operation s k"
    by (simp add: deciding_attempt_def SQLITE_RETRY_MAX_ATTEMPTS_def)
  have r: "runWithSqliteRetry operation s =
           (fst (operation (state_after operation s k)),
            snd (operation (state_after operation s k)),
            map (\<lambda>i. SQLITE_RETRY_BASE_DELAY_MS * i) [1..<Suc k])"
    using k by (simp add: runWithSqliteRetry_def SQLITE_RETRY_BASE_DELAY_MS_def)
  show ?thesis
  proof (intro conjI allI impI)
    show "isSqliteBusyError error \<longleftrightarrow>
      err_code error = Some (js ''SQLITE_BUSY'') \<or>
      err_code error = Some (js ''SQLITE_LOCKED'') \<or>
      (\<exists>pre mid post. err_message error = pre @ mid @ post
         \<and> map canonicalize mid = map canonicalize (js ''database is locked'')) \<or>
      (\<exists>pre mid post. err_message error = pre @ mid @ post
         \<and> map canonicalize mid = map canonicalize (js ''database is busy''))"
      by (cases "err_code error") (simp_all add: isSqliteBusyError_def Let_def regex_test_ci_iff)
    show "\<exists>k. deciding_attempt operation s k"
      using d ..
    fix k'
    assume "deciding_attempt operation s k'"
    then have "k' = k" using d by (rule deciding_attempt_unique)
    then show "runWithSqliteRetry operation s =
           (fst (operation (state_after operation s k')),
            snd (operation (state_after operation s k')),
            map (\<lambda>i. SQLITE_RETRY_BASE_DELAY_MS * i) [1..<Suc k'])"
      using r by simp
  qed
qed

theorem runWithSqliteRetry_policy_witness:
  "deciding_attempt busy_twice 0 2
   \<and> runWithSqliteRetry busy_twice 0 = (Inr 2, 3, [120, 240])"
proof -
  have "runWithSqliteRetry busy_twice 0 =
           (fst (busy_twice (state_after busy_twice 0 2)),
            snd (busy_twice (state_after busy_twice 0 2)),
            map (\<lambda>i. SQLITE_RETRY_BASE_DELAY_MS * i) [1..<Suc 2])"
    using runWithSqliteRetry_policy [of undefined busy_twice 0] busy_twice_deciding by blast
  then show ?thesis
    using busy_twice_deciding
    by (simp add: state_after_def busy_twice_def SQLITE_RETRY_BASE_DELAY_MS_def eval_nat_numeral upt_rec)
qed

text \<open>
  C2 as stated fails where it says that a \<open>retry exhausted\<close> failure is raised once the
  maximum is exceeded: an operation that finds the database locked on all five attempts
  leaves the wrapper with that lock error, after delays of 120, 240, 360 and 480
  milliseconds.
\<close>

theorem runWithSqliteRetry_exhausted_counterexample:
  "runWithSqliteRetry always_locked 0 = (Inl locked_error, 5, [120, 240, 360, 480])
   \<and> isSqliteBusyError locked_error
   \<and> locked_error \<noteq> retry_exhausted"
  by (simp add: runWithSqliteRetry_def retry_loop.simps always_locked_def
      SQLITE_RETRY_MAX_ATTEMPTS_def SQLITE_RETRY_BASE_DELAY_MS_def isSqliteBusyError_def
      locked_error_def retry_exhausted_def js_def canonicalize_def)

section \<open>Properties of the registration store\<close>

lemma sql_update_rows:
  "sql_update refs cond assign t = Inr (n, t') \<Longrightarrow>
   rows t' = map (\<lambda>r. if cond r then assign r else r) (rows t) \<and> columns t' = columns t
   \<and> n = length (filter cond (rows t))"
  by (auto simp: sql_update_def split: if_splits)

lemma run_insert_rows:
  "run_insert lib t vs = Inr t' \<Longrightarrow> \<exists>r. rows t' = rows t @ [r] \<and> columns t' = columns t"
  by (auto simp: run_insert_def Let_def split: if_splits)

lemma insertRegistration_rows:
  "insertRegistration lib stringify db reg = Inr db' \<Longrightarrow>
   \<exists>r. rows db' = rows db @ [r] \<and> columns db' = columns db"
  unfolding insertRegistration_def Let_def
  by (auto split: if_splits dest: run_insert_rows)

lemma apply_op_length: "length (rows db) \<le> length (rows (apply_op lib stringify db op))"
proof (cases op)
  case (Register reg)
  then show ?thesis
    by (auto split: sum.splits dest: insertRegistration_rows)
next
  case (MarkDeleted rid)
  then show ?thesis
    by (auto simp: updateRegistrationStatus_def split: sum.splits dest: sql_update_rows)
next
  case (Anonymize rid)
  then show ?thesis
    by (auto simp: anonymizeRegistration_def Let_def split: sum.splits dest: sql_update_rows)
qed

lemma apply_op_row:
  assumes "i < length (rows db)"
  shows "col (rows (apply_op lib stringify db op) ! i) ''id'' = col (rows db ! i) ''id''
       \<and> col (rows (apply_op lib stringify db op) ! i) ''created_at'' = col (rows db ! i) ''created_at''
       \<and> (status_at (apply_op lib stringify db op) i = status_at db i
          \<or> status_at (apply_op lib stringify db op) i = SText (js ''DELETED'')
          \<or> status_at (apply_op lib stringify db op) i = SText (js ''ANONYMIZED''))"
proof (cases op)
  case (Register reg)
  then show ?thesis using assms
    by (auto simp: status_at_def nth_append split: sum.splits dest!: insertRegistration_rows)
next
  case (MarkDeleted rid)
  then show ?thesis using assms
    by (auto simp: status_at_def updateRegistrationStatus_def col_def split: sum.splits dest!: sql_update_rows)
next
  case (Anonymize rid)
  then show ?thesis using assms
    by (auto simp: status_at_def anonymizeRegistration_def Let_def col_def split: sum.splits dest!: sql_update_rows)
qed


lemma apply_ops_row:
  assumes "i < length (rows db)"
    and "status_at db i = SText (js ''DELETED'') \<or> status_at db i = SText (js ''ANONYMIZED'')"
  shows "i < length (rows (apply_ops lib stringify db ops))
       \<and> col (rows (apply_ops lib stringify db ops) ! i) ''id'' = col (rows db ! i) ''id''
       \<and> col (rows (apply_ops lib stringify db ops) ! i) ''created_at'' = col (rows db ! i) ''created_at''
       \<and> (status_at (apply_ops lib stringify db ops) i = SText (js ''DELETED'')
          \<or> status_at (apply_ops lib stringify db ops) i = SText (js ''ANONYMIZED''))"
  using assms
proof (induction ops arbitrary: db)
  case Nil
  then show ?case by (simp add: apply_ops_def)
next
  case (Cons op ops)
  let ?db = "apply_op lib stringify db op"
  have 1: "i < length (rows ?db)"
    using Cons.prems(1) apply_op_length [of db lib stringify op] by simp
  have 2: "status_at ?db i = SText (js ''DELETED'') \<or> status_at ?db i = SText (js ''ANONYMIZED'')"
    using apply_op_row [OF Cons.prems(1), of lib stringify op] Cons.prems(2) by auto
  have 3: "apply_ops lib stringify db (op # ops) = apply_ops lib stringify ?db ops"
    by (simp add: apply_ops_def)
  show ?case
    using Cons.IH [OF 1 2] apply_op_row [OF Cons.prems(1), of lib stringify op] unfolding 3 by simp
qed

lemma apply_ops_identity:
  assumes "i < length (rows db)"
  shows "i < length (rows (apply_ops lib stringify db ops))
       \<and> col (rows (apply_ops lib stringify db ops) ! i) ''id'' = col (rows db ! i) ''id''
       \<and> col (rows (apply_ops lib stringify db ops) ! i) ''created_at'' = col (rows db ! i) ''created_at''"
  using assms
proof (induction ops arbitrary: db)
  case Nil
  then show ?case by (simp add: apply_ops_def)
next
  case (Cons op ops)
  let ?db = "apply_op lib stringify db op"
  have 1: "i < length (rows ?db)"
    using Cons.prems(1) apply_op_length [of db lib stringify op] by simp
  have 3: "apply_ops lib stringify db (op # ops) = apply_ops lib stringify ?db ops"
    by (simp add: apply_ops_def)
  show ?case
    using Cons.IH [OF 1] apply_op_row [OF Cons.prems(1), of lib stringify op] unfolding 3 by simp
qed

lemma status_step_anonymize:
  "i < length (rows db) \<Longrightarrow> status_at db i = SText (js ''ANONYMIZED'') \<Longrightarrow>
   status_at (apply_op lib stringify db (Anonymize rid)) i = SText (js ''ANONYMIZED'')"
  by (auto simp: status_at_def anonymizeRegistration_def Let_def col_def
      split: sum.splits dest!: sql_update_rows)

lemma status_step_mark_deleted:
  "i < length (rows db) \<Longrightarrow> status_at db i = SText (js ''DELETED'') \<Longrightarrow>
   status_at (apply_op lib stringify db (MarkDeleted rid)) i = SText (js ''DELETED'')"
  by (auto simp: status_at_def updateRegistrationStatus_def col_def
      split: sum.splits dest!: sql_update_rows)

lemma status_step_register:
  "i < length (rows db) \<Longrightarrow>
   status_at (apply_op lib stringify db (Register reg)) i = status_at db i"
  by (auto simp: status_at_def nth_append split: sum.splits dest!: insertRegistration_rows)

lemma status_names_distinct:
  "SText (js ''DELETED'') \<noteq> SText (js ''PAID'')"
  "SText (js ''DELETED'') \<noteq> SText (js ''PENDING_PAYMENT'')"
  "SText (js ''ANONYMIZED'') \<noteq> SText (js ''PAID'')"
  "SText (js ''ANONYMIZED'') \<noteq> SText (js ''PENDING_PAYMENT'')"
  by simp_all

lemma deleted_store_anonymize:
  "anonymizeRegistration deleted_store (js ''reg_1'')
     = Inr (1, \<lparr>columns = base_columns, rows = [anonymized_row]\<rparr>)"
  by (simp add: deleted_store_def deleted_row_def anonymized_row_def base_columns_def
      anonymizeRegistration_def sql_update_def has_column_def col_def js_def)

lemma anonymize_row_cases:
  assumes "anonymizeRegistration db registrationId = Inr (n, db')" and "i < length (rows db)"
  shows "length (rows db') = length (rows db)"
    and "columns db' = columns db"
    and "col (rows db ! i) ''id'' \<noteq> SText registrationId \<Longrightarrow> rows db' ! i = rows db ! i"
    and "col (rows db ! i) ''id'' = SText registrationId \<Longrightarrow>
         rows db' ! i = (rows db ! i)
           (''status'' \<mapsto> SText (js ''ANONYMIZED''),
            ''full_name'' \<mapsto> SText (js ''ANONYMIZED''),
            ''email'' \<mapsto> SText (js ''anonymized-'' @ registrationId @ js ''@example.invalid''),
            ''phone'' \<mapsto> SText [],
            ''date_of_birth'' \<mapsto> SText [],
            ''city'' \<mapsto> SText [],
            ''billing_full_name'' \<mapsto> SText [],
            ''billing_zip'' \<mapsto> SText [],
            ''billing_city'' \<mapsto> SText [],
            ''billing_address'' \<mapsto> SText [],
            ''billing_country'' \<mapsto> SText [],
            ''food_notes'' \<mapsto> SText [])"
  using assms
  by (auto simp: anonymizeRegistration_def Let_def dest!: sql_update_rows)

text \<open>
  C1, as the code has it. A registration whose status is \<open>DELETED\<close> or \<open>ANONYMIZED\<close>
  keeps its place and its id under every sequence of operations of the system
  (registration, mark-deleted, anonymize), and its status stays one of these two: it is
  never \<open>PAID\<close> or \<open>PENDING_PAYMENT\<close> again. Anonymizing leaves an \<open>ANONYMIZED\<close>
  registration \<open>ANONYMIZED\<close>, marking deleted leaves a \<open>DELETED\<close> one \<open>DELETED\<close>, and
  a new registration changes the status of no stored one.
\<close>

theorem terminal_statuses_closed:
  assumes "i < length (rows db)"
    and "status_at db i = SText (js ''DELETED'') \<or> status_at db i = SText (js ''ANONYMIZED'')"
  shows "i < length (rows (apply_ops lib stringify db ops))
       \<and> col (rows (apply_ops lib stringify db ops) ! i) ''id'' = col (rows db ! i) ''id''
       \<and> (status_at (apply_ops lib stringify db ops) i = SText (js ''DELETED'')
          \<or> status_at (apply_ops lib stringify db ops) i = SText (js ''ANONYMIZED''))
       \<and> status_at (apply_ops lib stringify db ops) i \<noteq> SText (js ''PAID'')
       \<and> status_at (apply_ops lib stringify db ops) i \<noteq> SText (js ''PENDING_PAYMENT'')
       \<and> (status_at db i = SText (js ''ANONYMIZED'') \<longrightarrow>
            status_at (apply_op lib stringify db (Anonymize rid)) i = SText (js ''ANONYMIZED''))
       \<and> (status_at db i = SText (js ''DELETED'') \<longrightarrow>
            status_at (apply_op lib stringify db (MarkDeleted rid)) i = SText (js ''DELETED''))
       \<and> status_at (apply_op lib stringify db (Register reg)) i = status_at db i"
proof -
  note a = apply_ops_row [OF assms, of lib stringify ops]
  have "status_at (apply_ops lib stringify db ops) i \<noteq> SText (js ''PAID'')"
    "status_at (apply_ops lib stringify db ops) i \<noteq> SText (js ''PENDING_PAYMENT'')"
    using a status_names_distinct by metis+
  then show ?thesis
    using a status_step_anonymize [OF assms(1), of lib stringify rid]
      status_step_mark_deleted [OF assms(1), of lib stringify rid]
      status_step_register [OF assms(1), of lib stringify reg]
    by blast
qed

theorem terminal_statuses_closed_witness:
  "0 < length (rows deleted_store)
   \<and> status_at deleted_store 0 = SText (js ''DELETED'')
   \<and> status_at (apply_ops sample_sqlite sample_stringify deleted_store
        [Anonymize (js ''reg_1''), MarkDeleted (js ''reg_1'')]) 0 \<noteq> SText (js ''PAID'')"
proof -
  have 1: "0 < length (rows deleted_store)"
    by (simp add: deleted_store_def)
  have 2: "status_at deleted_store 0 = SText (js ''DELETED'')"
    by (simp add: status_at_def deleted_store_def deleted_row_def col_def)
  then have 3: "status_at deleted_store 0 = SText (js ''DELETED'')
      \<or> status_at deleted_store 0 = SText (js ''ANONYMIZED'')" by simp
  show ?thesis
    using 1 2 terminal_statuses_closed [OF 1 3] by blast
qed

text \<open>
  C1 as stated fails where it calls \<open>DELETED\<close> terminal: neither update looks at the
  current status, and anonymizing a \<open>DELETED\<close> registration sets it to \<open>ANONYMIZED\<close>.
\<close>

theorem deleted_not_terminal_counterexample:
  "status_at deleted_store 0 = SText (js ''DELETED'')
   \<and> status_at (apply_op sample_sqlite sample_stringify deleted_store (Anonymize (js ''reg_1''))) 0
       = SText (js ''ANONYMIZED'')
   \<and> SText (js ''ANONYMIZED'') \<noteq> SText (js ''DELETED'')"
proof -
  have "apply_op sample_sqlite sample_stringify deleted_store (Anonymize (js ''reg_1''))
      = \<lparr>columns = base_columns, rows = [anonymized_row]\<rparr>"
    by (simp add: deleted_store_anonymize)
  moreover have "status_at \<lparr>columns = base_columns, rows = [anonymized_row]\<rparr> 0
      = SText (js ''ANONYMIZED'')"
    by (simp add: status_at_def anonymized_row_def col_def)
  moreover have "status_at deleted_store 0 = SText (js ''DELETED'')"
    by (simp add: status_at_def deleted_store_def deleted_row_def col_def)
  ultimately show ?thesis by simp
qed

text \<open>
  C5. Anonymizing changes only the rows with the given id. In such a row the full name
  and the email hold the placeholders, the phone, date of birth, city, billing columns
  and food note are empty, and the status is \<open>ANONYMIZED\<close>; every other column, among
  them id, created_at, camp type, meal plan, accommodation, amount, currency, price
  breakdown, the grade and exam columns and the consent columns, holds what it held
  before. No operation of the system changes the id or created_at of a stored
  registration.
\<close>

theorem anonymize_frame:
  assumes "anonymizeRegistration db registrationId = Inr (n, db')" and "i < length (rows db)"
  shows "length (rows db') = length (rows db)
     \<and> columns db' = columns db
     \<and> (col (rows db ! i) ''id'' \<noteq> SText registrationId \<longrightarrow> rows db' ! i = rows db ! i)
     \<and> (col (rows db ! i) ''id'' = SText registrationId \<longrightarrow>
          col (rows db' ! i) ''status'' = SText (js ''ANONYMIZED'')
        \<and> col (rows db' ! i) ''full_name'' = SText (js ''ANONYMIZED'')
        \<and> col (rows db' ! i) ''email''
            = SText (js ''anonymized-'' @ registrationId @ js ''@example.invalid'')
        \<and> list_all (\<lambda>c. col (rows db' ! i) c = SText [])
             [''phone'', ''date_of_birth'', ''city'', ''billing_full_name'', ''billing_zip'',
              ''billing_city'', ''billing_address'', ''billing_country'', ''food_notes'']
        \<and> list_all (\<lambda>c. (rows db' ! i) c = (rows db ! i) c) kept_columns
        \<and> (\<forall>c. c \<noteq> ''status'' \<and> c \<notin> set personal_columns \<longrightarrow>
               (rows db' ! i) c = (rows db ! i) c))
     \<and> col (rows (apply_ops lib stringify db ops) ! i) ''id'' = col (rows db ! i) ''id''
     \<and> col (rows (apply_ops lib stringify db ops) ! i) ''created_at''
         = col (rows db ! i) ''created_at''"
proof -
  note r = anonymize_row_cases [OF assms]
  have a: "col (rows db' ! i) ''status'' = SText (js ''ANONYMIZED'')
        \<and> col (rows db' ! i) ''full_name'' = SText (js ''ANONYMIZED'')
        \<and> col (rows db' ! i) ''email''
            = SText (js ''anonymized-'' @ registrationId @ js ''@example.invalid'')
        \<and> list_all (\<lambda>c. col (rows db' ! i) c = SText [])
             [''phone'', ''date_of_birth'', ''city'', ''billing_full_name'', ''billing_zip'',
              ''billing_city'', ''billing_address'', ''billing_country'', ''food_notes'']
        \<and> list_all (\<lambda>c. (rows db' ! i) c = (rows db ! i) c) kept_columns
        \<and> (\<forall>c. c \<noteq> ''status'' \<and> c \<notin> set personal_columns \<longrightarrow>
               (rows db' ! i) c = (rows db ! i) c)"
    if "col (rows db ! i) ''id'' = SText registrationId"
    unfolding r(4) [OF that]
    by (simp add: col_def kept_columns_def personal_columns_def)
  note b = apply_ops_identity [OF assms(2), of lib stringify ops]
  show ?thesis
  proof (intro conjI)
    show "col (rows db ! i) ''id'' \<noteq> SText registrationId \<longrightarrow> rows db' ! i = rows db ! i"
      using r(3) by (rule impI)
    show "col (rows db ! i) ''id'' = SText registrationId \<longrightarrow>
          col (rows db' ! i) ''status'' = SText (js ''ANONYMIZED'')
        \<and> col (rows db' ! i) ''full_name'' = SText (js ''ANONYMIZED'')
        \<and> col (rows db' ! i) ''email''
            = SText (js ''anonymized-'' @ registrationId @ js ''@example.invalid'')
        \<and> list_all (\<lambda>c. col (rows db' ! i) c = SText [])
             [''phone'', ''date_of_birth'', ''city'', ''billing_full_name'', ''billing_zip'',
              ''billing_city'', ''billing_address'', ''billing_country'', ''food_notes'']
        \<and> list_all (\<lambda>c. (rows db' ! i) c = (rows db ! i) c) kept_columns
        \<and> (\<forall>c. c \<noteq> ''status'' \<and> c \<notin> set personal_columns \<longrightarrow>
               (rows db' ! i) c = (rows db ! i) c)"
      using a by (rule impI)
  qed (simp_all add: r(1,2) b)
qed

theorem anonymize_frame_witness:
  "anonymizeRegistration deleted_store (js ''reg_1'')
     = Inr (1, \<lparr>columns = base_columns, rows = [anonymized_row]\<rparr>)
   \<and> 0 < length (rows deleted_store)
   \<and> col (rows deleted_store ! 0) ''id'' = SText (js ''reg_1'')
   \<and> col anonymized_row ''email''
       = SText (js ''anonymized-'' @ js ''reg_1'' @ js ''@example.invalid'')
   \<and> anonymized_row ''created_at'' = deleted_row ''created_at''
   \<and> anonymized_row ''amount_huf'' = deleted_row ''amount_huf''"
proof -
  have 1: "0 < length (rows deleted_store)"
    by (simp add: deleted_store_def)
  have 2: "col (rows deleted_store ! 0) ''id'' = SText (js ''reg_1'')"
    by (simp add: deleted_store_def deleted_row_def col_def)
  have 4: "rows deleted_store ! 0 = deleted_row"
    "rows \<lparr>columns = base_columns, rows = [anonymized_row]\<rparr> ! 0 = anonymized_row"
    by (simp_all add: deleted_store_def)
  note t = anonymize_frame [OF deleted_store_anonymize 1, of sample_sqlite sample_stringify "[]",
      unfolded 4]
  have "col anonymized_row ''email''
       = SText (js ''anonymized-'' @ js ''reg_1'' @ js ''@example.invalid'')
     \<and> anonymized_row ''created_at'' = deleted_row ''created_at''
     \<and> anonymized_row ''amount_huf'' = deleted_row ''amount_huf''"
    using t 2 [unfolded 4] by (simp add: kept_columns_def)
  then show ?thesis
    using deleted_store_anonymize 1 2 by simp
qed

section \<open>Properties of the schema migration\<close>

lemma sql_update_Inl:
  "sql_update refs cond assign t = Inl e \<longleftrightarrow>
     \<not> list_all (has_column t) refs \<and> e = sqlite_error ''no such column''"
  by (auto simp: sql_update_def)

lemma sql_update_Inr:
  "sql_update refs cond assign t = Inr (n, t') \<longleftrightarrow>
     list_all (has_column t) refs \<and> n = length (filter cond (rows t))
     \<and> t' = t\<lparr>rows := map (\<lambda>r. if cond r then assign r else r) (rows t)\<rparr>"
  by (auto simp: sql_update_def)

lemma foldl_add_columns:
  "columns (foldl (add_if_missing ns) t specs)
     = columns t @ map (\<lambda>(c, nn, v). (c, nn)) (filter (\<lambda>(c, nn, v). c \<notin> set ns) specs)"
  by (induction specs arbitrary: t) (auto simp: add_if_missing_def add_column_def)

lemma foldl_add_length:
  "length (rows (foldl (add_if_missing ns) t specs)) = length (rows t)"
  by (induction specs arbitrary: t) (auto simp: add_if_missing_def add_column_def)

lemma foldl_add_id:
  "set (map fst specs) \<subseteq> set ns \<Longrightarrow> foldl (add_if_missing ns) t specs = t"
  by (induction specs arbitrary: t) (auto simp: add_if_missing_def)

lemma add_phase_has_new:
  "set (map fst new_columns) \<subseteq> set (map fst (columns (add_phase db)))"
  unfolding add_phase_def Let_def foldl_add_columns
  by (auto simp: image_iff)


lemma add_phase_columns:
  "columns (add_phase db)
     = columns db @ map (\<lambda>(c, nn, v). (c, nn))
         (filter (\<lambda>(c, nn, v). c \<notin> set (map fst (columns db))) new_columns)"
  by (simp add: add_phase_def foldl_add_columns)

lemma add_phase_length: "length (rows (add_phase db)) = length (rows db)"
  by (simp add: add_phase_def foldl_add_length)

lemma add_phase_fixed:
  "set (map fst new_columns) \<subseteq> set (map fst (columns t)) \<Longrightarrow> add_phase t = t"
  by (simp add: add_phase_def foldl_add_id)


lemma exam_step_done: "\<not> exam_where (if exam_where r then exam_set r else r)"
  by (auto simp: exam_where_def exam_set_def col_def)

lemma grade_step_exam_where:
  "exam_where (if grade_where r then grade_set r else r) = exam_where r"
  by (auto simp: exam_where_def grade_set_def col_def)

lemma grade_step_idem:
  "(if grade_where (if grade_where r then grade_set r else r)
    then grade_set (if grade_where r then grade_set r else r)
    else (if grade_where r then grade_set r else r))
   = (if grade_where r then grade_set r else r)"
  by (auto simp: grade_where_def grade_set_def col_def coalesce_def fun_eq_iff)


lemma has_column_rows_update [simp]: "has_column (t\<lparr>rows := rs\<rparr>) c = has_column t c"
  by (simp add: has_column_def)

lemma has_column_cong: "columns t = columns t' \<Longrightarrow> has_column t = has_column t'"
  by (simp add: has_column_def fun_eq_iff)

lemma backfill_exam_done:
  "backfill_exam t = Inr (n, t') \<Longrightarrow> \<exists>m. backfill_exam t' = Inr (m, t')"
  unfolding backfill_exam_def sql_update_Inr
  by (auto simp: exam_step_done cong: has_column_cong)

lemma ensureRegistrationColumns_idempotent:
  "ensureRegistrationColumns (snd (ensureRegistrationColumns db)) = ensureRegistrationColumns db"
proof -
  define db1 where "db1 = add_phase db"
  have new: "set (map fst new_columns) \<subseteq> set (map fst (columns db1))"
    unfolding db1_def by (rule add_phase_has_new)
  have fixed: "add_phase t = t" if "columns t = columns db1" for t
    using new that by (simp add: add_phase_fixed)
  show ?thesis
  proof (cases "backfill_exam db1")
    case (Inl e)
    then have 1: "ensureRegistrationColumns db = (Some e, db1)"
      by (simp add: ensureRegistrationColumns_def db1_def)
    have "ensureRegistrationColumns db1 = (Some e, db1)"
      using Inl by (simp add: ensureRegistrationColumns_def fixed)
    then show ?thesis by (simp add: 1)
  next
    case (Inr p)
    then obtain n db2 where ex: "backfill_exam db1 = Inr (n, db2)" by (cases p) auto
    then have c2: "columns db2 = columns db1"
      and r2: "rows db2 = map (\<lambda>r. if exam_where r then exam_set r else r) (rows db1)"
      unfolding backfill_exam_def by (auto dest: sql_update_rows)
    have e2: "\<exists>m. backfill_exam db2 = Inr (m, db2)"
      using ex by (rule backfill_exam_done)
    show ?thesis
    proof (cases "backfill_grade db2")
      case (Inl e)
      then have 1: "ensureRegistrationColumns db = (Some e, db2)"
        using ex by (simp add: ensureRegistrationColumns_def db1_def)
      have "ensureRegistrationColumns db2 = (Some e, db2)"
        using Inl e2 by (auto simp: ensureRegistrationColumns_def fixed [OF c2])
      then show ?thesis by (simp add: 1)
    next
      case (Inr q)
      then obtain m db3 where gr: "backfill_grade db2 = Inr (m, db3)" by (cases q) auto
      then have c3: "columns db3 = columns db1"
        and r3: "rows db3 = map (\<lambda>r. if grade_where r then grade_set r else r) (rows db2)"
        unfolding backfill_grade_def using c2 by (auto dest: sql_update_rows)
      have 1: "ensureRegistrationColumns db = (None, db3)"
        using ex gr by (simp add: ensureRegistrationColumns_def db1_def)
      have ok1: "list_all (has_column db3)
          [''wants_exam_iaido'', ''wants_exam'', ''target_grade_iaido'', ''target_grade'',
           ''wants_exam_jodo'']"
        using ex c3 unfolding backfill_exam_def sql_update_Inr
        by (simp add: has_column_def)
      have ok2: "list_all (has_column db3) [''current_grade_iaido'', ''current_grade'']"
        using gr c3 c2 unfolding backfill_grade_def sql_update_Inr
        by (simp add: has_column_def)
      have s1: "map (\<lambda>r. if exam_where r then exam_set r else r) (rows db3) = rows db3"
        unfolding r3 r2 by (simp add: grade_step_exam_where exam_step_done)
      have s2: "map (\<lambda>r. if grade_where r then grade_set r else r) (rows db3) = rows db3"
        unfolding r3 by (simp add: grade_step_idem)
      have b1: "backfill_exam db3 = Inr (length (filter exam_where (rows db3)), db3)"
        unfolding backfill_exam_def sql_update_Inr using ok1 s1 by simp
      have b2: "backfill_grade db3 = Inr (length (filter grade_where (rows db3)), db3)"
        unfolding backfill_grade_def sql_update_Inr using ok2 s2 by simp
      have "ensureRegistrationColumns db3 = (None, db3)"
        by (simp add: ensureRegistrationColumns_def fixed [OF c3] b1 b2)
      then show ?thesis by (simp add: 1)
    qed
  qed
qed


lemma foldl_add_rows_nth:
  "i < length (rows t) \<Longrightarrow> c \<in> set ns \<Longrightarrow>
   (rows (foldl (add_if_missing ns) t specs) ! i) c = (rows t ! i) c"
proof (induction specs arbitrary: t)
  case Nil
  then show ?case by simp
next
  case (Cons spec specs)
  obtain c' nn v where spec: "spec = (c', nn, v)" by (cases spec) auto
  let ?t = "add_if_missing ns t spec"
  have l: "length (rows ?t) = length (rows t)"
    by (auto simp: add_if_missing_def add_column_def spec)
  have "(rows ?t ! i) c = (rows t ! i) c"
    using Cons.prems by (auto simp: add_if_missing_def add_column_def spec)
  then show ?case using Cons.IH [of ?t] Cons.prems l by simp
qed

lemma add_phase_keeps:
  "i < length (rows db) \<Longrightarrow> has_column db c \<Longrightarrow>
   col (rows (add_phase db) ! i) c = col (rows db ! i) c"
  unfolding add_phase_def Let_def col_def has_column_def
  by (simp add: foldl_add_rows_nth)

lemma foldl_add_rows_other:
  "i < length (rows t) \<Longrightarrow> c \<notin> set (map fst specs) \<Longrightarrow>
   (rows (foldl (add_if_missing ns) t specs) ! i) c = (rows t ! i) c"
proof (induction specs arbitrary: t)
  case Nil
  then show ?case by simp
next
  case (Cons spec specs)
  obtain c' nn v where spec: "spec = (c', nn, v)" by (cases spec) auto
  let ?t = "add_if_missing ns t spec"
  have l: "length (rows ?t) = length (rows t)"
    by (auto simp: add_if_missing_def add_column_def spec)
  have "(rows ?t ! i) c = (rows t ! i) c"
    using Cons.prems by (auto simp: add_if_missing_def add_column_def spec)
  then show ?case using Cons.IH [of ?t] Cons.prems l by simp
qed

lemma exam_step_keeps:
  "col (if exam_where r then exam_set r else r) ''current_grade_iaido'' = col r ''current_grade_iaido''"
  "col (if exam_where r then exam_set r else r) ''current_grade'' = col r ''current_grade''"
  "filled (col r ''target_grade_iaido'') \<Longrightarrow>
   col (if exam_where r then exam_set r else r) ''target_grade_iaido'' = col r ''target_grade_iaido''"
  "col r ''wants_exam_iaido'' \<noteq> SNum 0 \<Longrightarrow>
   col (if exam_where r then exam_set r else r) ''wants_exam_iaido'' = col r ''wants_exam_iaido''"
  by (auto simp: exam_where_def exam_set_def col_def filled_def)

lemma grade_step_keeps:
  "filled (col r ''current_grade_iaido'') \<Longrightarrow>
   col (if grade_where r then grade_set r else r) ''current_grade_iaido'' = col r ''current_grade_iaido''"
  "col (if grade_where r then grade_set r else r) ''target_grade_iaido'' = col r ''target_grade_iaido''"
  "col (if grade_where r then grade_set r else r) ''wants_exam_iaido'' = col r ''wants_exam_iaido''"
  by (auto simp: grade_where_def grade_set_def col_def filled_def)

lemma grade_step_value:
  "col (if grade_where r then grade_set r else r) ''current_grade_iaido''
     = (if filled (col r ''current_grade_iaido'') then col r ''current_grade_iaido''
        else coalesce (col r ''current_grade'') (SText []))"
  by (auto simp: grade_where_def grade_set_def col_def filled_def)

lemma has_column_add_phase:
  "has_column (add_phase db) c \<longleftrightarrow> has_column db c \<or> c \<in> set (map fst new_columns)"
  unfolding has_column_def add_phase_columns
  by (force simp: image_iff)

lemma ensureRegistrationColumns_cases:
  obtains (exam_failed) e where "ensureRegistrationColumns db = (Some e, add_phase db)"
  | (grade_failed) e and db2 :: table where "ensureRegistrationColumns db = (Some e, db2)"
      "columns db2 = columns (add_phase db)"
      "rows db2 = map (\<lambda>r. if exam_where r then exam_set r else r) (rows (add_phase db))"
  | (finished) db2 :: table and db3 :: table where "ensureRegistrationColumns db = (None, db3)"
      "columns db3 = columns (add_phase db)"
      "rows db2 = map (\<lambda>r. if exam_where r then exam_set r else r) (rows (add_phase db))"
      "rows db3 = map (\<lambda>r. if grade_where r then grade_set r else r) (rows db2)"
      "has_column db ''current_grade''"
proof (cases "backfill_exam (add_phase db)")
  case (Inl e)
  then show ?thesis using exam_failed by (simp add: ensureRegistrationColumns_def)
next
  case (Inr p)
  then obtain n db2 where ex: "backfill_exam (add_phase db) = Inr (n, db2)" by (cases p) auto
  then have c2: "columns db2 = columns (add_phase db)"
    and r2: "rows db2 = map (\<lambda>r. if exam_where r then exam_set r else r) (rows (add_phase db))"
    unfolding backfill_exam_def by (auto dest: sql_update_rows)
  show ?thesis
  proof (cases "backfill_grade db2")
    case (Inl e)
    then show ?thesis using grade_failed [of e db2] c2 r2 ex
      by (simp add: ensureRegistrationColumns_def)
  next
    case (Inr q)
    then obtain m db3 where gr: "backfill_grade db2 = Inr (m, db3)" by (cases q) auto
    then have c3: "columns db3 = columns (add_phase db)"
      and r3: "rows db3 = map (\<lambda>r. if grade_where r then grade_set r else r) (rows db2)"
      unfolding backfill_grade_def using c2 by (auto dest: sql_update_rows)
    have "has_column db2 ''current_grade''"
      using gr unfolding backfill_grade_def sql_update_Inr by simp
    then have "has_column (add_phase db) ''current_grade''"
      using c2 by (simp add: has_column_def)
    then have h: "has_column db ''current_grade''"
      unfolding has_column_add_phase by (simp add: new_columns_def)
    show ?thesis using finished [of db3 db2] c3 r2 r3 h ex gr
      by (simp add: ensureRegistrationColumns_def)
  qed
qed


lemma foldl_add_rows_default:
  "i < length (rows t) \<Longrightarrow> (c, nn, v) \<in> set specs \<Longrightarrow> distinct (map fst specs) \<Longrightarrow>
   c \<notin> set ns \<Longrightarrow> (rows (foldl (add_if_missing ns) t specs) ! i) c = Some v"
proof (induction specs arbitrary: t)
  case Nil
  then show ?case by simp
next
  case (Cons spec specs)
  let ?t = "add_if_missing ns t spec"
  have l: "length (rows ?t) = length (rows t)"
    by (cases spec) (auto simp: add_if_missing_def add_column_def)
  show ?case
  proof (cases "spec = (c, nn, v)")
    case True
    then have "c \<notin> set (map fst specs)" using Cons.prems(3) by auto
    then have "(rows (foldl (add_if_missing ns) ?t specs) ! i) c = (rows ?t ! i) c"
      using foldl_add_rows_other [of i ?t c specs ns] Cons.prems(1) l by simp
    moreover have "(rows ?t ! i) c = Some v"
      using True Cons.prems(1,4) by (simp add: add_if_missing_def add_column_def)
    ultimately show ?thesis by simp
  next
    case False
    then have "(c, nn, v) \<in> set specs" using Cons.prems(2) by simp
    then show ?thesis using Cons.IH [of ?t] Cons.prems l by simp
  qed
qed

lemma add_phase_new_grade:
  "i < length (rows db) \<Longrightarrow> \<not> has_column db ''current_grade_iaido'' \<Longrightarrow>
   col (rows (add_phase db) ! i) ''current_grade_iaido'' = SText []"
  unfolding add_phase_def Let_def col_def has_column_def
  using foldl_add_rows_default [of i db "''current_grade_iaido''" True "SText []" new_columns
      "map fst (columns db)"]
  by (simp add: new_columns_def)

lemma ensureRegistrationColumns_keeps:
  assumes "i < length (rows db)"
  shows "length (rows (snd (ensureRegistrationColumns db))) = length (rows db)"
    and "columns (snd (ensureRegistrationColumns db)) = columns (add_phase db)"
    and "has_column db ''current_grade_iaido'' \<Longrightarrow>
         filled (col (rows db ! i) ''current_grade_iaido'') \<Longrightarrow>
         col (rows (snd (ensureRegistrationColumns db)) ! i) ''current_grade_iaido''
           = col (rows db ! i) ''current_grade_iaido''"
    and "has_column db ''target_grade_iaido'' \<Longrightarrow>
         filled (col (rows db ! i) ''target_grade_iaido'') \<Longrightarrow>
         col (rows (snd (ensureRegistrationColumns db)) ! i) ''target_grade_iaido''
           = col (rows db ! i) ''target_grade_iaido''"
    and "has_column db ''wants_exam_iaido'' \<Longrightarrow>
         col (rows db ! i) ''wants_exam_iaido'' \<noteq> SNum 0 \<Longrightarrow>
         col (rows (snd (ensureRegistrationColumns db)) ! i) ''wants_exam_iaido''
           = col (rows db ! i) ''wants_exam_iaido''"
    and "fst (ensureRegistrationColumns db) = None \<Longrightarrow>
         col (rows (snd (ensureRegistrationColumns db)) ! i) ''current_grade_iaido''
           = (if has_column db ''current_grade_iaido''
                 \<and> filled (col (rows db ! i) ''current_grade_iaido'')
              then col (rows db ! i) ''current_grade_iaido''
              else coalesce (col (rows db ! i) ''current_grade'') (SText []))"
proof -
  note l = add_phase_length [of db]
  note k = add_phase_keeps [OF assms]
  have i1: "i < length (rows (add_phase db))" using assms l by simp
  have nf: "\<not> filled (SText [])" by (simp add: filled_def coalesce_def)
  show "length (rows (snd (ensureRegistrationColumns db))) = length (rows db)"
    by (cases db rule: ensureRegistrationColumns_cases) (simp_all add: l)
  show "columns (snd (ensureRegistrationColumns db)) = columns (add_phase db)"
    by (cases db rule: ensureRegistrationColumns_cases) simp_all
  show "col (rows (snd (ensureRegistrationColumns db)) ! i) ''current_grade_iaido''
           = col (rows db ! i) ''current_grade_iaido''"
    if "has_column db ''current_grade_iaido''"
      "filled (col (rows db ! i) ''current_grade_iaido'')"
    using that i1
    by (cases db rule: ensureRegistrationColumns_cases)
      (simp_all add: k exam_step_keeps grade_step_keeps)
  show "col (rows (snd (ensureRegistrationColumns db)) ! i) ''target_grade_iaido''
           = col (rows db ! i) ''target_grade_iaido''"
    if "has_column db ''target_grade_iaido''"
      "filled (col (rows db ! i) ''target_grade_iaido'')"
    using that i1
    by (cases db rule: ensureRegistrationColumns_cases)
      (simp_all add: k exam_step_keeps grade_step_keeps)
  show "col (rows (snd (ensureRegistrationColumns db)) ! i) ''wants_exam_iaido''
           = col (rows db ! i) ''wants_exam_iaido''"
    if "has_column db ''wants_exam_iaido''"
      "col (rows db ! i) ''wants_exam_iaido'' \<noteq> SNum 0"
    using that i1
    by (cases db rule: ensureRegistrationColumns_cases)
      (simp_all add: k exam_step_keeps grade_step_keeps)
  show "col (rows (snd (ensureRegistrationColumns db)) ! i) ''current_grade_iaido''
           = (if has_column db ''current_grade_iaido''
                 \<and> filled (col (rows db ! i) ''current_grade_iaido'')
              then col (rows db ! i) ''current_grade_iaido''
              else coalesce (col (rows db ! i) ''current_grade'') (SText []))"
    if "fst (ensureRegistrationColumns db) = None"
  proof (cases db rule: ensureRegistrationColumns_cases)
    case (exam_failed e)
    then show ?thesis using that by simp
  next
    case (grade_failed e db2)
    then show ?thesis using that by simp
  next
    case (finished db2 db3)
    show ?thesis
    proof (cases "has_column db ''current_grade_iaido''")
      case True
      then show ?thesis
        using finished i1 by (simp add: k grade_step_value exam_step_keeps)
    next
      case False
      then show ?thesis
        using finished i1 add_phase_new_grade [OF assms False]
        by (simp add: k grade_step_value exam_step_keeps nf)
    qed
  qed
qed

lemma legacy_store_migrates: "fst (ensureRegistrationColumns legacy_store) = None"
proof -
  have a: "has_column (add_phase legacy_store) c"
    if "c \<in> set [''wants_exam_iaido'', ''wants_exam'', ''target_grade_iaido'',
         ''target_grade'', ''wants_exam_jodo'', ''current_grade_iaido'', ''current_grade'']"
    for c
    using that unfolding has_column_add_phase
    by (auto simp: has_column_def legacy_store_def base_columns_def new_columns_def)
  show ?thesis
    by (simp add: ensureRegistrationColumns_def Let_def backfill_exam_def backfill_grade_def
        sql_update_def a)
qed

text \<open>
  C9. Running the column migration and backfill on the store that a first run has left
  gives the same store and the same outcome as the first run: the second run changes
  nothing. A run appends exactly the new columns that the table lacks, keeps the number
  of rows, and overwrites no value that is already there: a current Iaido grade or an
  Iaido target grade that is not empty and an Iaido exam flag other than 0 stay as they
  are. After a run without error the current Iaido grade of a row is its old value when
  the column was there and not empty, and the combined current grade otherwise.
\<close>

theorem ensureRegistrationColumns_twice:
  "ensureRegistrationColumns (snd (ensureRegistrationColumns db)) = ensureRegistrationColumns db
   \<and> columns (snd (ensureRegistrationColumns db))
       = columns db @ map (\<lambda>(c, notnull, v). (c, notnull))
           (filter (\<lambda>(c, notnull, v). \<not> has_column db c) new_columns)
   \<and> length (rows (snd (ensureRegistrationColumns db))) = length (rows db)
   \<and> (i < length (rows db) \<and> has_column db ''current_grade_iaido''
        \<and> filled (col (rows db ! i) ''current_grade_iaido'') \<longrightarrow>
         col (rows (snd (ensureRegistrationColumns db)) ! i) ''current_grade_iaido''
           = col (rows db ! i) ''current_grade_iaido'')
   \<and> (i < length (rows db) \<and> has_column db ''target_grade_iaido''
        \<and> filled (col (rows db ! i) ''target_grade_iaido'') \<longrightarrow>
         col (rows (snd (ensureRegistrationColumns db)) ! i) ''target_grade_iaido''
           = col (rows db ! i) ''target_grade_iaido'')
   \<and> (i < length (rows db) \<and> has_column db ''wants_exam_iaido''
        \<and> col (rows db ! i) ''wants_exam_iaido'' \<noteq> SNum 0 \<longrightarrow>
         col (rows (snd (ensureRegistrationColumns db)) ! i) ''wants_exam_iaido''
           = col (rows db ! i) ''wants_exam_iaido'')
   \<and> (i < length (rows db) \<and> fst (ensureRegistrationColumns db) = None \<longrightarrow>
         col (rows (snd (ensureRegistrationColumns db)) ! i) ''current_grade_iaido''
           = (if has_column db ''current_grade_iaido''
                 \<and> filled (col (rows db ! i) ''current_grade_iaido'')
              then col (rows db ! i) ''current_grade_iaido''
              else coalesce (col (rows db ! i) ''current_grade'') (SText [])))"
proof (intro conjI impI)
  show "ensureRegistrationColumns (snd (ensureRegistrationColumns db)) = ensureRegistrationColumns db"
    by (rule ensureRegistrationColumns_idempotent)
  have "columns (snd (ensureRegistrationColumns db)) = columns (add_phase db)"
    by (cases db rule: ensureRegistrationColumns_cases) simp_all
  then show "columns (snd (ensureRegistrationColumns db))
       = columns db @ map (\<lambda>(c, notnull, v). (c, notnull))
           (filter (\<lambda>(c, notnull, v). \<not> has_column db c) new_columns)"
    by (simp add: add_phase_columns has_column_def)
  show "length (rows (snd (ensureRegistrationColumns db))) = length (rows db)"
    by (cases db rule: ensureRegistrationColumns_cases) (simp_all add: add_phase_length)
qed (simp_all add: ensureRegistrationColumns_keeps)

theorem ensureRegistrationColumns_twice_witness:
  "0 < length (rows legacy_store)
   \<and> has_column legacy_store ''current_grade_iaido''
   \<and> filled (col (rows legacy_store ! 0) ''current_grade_iaido'')
   \<and> fst (ensureRegistrationColumns legacy_store) = None
   \<and> col (rows legacy_store ! 0) ''current_grade'' = SText (js ''4th dan'')
   \<and> col (rows (snd (ensureRegistrationColumns legacy_store)) ! 0) ''current_grade_iaido''
       = SText (js ''3rd dan'')"
proof -
  have 1: "0 < length (rows legacy_store)"
    by (simp add: legacy_store_def)
  have 2: "has_column legacy_store ''current_grade_iaido''"
    by (simp add: has_column_def legacy_store_def)
  have 3: "col (rows legacy_store ! 0) ''current_grade_iaido'' = SText (js ''3rd dan'')"
    "col (rows legacy_store ! 0) ''current_grade'' = SText (js ''4th dan'')"
    by (simp_all add: legacy_store_def deleted_row_def col_def)
  have 4: "filled (col (rows legacy_store ! 0) ''current_grade_iaido'')"
    unfolding 3 by (simp add: filled_def coalesce_def)
  show ?thesis
    using 1 2 3 4 legacy_store_migrates ensureRegistrationColumns_twice [of legacy_store 0]
    by simp
qed

section \<open>Properties of the admin session manager\<close>

lemma split_nonempty: "split c s \<noteq> []"
  by (induction s) (auto split: list.splits)

lemma split_no_sep: "c \<notin> set s \<Longrightarrow> split c s = [s]"
  by (induction s) auto

lemma split_append: "c \<notin> set p \<Longrightarrow> split c (p @ c # s) = p # split c s"
  by (induction p) (auto simp: split_nonempty split: list.splits)

lemma split_one: "split c xs = [s] \<longleftrightarrow> c \<notin> set s \<and> xs = s"
proof
  assume a: "split c xs = [s]"
  show "c \<notin> set s \<and> xs = s"
  proof (cases "c \<in> set xs")
    case True
    then obtain u v where "xs = u @ c # v" "c \<notin> set u"
      by (metis split_list_first)
    then have "split c xs = u # split c v" by (simp add: split_append)
    then show ?thesis using a split_nonempty [of c v] by simp
  next
    case False
    then show ?thesis using a by (simp add: split_no_sep)
  qed
next
  assume "c \<notin> set s \<and> xs = s"
  then show "split c xs = [s]" by (simp add: split_no_sep)
qed

lemma split_two:
  "split c t = [p, s] \<longleftrightarrow> t = p @ c # s \<and> c \<notin> set p \<and> c \<notin> set s"
proof (induction t arbitrary: p)
  case Nil
  then show ?case by auto
next
  case (Cons x xs)
  show ?case
  proof (cases "x = c")
    case True
    have "split c xs = [s] \<longleftrightarrow> c \<notin> set s \<and> xs = s"
    proof
      assume a: "split c xs = [s]"
      show "c \<notin> set s \<and> xs = s"
      proof (cases "c \<in> set xs")
        case True
        then obtain u v where "xs = u @ c # v" "c \<notin> set u"
          by (metis split_list_first)
        then have "split c xs = u # split c v" by (simp add: split_append)
        then show ?thesis using a split_nonempty [of c v] by simp
      next
        case False
        then show ?thesis using a by (simp add: split_no_sep)
      qed
    next
      assume "c \<notin> set s \<and> xs = s"
      then show "split c xs = [s]" by (simp add: split_no_sep)
    qed
    then show ?thesis using True by (cases p) auto
  next
    case False
    show ?thesis
    proof (cases "split c xs")
      case Nil
      then show ?thesis using split_nonempty by blast
    next
      case (Cons y ys)
      then show ?thesis using False Cons.IH [of y] Cons.IH
        by (cases p) (auto simp: Cons)
    qed
  qed
qed


lemma exp_case_True:
  "(case x of JNum e \<Rightarrow> if e < of_int now then Some False else Some True | _ \<Rightarrow> Some False)
      = Some True
   \<longleftrightarrow> (\<exists>e. x = JNum e \<and> of_int now \<le> e)"
  by (cases x) auto

lemma check_payload_True:
  "check_payload env now p = Some True \<longleftrightarrow>
     (\<exists>obj e. decode_payload env p = Some obj
        \<and> get_prop obj (js ''username'') = Some (JStr (ADMIN_USERNAME env))
        \<and> get_prop obj (js ''exp'') = Some (JNum e) \<and> of_int now \<le> e)"
proof (cases "decode_payload env p")
  case None
  then show ?thesis by (simp add: check_payload_def)
next
  case (Some obj)
  show ?thesis
  proof (cases "get_prop obj (js ''username'')")
    case None
    then show ?thesis using Some by (simp add: check_payload_def)
  next
    case u: (Some username)
    show ?thesis
    proof (cases "username = JStr (ADMIN_USERNAME env)")
      case False
      then show ?thesis using Some u by (simp add: check_payload_def)
    next
      case True
      show ?thesis
      proof (cases "get_prop obj (js ''exp'')")
        case None
        then show ?thesis using Some u True by (simp add: check_payload_def)
      next
        case x: (Some exp)
        show ?thesis
          using Some u True x by (simp add: check_payload_def exp_case_True)
      qed
    qed
  qed
qed

lemma verify_segments:
  "verifyAdminSessionToken env now token \<longleftrightarrow>
     (\<exists>p s. token = JStr (p @ 46 # s) \<and> p \<noteq> [] \<and> s \<noteq> [] \<and> 46 \<notin> set p \<and> 46 \<notin> set s
        \<and> s = signSessionPayload env p \<and> check_payload env now p = Some True)"
proof
  assume v: "verifyAdminSessionToken env now token"
  then obtain t where t: "token = JStr t"
    by (cases token) (simp_all add: verifyAdminSessionToken_def)
  from v t obtain p s where sp: "split 46 t = [p, s]" and ne: "p \<noteq> []" "s \<noteq> []"
    and sig: "safeEqualStrings s (signSessionPayload env p)"
    and chk: "check_payload env now p = Some True"
    by (auto simp: verifyAdminSessionToken_def split: if_splits list.splits option.splits)
  from sp have "t = p @ 46 # s" "46 \<notin> set p" "46 \<notin> set s"
    by (simp_all add: split_two)
  then show "\<exists>p s. token = JStr (p @ 46 # s) \<and> p \<noteq> [] \<and> s \<noteq> [] \<and> 46 \<notin> set p \<and> 46 \<notin> set s
        \<and> s = signSessionPayload env p \<and> check_payload env now p = Some True"
    using t ne sig chk by (auto simp: safeEqualStrings_def)
next
  assume "\<exists>p s. token = JStr (p @ 46 # s) \<and> p \<noteq> [] \<and> s \<noteq> [] \<and> 46 \<notin> set p \<and> 46 \<notin> set s
        \<and> s = signSessionPayload env p \<and> check_payload env now p = Some True"
  then obtain p s where a: "token = JStr (p @ 46 # s)" "p \<noteq> []" "s \<noteq> []" "46 \<notin> set p"
    "46 \<notin> set s" "s = signSessionPayload env p" "check_payload env now p = Some True"
    by blast
  have "split 46 (p @ 46 # s) = [p, s]"
    using a(4,5) by (simp add: split_two)
  then show "verifyAdminSessionToken env now token"
    using a by (simp add: verifyAdminSessionToken_def safeEqualStrings_def)
qed


lemma segments_unique:
  fixes c :: nat
  assumes "p @ c # s = p' @ c # s'" and "c \<notin> set p'" and "c \<notin> set s'"
  shows "p = p' \<and> s = s'"
proof -
  have 1: "split c (p @ c # s) = [p', s']"
    using assms by (simp add: split_two)
  show ?thesis
  proof (cases "c \<in> set p")
    case False
    then have "split c (p @ c # s) = p # split c s" by (simp add: split_append)
    then have "p = p'" and "split c s = [s']" using 1 by simp_all
    then show ?thesis by (simp add: split_one)
  next
    case True
    then obtain u v where uv: "p = u @ c # v" "c \<notin> set u"
      by (metis split_list_first)
    then have "split c (p @ c # s) = u # split c (v @ c # s)"
      using split_append [of c u "v @ c # s"] by simp
    then have "split c (v @ c # s) = [s']" using 1 by simp
    then have "c \<notin> set (v @ c # s)" by (simp add: split_one)
    then show ?thesis by simp
  qed
qed

lemma sample_token:
  "buildAdminSessionToken sample_session_env 0 = js ''payload'' @ js ''.'' @ js ''key-onepayload''"
  "buildAdminSessionToken (sample_session_env\<lparr>ADMIN_SESSION_SECRET := js ''key-two''\<rparr>) 0
     = js ''payload'' @ js ''.'' @ js ''key-twopayload''"
  by (simp_all add: buildAdminSessionToken_def signSessionPayload_def sample_session_env_def
      Let_def js_def)

lemma sample_token_accepted:
  "verifyAdminSessionToken sample_session_env 100
     (JStr (buildAdminSessionToken sample_session_env 0))"
  unfolding sample_token
  by (simp add: verifyAdminSessionToken_def safeEqualStrings_def signSessionPayload_def
      check_payload_def sample_session_env_def js_def)

text \<open>
  C7. Verification accepts a token exactly when it is a string of two segments around
  one full stop, neither empty, whose second segment is the HMAC of the first under the
  server's secret, and whose first segment decodes to a payload that names the
  configured admin and carries a number \<open>exp\<close> that is not before \<open>now\<close>. So it
  rejects every token with another number of segments, every token \<open>p.s\<close> whose
  signature \<open>s\<close> is not the HMAC of \<open>p\<close> under the server's secret, and every
  correctly signed token whose expiry is in the past; a token built under a key \<open>k\<close>
  whose HMAC of the payload differs from the one under the server's secret fails.
\<close>

theorem verifyAdminSessionToken_accepts_only:
  "(verifyAdminSessionToken env now token \<longleftrightarrow>
      (\<exists>p s obj e. token = JStr (p @ js ''.'' @ s) \<and> p \<noteq> [] \<and> s \<noteq> []
         \<and> 46 \<notin> set p \<and> 46 \<notin> set s
         \<and> s = hmac env (ADMIN_SESSION_SECRET env) p
         \<and> decode_payload env p = Some obj
         \<and> get_prop obj (js ''username'') = Some (JStr (ADMIN_USERNAME env))
         \<and> get_prop obj (js ''exp'') = Some (JNum e) \<and> of_int now \<le> e))
   \<and> (s \<noteq> hmac env (ADMIN_SESSION_SECRET env) p \<longrightarrow>
        \<not> verifyAdminSessionToken env now (JStr (p @ js ''.'' @ s)))
   \<and> (decode_payload env p = Some obj \<and> get_prop obj (js ''exp'') = Some (JNum e)
        \<and> e < of_int now \<longrightarrow>
        \<not> verifyAdminSessionToken env now
            (JStr (p @ js ''.'' @ hmac env (ADMIN_SESSION_SECRET env) p)))
   \<and> (hmac env k (encode_payload env
          (JObj [(js ''username'', JStr (ADMIN_USERNAME env)),
                 (js ''exp'', JNum (of_int (t0 + ADMIN_SESSION_TTL_SECONDS)))]))
        \<noteq> hmac env (ADMIN_SESSION_SECRET env) (encode_payload env
          (JObj [(js ''username'', JStr (ADMIN_USERNAME env)),
                 (js ''exp'', JNum (of_int (t0 + ADMIN_SESSION_TTL_SECONDS)))])) \<longrightarrow>
        \<not> verifyAdminSessionToken env now
            (JStr (buildAdminSessionToken (env\<lparr>ADMIN_SESSION_SECRET := k\<rparr>) t0)))"
proof -
  have dot: "js ''.'' = [46]" by (simp add: js_def)
  have iff: "verifyAdminSessionToken env now token \<longleftrightarrow>
      (\<exists>p s obj e. token = JStr (p @ js ''.'' @ s) \<and> p \<noteq> [] \<and> s \<noteq> []
         \<and> 46 \<notin> set p \<and> 46 \<notin> set s
         \<and> s = hmac env (ADMIN_SESSION_SECRET env) p
         \<and> decode_payload env p = Some obj
         \<and> get_prop obj (js ''username'') = Some (JStr (ADMIN_USERNAME env))
         \<and> get_prop obj (js ''exp'') = Some (JNum e) \<and> of_int now \<le> e)" for token
    unfolding verify_segments check_payload_True signSessionPayload_def dot by auto
  have V: "46 \<notin> set p \<and> 46 \<notin> set s \<and> s = hmac env (ADMIN_SESSION_SECRET env) p
       \<and> (\<exists>obj e. decode_payload env p = Some obj
             \<and> get_prop obj (js ''exp'') = Some (JNum e) \<and> of_int now \<le> e)"
    if v: "verifyAdminSessionToken env now (JStr (p @ js ''.'' @ s))" for p s
  proof -
    from v obtain p' s' obj e where a: "p @ 46 # s = p' @ 46 # s'" "46 \<notin> set p'" "46 \<notin> set s'"
      "s' = hmac env (ADMIN_SESSION_SECRET env) p'" "decode_payload env p' = Some obj"
      "get_prop obj (js ''exp'') = Some (JNum e)" "of_int now \<le> e"
      unfolding iff dot by auto
    have "p = p' \<and> s = s'" using a(1,2,3) by (rule segments_unique)
    then show ?thesis using a by blast
  qed
  have c2: "\<not> verifyAdminSessionToken env now (JStr (p @ js ''.'' @ s))"
    if "s \<noteq> hmac env (ADMIN_SESSION_SECRET env) p" for p s
    using that V by blast
  have c3: "\<not> verifyAdminSessionToken env now
            (JStr (p @ js ''.'' @ hmac env (ADMIN_SESSION_SECRET env) p))"
    if "decode_payload env p = Some obj" "get_prop obj (js ''exp'') = Some (JNum e)"
      "e < of_int now" for p obj e
    using that V [of p "hmac env (ADMIN_SESSION_SECRET env) p"] by auto
  define P where "P = encode_payload env
          (JObj [(js ''username'', JStr (ADMIN_USERNAME env)),
                 (js ''exp'', JNum (of_int (t0 + ADMIN_SESSION_TTL_SECONDS)))])"
  have b: "buildAdminSessionToken (env\<lparr>ADMIN_SESSION_SECRET := k\<rparr>) t0 = P @ js ''.'' @ hmac env k P"
    by (simp add: buildAdminSessionToken_def signSessionPayload_def P_def Let_def)
  have c4: "\<not> verifyAdminSessionToken env now
            (JStr (buildAdminSessionToken (env\<lparr>ADMIN_SESSION_SECRET := k\<rparr>) t0))"
    if "hmac env k P \<noteq> hmac env (ADMIN_SESSION_SECRET env) P"
    unfolding b using that c2 by blast
  show ?thesis
    using iff [of token] c2 c3 c4 unfolding P_def by blast
qed

theorem verifyAdminSessionToken_accepts_only_witness:
  "hmac sample_session_env (js ''key-two'') (js ''payload'')
     \<noteq> hmac sample_session_env (ADMIN_SESSION_SECRET sample_session_env) (js ''payload'')
   \<and> \<not> verifyAdminSessionToken sample_session_env 100
        (JStr (buildAdminSessionToken
           (sample_session_env\<lparr>ADMIN_SESSION_SECRET := js ''key-two''\<rparr>) 0))
   \<and> verifyAdminSessionToken sample_session_env 100
        (JStr (buildAdminSessionToken sample_session_env 0))
   \<and> \<not> verifyAdminSessionToken sample_session_env 50000
        (JStr (buildAdminSessionToken sample_session_env 0))"
proof -
  have enc: "encode_payload sample_session_env v = js ''payload''" for v
    by (simp add: sample_session_env_def)
  have 1: "hmac sample_session_env (js ''key-two'') (js ''payload'')
     \<noteq> hmac sample_session_env (ADMIN_SESSION_SECRET sample_session_env) (js ''payload'')"
    by (simp add: sample_session_env_def js_def)
  have dec: "decode_payload sample_session_env (js ''payload'')
      = Some (JObj [(js ''username'', JStr (js ''admin'')), (js ''exp'', JNum 43200)])"
    by (simp add: sample_session_env_def)
  have ex: "get_prop (JObj [(js ''username'', JStr (js ''admin'')), (js ''exp'', JNum 43200)])
      (js ''exp'') = Some (JNum 43200)"
    by simp
  have old: "(43200::rat) < of_int 50000" by simp
  have tok: "buildAdminSessionToken sample_session_env 0
      = js ''payload'' @ js ''.''
        @ hmac sample_session_env (ADMIN_SESSION_SECRET sample_session_env) (js ''payload'')"
    by (simp add: buildAdminSessionToken_def signSessionPayload_def Let_def enc)
  note t1 = verifyAdminSessionToken_accepts_only
    [of sample_session_env 100 JUndefined "[]" "[]" JNull 0 "js ''key-two''" 0,
      unfolded enc]
  note t2 = verifyAdminSessionToken_accepts_only
    [of sample_session_env 50000 JUndefined "[]" "js ''payload''"
      "JObj [(js ''username'', JStr (js ''admin'')), (js ''exp'', JNum 43200)]" 43200
      "[]" 0]
  have 2: "\<not> verifyAdminSessionToken sample_session_env 100
        (JStr (buildAdminSessionToken
           (sample_session_env\<lparr>ADMIN_SESSION_SECRET := js ''key-two''\<rparr>) 0))"
    using t1 1 by blast
  have 3: "\<not> verifyAdminSessionToken sample_session_env 50000
        (JStr (buildAdminSessionToken sample_session_env 0))"
    unfolding tok using t2 dec ex old by blast
  show ?thesis
    using 1 2 3 sample_token_accepted by blast
qed

section \<open>Properties of the CSV export\<close>

lemma read_quoted_body:
  "read_csv Quoted cur fs recs (double_quotes s @ 34 # rest)
     = read_csv QuoteSeen (rev s @ cur) fs recs rest"
  by (induction s arbitrary: cur) (simp_all add: double_quotes_def)

lemma read_unquoted_body:
  "\<not> list_ex csv_special s \<Longrightarrow>
   read_csv Unquoted cur fs recs (s @ rest) = read_csv Unquoted (rev s @ cur) fs recs rest"
  by (induction s arbitrary: cur) (simp_all add: csv_special_def)

lemma read_plain_field:
  "\<not> list_ex csv_special s \<Longrightarrow> s \<noteq> [] \<Longrightarrow>
   read_csv FieldStart [] fs recs (s @ rest) = read_csv Unquoted (rev s) fs recs rest"
proof (cases s)
  case Nil
  then show "s \<noteq> [] \<Longrightarrow> ?thesis" by simp
next
  case (Cons c cs)
  assume p: "\<not> list_ex csv_special s"
  then have "read_csv FieldStart [] fs recs (s @ rest) = read_csv Unquoted [c] fs recs (cs @ rest)"
    using Cons by (simp add: csv_special_def)
  also have "\<dots> = read_csv Unquoted (rev cs @ [c]) fs recs rest"
    using p Cons by (simp add: read_unquoted_body)
  finally show ?thesis using Cons by simp
qed

lemma read_field_comma:
  "read_csv FieldStart [] fs recs (csv_escape s @ 44 # rest)
     = read_csv FieldStart [] (s # fs) recs rest"
proof (cases "list_ex csv_special s")
  case True
  then show ?thesis
    by (simp add: csv_escape_def read_quoted_body)
next
  case False
  show ?thesis
  proof (cases "s = []")
    case True
    then show ?thesis by (simp add: csv_escape_def)
  next
    case ne: False
    show ?thesis using False ne
      by (simp add: csv_escape_def read_plain_field)
  qed
qed

lemma read_field_newline:
  "read_csv FieldStart [] fs recs (csv_escape s @ 10 # rest)
     = read_csv FieldStart [] [] (rev (s # fs) # recs) rest"
proof (cases "list_ex csv_special s")
  case True
  then show ?thesis
    by (simp add: csv_escape_def read_quoted_body)
next
  case False
  show ?thesis
  proof (cases "s = []")
    case True
    then show ?thesis by (simp add: csv_escape_def)
  next
    case ne: False
    show ?thesis using False ne
      by (simp add: csv_escape_def read_plain_field)
  qed
qed

lemma read_record:
  "cells \<noteq> [] \<Longrightarrow>
   read_csv FieldStart [] fs recs (join [44] (map csv_escape cells) @ 10 # rest)
     = read_csv FieldStart [] [] ((rev fs @ cells) # recs) rest"
proof (induction cells arbitrary: fs)
  case Nil
  then show ?case by simp
next
  case (Cons c cs)
  show ?case
  proof (cases cs)
    case Nil
    then show ?thesis by (simp add: read_field_newline)
  next
    case (Cons d ds)
    then have "join [44] (map csv_escape (c # cs)) @ 10 # rest
        = csv_escape c @ 44 # (join [44] (map csv_escape cs) @ 10 # rest)"
      by simp
    then show ?thesis
      using Cons.IH [of "c # fs"] Cons by (simp add: read_field_comma)
  qed
qed

lemma read_document:
  "list_all (\<lambda>cells. cells \<noteq> []) table \<Longrightarrow>
   read_csv FieldStart [] [] recs
     (concat (map (\<lambda>cells. join [44] (map csv_escape cells) @ [10]) table))
     = Some (rev recs @ table)"
proof (induction table arbitrary: recs)
  case Nil
  then show ?case by simp
next
  case (Cons cells table)
  then show ?case
    using read_record [of cells "[]" recs] by simp
qed

lemma join_lines: "ls \<noteq> [] \<Longrightarrow> join [10] ls @ [10] = concat (map (\<lambda>l. l @ [10]) ls)"
  by (induction ls rule: join.induct[of _ "[10]"]) simp_all


lemma escaped_cells:
  "sequence_opt (map (escapeCsvValue rt) row) = Some cells \<Longrightarrow>
   \<exists>texts. sequence_opt (map (cell_text rt) row) = Some texts \<and> cells = map csv_escape texts"
proof (induction row arbitrary: cells)
  case Nil
  then show ?case by simp
next
  case (Cons v row)
  from Cons.prems obtain c cs where c: "escapeCsvValue rt v = Some c"
    and cs: "sequence_opt (map (escapeCsvValue rt) row) = Some cs" and e: "cells = c # cs"
    by (cases "escapeCsvValue rt v") (auto split: option.splits)
  from c obtain t where t: "cell_text rt v = Some t" "c = csv_escape t"
    by (auto simp: escapeCsvValue_def)
  from Cons.IH [OF cs] obtain texts where
    "sequence_opt (map (cell_text rt) row) = Some texts" "cs = map csv_escape texts"
    by blast
  then show ?case using t e by simp
qed

lemma sequence_opt_length: "sequence_opt xs = Some ys \<Longrightarrow> length ys = length xs"
proof (induction xs arbitrary: ys)
  case Nil
  then show ?case by simp
next
  case (Cons x xs)
  then show ?case by (cases x) (auto split: option.splits)
qed

lemma csv_row_values_length: "csv_row_values registration = Some row \<Longrightarrow> length row = 33"
  by (auto simp: csv_row_values_def Let_def bind_eq_Some_conv)

lemma csv_line_texts:
  assumes "csv_line rt registration = Some l"
  shows "\<exists>texts. csv_row_texts rt registration = Some texts \<and> texts \<noteq> []
           \<and> l = join [44] (map csv_escape texts)"
proof -
  from assms obtain row cells where r: "csv_row_values registration = Some row"
    and c: "sequence_opt (map (escapeCsvValue rt) row) = Some cells"
    and l: "l = join (js '','') cells"
    by (auto simp: csv_line_def bind_eq_Some_conv)
  from escaped_cells [OF c] obtain texts where
    t: "sequence_opt (map (cell_text rt) row) = Some texts" "cells = map csv_escape texts"
    by blast
  have "length texts = 33"
    using sequence_opt_length [OF t(1)] csv_row_values_length [OF r] by simp
  then have "texts \<noteq> []" by auto
  moreover have "js '','' = [44]" by (simp add: js_def)
  ultimately show ?thesis
    using r t l by (simp add: csv_row_texts_def)
qed

lemma csv_lines_texts:
  "sequence_opt (map (csv_line rt) registrations) = Some ls \<Longrightarrow>
   \<exists>table. sequence_opt (map (csv_row_texts rt) registrations) = Some table
      \<and> list_all (\<lambda>cells. cells \<noteq> []) table
      \<and> ls = map (\<lambda>cells. join [44] (map csv_escape cells)) table"
proof (induction registrations arbitrary: ls)
  case Nil
  then show ?case by simp
next
  case (Cons reg regs)
  from Cons.prems obtain l ls' where l: "csv_line rt reg = Some l"
    and ls': "sequence_opt (map (csv_line rt) regs) = Some ls'" and e: "ls = l # ls'"
    by (cases "csv_line rt reg") (auto split: option.splits)
  from csv_line_texts [OF l] obtain texts where
    t: "csv_row_texts rt reg = Some texts" "texts \<noteq> []" "l = join [44] (map csv_escape texts)"
    by blast
  from Cons.IH [OF ls'] obtain table where
    "sequence_opt (map (csv_row_texts rt) regs) = Some table"
    "list_all (\<lambda>cells. cells \<noteq> []) table"
    "ls' = map (\<lambda>cells. join [44] (map csv_escape cells)) table"
    by blast
  then show ?case using t e by simp
qed

lemma buildCsvExport_reads_back:
  assumes "buildCsvExport rt registrations = Some out"
  shows "\<exists>body table. out = 65279 # body
          \<and> sequence_opt (map (csv_row_texts rt) registrations) = Some table
          \<and> parse_csv body = Some (csv_headers # table)"
proof -
  from assms obtain ls where ls: "sequence_opt (map (csv_line rt) registrations) = Some ls"
    and out: "out = [65279] @ join [10] (join (js '','') (map csv_escape csv_headers) # ls) @ [10]"
    by (auto simp: buildCsvExport_def Let_def bind_eq_Some_conv)
  from csv_lines_texts [OF ls] obtain table where
    t: "sequence_opt (map (csv_row_texts rt) registrations) = Some table"
    "list_all (\<lambda>cells. cells \<noteq> []) table"
    "ls = map (\<lambda>cells. join [44] (map csv_escape cells)) table"
    by blast
  have c: "js '','' = [44]" by (simp add: js_def)
  have h: "csv_headers \<noteq> []" by (simp add: csv_headers_def)
  let ?line = "\<lambda>cells. join [44] (map csv_escape cells)"
  have "join [10] (?line csv_headers # ls) @ [10]
      = concat (map (\<lambda>l. l @ [10]) (map ?line (csv_headers # table)))"
    using join_lines [of "?line csv_headers # ls"] t(3) by simp
  also have "\<dots> = concat (map (\<lambda>cells. ?line cells @ [10]) (csv_headers # table))"
    by (simp add: comp_def)
  finally have b: "join [10] (?line csv_headers # ls) @ [10]
      = concat (map (\<lambda>cells. ?line cells @ [10]) (csv_headers # table))" .
  have "parse_csv (join [10] (?line csv_headers # ls) @ [10]) = Some (csv_headers # table)"
    unfolding b parse_csv_def
    using read_document [of "csv_headers # table" "[]"] t(2) h by simp
  then show ?thesis using out t(1) c by simp
qed

lemma sample_listed_texts: "csv_row_texts sample_runtime sample_listed = Some sample_cells"
  by (simp add: csv_row_texts_def csv_row_values_def cell_text_def price_of_def bool_text_def
      optional_prop_def js_coalesce_def sample_listed_def sample_cells_def js_def)

lemma sample_listed_exports: "buildCsvExport sample_runtime [sample_listed] \<noteq> None"
  by (simp add: buildCsvExport_def csv_line_def escapeCsvValue_def
      csv_row_values_def cell_text_def price_of_def bool_text_def
      optional_prop_def js_coalesce_def sample_listed_def js_def)

text \<open>
  C8. A value is escaped exactly when it holds a double quote, a comma or a line break
  (a line feed or a carriage return): it is then wrapped in double quotes with every
  double quote inside doubled, and is emitted as it is otherwise. A line of escaped
  cells reads back, through the standard CSV reader, as the cells themselves. The export
  begins with the byte-order mark U+FEFF, and what follows the mark reads back as the
  header row and, for each registration, the texts of its 33 cells.
\<close>

theorem csv_export_round_trip:
  "(list_ex csv_special s \<longleftrightarrow> 34 \<in> set s \<or> 44 \<in> set s \<or> 10 \<in> set s \<or> 13 \<in> set s)
   \<and> csv_escape s = (if list_ex csv_special s then [34] @ double_quotes s @ [34] else s)
   \<and> (cells \<noteq> [] \<longrightarrow> parse_csv (join [44] (map csv_escape cells) @ [10]) = Some [cells])
   \<and> (buildCsvExport rt registrations = Some out \<longrightarrow>
        (\<exists>body table. out = 65279 # body
           \<and> sequence_opt (map (csv_row_texts rt) registrations) = Some table
           \<and> parse_csv body = Some (csv_headers # table)))"
proof (intro conjI impI)
  show "list_ex csv_special s \<longleftrightarrow> 34 \<in> set s \<or> 44 \<in> set s \<or> 10 \<in> set s \<or> 13 \<in> set s"
    by (auto simp: list_ex_iff csv_special_def)
  show "csv_escape s = (if list_ex csv_special s then [34] @ double_quotes s @ [34] else s)"
    by (simp add: csv_escape_def)
  show "parse_csv (join [44] (map csv_escape cells) @ [10]) = Some [cells]" if "cells \<noteq> []"
    using read_record [OF that, of "[]" "[]" "[]"] by (simp add: parse_csv_def)
  show "\<exists>body table. out = 65279 # body
           \<and> sequence_opt (map (csv_row_texts rt) registrations) = Some table
           \<and> parse_csv body = Some (csv_headers # table)"
    if "buildCsvExport rt registrations = Some out"
    using that by (rule buildCsvExport_reads_back)
qed

theorem csv_export_round_trip_witness:
  "csv_escape (js ''Smith, John'') = [34] @ js ''Smith, John'' @ [34]
   \<and> parse_csv (join [44] (map csv_escape [js ''Smith, John'', js ''a'' @ [34] @ js ''b'']) @ [10])
       = Some [[js ''Smith, John'', js ''a'' @ [34] @ js ''b'']]
   \<and> buildCsvExport sample_runtime [sample_listed] \<noteq> None
   \<and> map_option hd (buildCsvExport sample_runtime [sample_listed]) = Some 65279
   \<and> Option.bind (buildCsvExport sample_runtime [sample_listed]) (\<lambda>out. parse_csv (tl out))
       = Some [csv_headers, sample_cells]"
proof -
  have 1: "csv_escape (js ''Smith, John'') = [34] @ js ''Smith, John'' @ [34]"
    by (simp add: csv_escape_def csv_special_def double_quotes_def js_def)
  have ne: "[js ''Smith, John'', js ''a'' @ [34] @ js ''b''] \<noteq> []" by simp
  note t = csv_export_round_trip
    [of "[]" "[js ''Smith, John'', js ''a'' @ [34] @ js ''b'']" sample_runtime "[sample_listed]"]
  have 2: "parse_csv (join [44] (map csv_escape [js ''Smith, John'', js ''a'' @ [34] @ js ''b'']) @ [10])
       = Some [[js ''Smith, John'', js ''a'' @ [34] @ js ''b'']]"
    using t ne by blast
  obtain out where o: "buildCsvExport sample_runtime [sample_listed] = Some out"
    using sample_listed_exports by auto
  then obtain body table where b: "out = 65279 # body"
    "sequence_opt (map (csv_row_texts sample_runtime) [sample_listed]) = Some table"
    "parse_csv body = Some (csv_headers # table)"
    using t by blast
  have "table = [sample_cells]"
    using b(2) by (simp add: sample_listed_texts)
  then show ?thesis
    using 1 2 o b by simp
qed

section \<open>Properties of the legacy import\<close>

lemma insert_all_rows:
  "insert_all lib env rt db i items = Some db' \<Longrightarrow>
   columns db' = columns db \<and> length (rows db') = length (rows db) + length items
   \<and> take (length (rows db)) (rows db') = rows db"
proof (induction items arbitrary: db i)
  case Nil
  then show ?case by simp
next
  case (Cons item items)
  from Cons.prems obtain vs db1 where vs: "legacy_values env rt i item = Some vs"
    and r: "run_insert lib db vs = Inr db1"
    and a: "insert_all lib env rt db1 (Suc i) items = Some db'"
    by (auto split: option.splits sum.splits)
  from run_insert_rows [OF r] obtain x where x: "rows db1 = rows db @ [x]" "columns db1 = columns db"
    by blast
  from Cons.IH [OF a] have "columns db' = columns db1"
    "length (rows db') = length (rows db1) + length items"
    "take (length (rows db1)) (rows db') = rows db1"
    by simp_all
  then show ?case using x
    by (auto simp: take_Suc_conv_app_nth dest: arg_cong [where f = "take (length (rows db))"])
qed

lemma insert_all_append:
  "insert_all lib env rt db i (pre @ post)
     = (case insert_all lib env rt db i pre of
          None \<Rightarrow> None
        | Some db1 \<Rightarrow> insert_all lib env rt db1 (i + length pre) post)"
  by (induction pre arbitrary: db i) (auto split: option.splits sum.splits)

lemma insert_all_fails:
  "insert_all lib env rt db i pre = Some db1 \<Longrightarrow> row_fails lib env rt db1 (i + length pre) item \<Longrightarrow>
   insert_all lib env rt db i (pre @ item # post) = None"
  by (auto simp: insert_all_append row_fails_def split: option.splits sum.splits)

lemma two_items_fail:
  "insert_all sample_sqlite sample_import_env sample_runtime empty_store 0 [legacy_item, legacy_item] = None"
  by (simp add: legacy_values_def calculatePricing_def toEnumValue_def trim_def js_space_def
      hasOwnProperty_def PRICE_OPTIONS_campType_def PRICE_OPTIONS_mealPlan_def
      PRICE_OPTIONS_accommodation_def mk_line_item_def add_amount_def str_of_def str_of2_def
      str_or_def js_or_def js_coalesce_def optional_prop_def sql_bool_def run_insert_def
      column_affinity_def integer_columns_def sample_sqlite_def
      insert_columns_def col_def empty_store_def base_columns_def new_columns_def
      sample_import_env_def sample_runtime_def legacy_item_def js_def)


lemma one_item_inserted:
  "insert_all sample_sqlite sample_import_env sample_runtime empty_store 0 [legacy_item] \<noteq> None"
  by (simp add: legacy_values_def calculatePricing_def toEnumValue_def trim_def js_space_def
      hasOwnProperty_def PRICE_OPTIONS_campType_def PRICE_OPTIONS_mealPlan_def
      PRICE_OPTIONS_accommodation_def mk_line_item_def add_amount_def str_of_def str_of2_def
      str_or_def js_or_def js_coalesce_def optional_prop_def sql_bool_def run_insert_def
      column_affinity_def integer_columns_def sample_sqlite_def
      insert_columns_def col_def empty_store_def base_columns_def new_columns_def
      sample_import_env_def sample_runtime_def legacy_item_def js_def)

lemma empty_store_prepares: "prepare_insert empty_store"
  by (simp add: prepare_insert_def insert_columns_def has_column_def empty_store_def
      base_columns_def new_columns_def)

lemma null_item_fails: "row_fails sample_sqlite sample_import_env sample_runtime empty_store 0 JNull"
  by (simp add: row_fails_def legacy_values_def)

text \<open>
  The primary key is tested on what the \<open>TEXT\<close> column \<open>id\<close> stores: a statement whose
  first value is stored as a text that the column already holds fails.
\<close>

lemma run_insert_id_taken:
  assumes "length vs = length insert_columns"
    and "store_as lib TextAffinity (hd vs) \<noteq> SNull"
    and "store_as lib TextAffinity (hd vs) \<in> set (map (\<lambda>x. col x ''id'') (rows t))"
  shows "\<exists>e. run_insert lib t vs = Inl e"
proof -
  from assms(1) obtain v vs' where vs: "vs = v # vs'"
    by (cases vs) (simp_all add: insert_columns_def)
  have "col (map_of (zip insert_columns
          (map2 (\<lambda>c v. store_as lib (column_affinity c) v) insert_columns vs))) ''id''
        = store_as lib TextAffinity v"
    unfolding vs by (simp add: insert_columns_def col_def column_affinity_def integer_columns_def)
  then show ?thesis
    using assms(2,3) unfolding vs by (simp add: run_insert_def Let_def)
qed

text \<open>
  A legacy item whose id is the number 5 is stored with the id \<open>5.0\<close>, so that an item
  with the text \<open>5.0\<close> as its id cannot follow it, though each of the two can be
  imported alone.
\<close>

lemmas import_defs = legacy_values_def calculatePricing_def toEnumValue_def trim_def js_space_def
  hasOwnProperty_def PRICE_OPTIONS_campType_def PRICE_OPTIONS_mealPlan_def
  PRICE_OPTIONS_accommodation_def mk_line_item_def add_amount_def str_of_def str_of2_def
  str_or_def js_or_def js_coalesce_def optional_prop_def sql_bool_def run_insert_def
  column_affinity_def integer_columns_def sample_sqlite_def
  insert_columns_def col_def empty_store_def base_columns_def new_columns_def
  sample_import_env_def sample_runtime_def js_def

lemma number_id_stored:
  "\<exists>db'. insert_all sample_sqlite sample_import_env sample_runtime empty_store 0 [number_id_item]
      = Some db' \<and> map (\<lambda>r. col r ''id'') (rows db') = [SText (js ''5.0'')]"
  by (simp add: import_defs number_id_item_def)

lemma text_id_inserted:
  "insert_all sample_sqlite sample_import_env sample_runtime empty_store 0 [text_id_item] \<noteq> None"
  by (simp add: import_defs text_id_item_def)

lemma number_and_text_id_fail:
  "insert_all sample_sqlite sample_import_env sample_runtime empty_store 0
     [number_id_item, text_id_item] = None"
  by (simp add: import_defs number_id_item_def text_id_item_def)

text \<open>
  C3. The import leaves the store as it is when the legacy file is missing and when
  the table holds a row, whatever the file holds. The store changes only when the file
  is present with a non-empty array and the table is empty, and then every item of the
  array has been inserted, in one transaction: the store has as many rows as the array
  has items. An item that throws, at whatever position and after whatever successful
  inserts, makes the loop throw; the transaction is then rolled back, so that the store
  is what it was, with no imported row, and the import throws the fatal error
  \<open>Legacy JSON migration failed.\<close> Whenever the import throws, the store is unchanged.
  An item throws when computing or binding one of its values throws, when a \<open>NOT NULL\<close>
  column would hold \<open>NULL\<close>, and when the id that the column stores for it is already
  in the table.
\<close>

theorem migrateLegacyJsonIfNeeded_gate_atomic:
  "(legacyFile = Missing \<longrightarrow> migrateLegacyJsonIfNeeded lib env rt legacyFile db = (None, db))
   \<and> (rows db \<noteq> [] \<longrightarrow> migrateLegacyJsonIfNeeded lib env rt legacyFile db = (None, db))
   \<and> (snd (migrateLegacyJsonIfNeeded lib env rt legacyFile db) \<noteq> db \<longrightarrow>
        (\<exists>items. legacyFile = Present (Some (JArr items)) \<and> items \<noteq> [] \<and> rows db = []
           \<and> fst (migrateLegacyJsonIfNeeded lib env rt legacyFile db) = None
           \<and> insert_all lib env rt db 0 items = Some (snd (migrateLegacyJsonIfNeeded lib env rt legacyFile db))
           \<and> length (rows (snd (migrateLegacyJsonIfNeeded lib env rt legacyFile db))) = length items
           \<and> columns (snd (migrateLegacyJsonIfNeeded lib env rt legacyFile db)) = columns db))
   \<and> (insert_all lib env rt db 0 pre = Some db1 \<and> row_fails lib env rt db1 (length pre) item \<longrightarrow>
        insert_all lib env rt db 0 (pre @ item # post) = None)
   \<and> (legacyFile = Present (Some (JArr items)) \<and> items \<noteq> [] \<and> rows db = [] \<and> prepare_insert db
        \<and> insert_all lib env rt db 0 items = None \<longrightarrow>
        migrateLegacyJsonIfNeeded lib env rt legacyFile db = (Some migration_failed, db))
   \<and> (fst (migrateLegacyJsonIfNeeded lib env rt legacyFile db) \<noteq> None \<longrightarrow>
        snd (migrateLegacyJsonIfNeeded lib env rt legacyFile db) = db)"
proof (intro conjI impI)
  show "migrateLegacyJsonIfNeeded lib env rt legacyFile db = (None, db)" if "legacyFile = Missing"
    using that by (simp add: migrateLegacyJsonIfNeeded_def)
  show "migrateLegacyJsonIfNeeded lib env rt legacyFile db = (None, db)" if "rows db \<noteq> []"
    using that by (cases legacyFile) (simp_all add: migrateLegacyJsonIfNeeded_def)
  show "insert_all lib env rt db 0 (pre @ item # post) = None"
    if "insert_all lib env rt db 0 pre = Some db1 \<and> row_fails lib env rt db1 (length pre) item"
    using that insert_all_fails [of lib env rt db 0 pre db1 item post] by simp
  show "migrateLegacyJsonIfNeeded lib env rt legacyFile db = (Some migration_failed, db)"
    if "legacyFile = Present (Some (JArr items)) \<and> items \<noteq> [] \<and> rows db = [] \<and> prepare_insert db
        \<and> insert_all lib env rt db 0 items = None"
    using that by (simp add: migrateLegacyJsonIfNeeded_def)
  show "snd (migrateLegacyJsonIfNeeded lib env rt legacyFile db) = db"
    if "fst (migrateLegacyJsonIfNeeded lib env rt legacyFile db) \<noteq> None"
    using that
    by (auto simp: migrateLegacyJsonIfNeeded_def Let_def
        split: legacy_file.splits if_splits option.splits)
  show "\<exists>items. legacyFile = Present (Some (JArr items)) \<and> items \<noteq> [] \<and> rows db = []
           \<and> fst (migrateLegacyJsonIfNeeded lib env rt legacyFile db) = None
           \<and> insert_all lib env rt db 0 items = Some (snd (migrateLegacyJsonIfNeeded lib env rt legacyFile db))
           \<and> length (rows (snd (migrateLegacyJsonIfNeeded lib env rt legacyFile db))) = length items
           \<and> columns (snd (migrateLegacyJsonIfNeeded lib env rt legacyFile db)) = columns db"
    if c: "snd (migrateLegacyJsonIfNeeded lib env rt legacyFile db) \<noteq> db"
  proof -
    from c obtain parsed where f: "legacyFile = Present parsed" and e: "rows db = []"
      by (cases legacyFile) (auto simp: migrateLegacyJsonIfNeeded_def Let_def split: if_splits)
    from c f e obtain items where p: "parsed = Some (JArr items)" and ne: "items \<noteq> []"
      by (cases parsed; cases "the parsed")
        (auto simp: migrateLegacyJsonIfNeeded_def Let_def split: if_splits)
    from c f e p ne obtain db' where i: "insert_all lib env rt db 0 items = Some db'"
      and m: "migrateLegacyJsonIfNeeded lib env rt legacyFile db = (None, db')"
      by (auto simp: migrateLegacyJsonIfNeeded_def Let_def split: if_splits option.splits)
    from insert_all_rows [OF i] e have "columns db' = columns db" "length (rows db') = length items"
      by simp_all
    then show ?thesis using f p ne e i m by simp
  qed
qed

theorem migrateLegacyJsonIfNeeded_gate_atomic_witness:
  "migrateLegacyJsonIfNeeded sample_sqlite sample_import_env sample_runtime Missing empty_store
     = (None, empty_store)
   \<and> rows deleted_store \<noteq> []
   \<and> migrateLegacyJsonIfNeeded sample_sqlite sample_import_env sample_runtime
        (Present (Some (JArr [legacy_item]))) deleted_store = (None, deleted_store)
   \<and> prepare_insert empty_store
   \<and> insert_all sample_sqlite sample_import_env sample_runtime empty_store 0 [legacy_item, legacy_item] = None
   \<and> migrateLegacyJsonIfNeeded sample_sqlite sample_import_env sample_runtime
        (Present (Some (JArr [legacy_item, legacy_item]))) empty_store
       = (Some migration_failed, empty_store)
   \<and> migrateLegacyJsonIfNeeded sample_sqlite sample_import_env sample_runtime
        (Present (Some (JArr [number_id_item, text_id_item]))) empty_store
       = (Some migration_failed, empty_store)
   \<and> row_fails sample_sqlite sample_import_env sample_runtime empty_store 0 JNull
   \<and> insert_all sample_sqlite sample_import_env sample_runtime empty_store 0 ([] @ JNull # [legacy_item]) = None
   \<and> snd (migrateLegacyJsonIfNeeded sample_sqlite sample_import_env sample_runtime
        (Present (Some (JArr [legacy_item]))) empty_store) \<noteq> empty_store
   \<and> length (rows (snd (migrateLegacyJsonIfNeeded sample_sqlite sample_import_env sample_runtime
        (Present (Some (JArr [legacy_item]))) empty_store))) = 1"
proof -
  let ?m = "migrateLegacyJsonIfNeeded sample_sqlite sample_import_env sample_runtime"
  note t = migrateLegacyJsonIfNeeded_gate_atomic
    [where lib = sample_sqlite and env = sample_import_env and rt = sample_runtime]
  have e: "rows empty_store = []" by (simp add: empty_store_def)
  have 1: "?m Missing empty_store = (None, empty_store)"
    using t [where legacyFile = Missing and db = empty_store] by blast
  have d: "rows deleted_store \<noteq> []" by (simp add: deleted_store_def)
  have 2: "?m (Present (Some (JArr [legacy_item]))) deleted_store = (None, deleted_store)"
    using t [where legacyFile = "Present (Some (JArr [legacy_item]))" and db = deleted_store] d
    by blast
  have 3: "?m (Present (Some (JArr [legacy_item, legacy_item]))) empty_store
       = (Some migration_failed, empty_store)"
    using t [where legacyFile = "Present (Some (JArr [legacy_item, legacy_item]))"
        and db = empty_store and items = "[legacy_item, legacy_item]"]
      two_items_fail empty_store_prepares e
    by blast
  have 6: "?m (Present (Some (JArr [number_id_item, text_id_item]))) empty_store
       = (Some migration_failed, empty_store)"
    using t [where legacyFile = "Present (Some (JArr [number_id_item, text_id_item]))"
        and db = empty_store and items = "[number_id_item, text_id_item]"]
      number_and_text_id_fail empty_store_prepares e
    by blast
  have 4: "insert_all sample_sqlite sample_import_env sample_runtime empty_store 0 ([] @ JNull # [legacy_item])
      = None"
    using t [where db = empty_store and pre = "[]" and ?db1.0 = empty_store and item = JNull
        and post = "[legacy_item]"] null_item_fails
    by simp
  obtain db' where i: "insert_all sample_sqlite sample_import_env sample_runtime empty_store 0 [legacy_item]
      = Some db'"
    using one_item_inserted by auto
  then have m: "?m (Present (Some (JArr [legacy_item]))) empty_store = (None, db')"
    using e empty_store_prepares by (simp add: migrateLegacyJsonIfNeeded_def)
  have l: "length (rows db') = 1"
    using insert_all_rows [OF i] e by simp
  then have n: "snd (?m (Present (Some (JArr [legacy_item]))) empty_store) \<noteq> empty_store"
    using m e by auto
  have 5: "length (rows (snd (?m (Present (Some (JArr [legacy_item]))) empty_store))) = 1"
    using t [where legacyFile = "Present (Some (JArr [legacy_item]))" and db = empty_store] n
    by auto
  show ?thesis
    using 1 d 2 empty_store_prepares two_items_fail 3 6 null_item_fails 4 n 5 by blast
qed

end
